theory Spec2Isabelle
  imports Complex_Main
begin

section \<open>Strings, numbers and the services of the host\<close>

text \<open>
  A JavaScript string is a sequence of UTF-16 code units; \<open>length\<close>, \<open>substring\<close>,
  \<open>indexOf\<close> and \<open>startsWith\<close> all count code units. A string is modelled as the list
  of its code units, each a natural number. \<open>js\<close> turns a literal into that list.
\<close>

type_synonym jstring = "nat list"

definition js :: "string \<Rightarrow> jstring" where
  "js s = map of_char s"

subsection \<open>Numbers\<close>

text \<open>
  A JavaScript number is an IEEE 754 binary64 value. A finite one is a real number, and
  the result of \<open>+\<close>, \<open>-\<close>, \<open>*\<close> or \<open>/\<close> is the exact result rounded to the nearest
  such number, a tie going to the neighbour whose last bit is zero. \<open>double x\<close> is that
  rounding of the real \<open>x\<close>. The numbers near \<open>x\<close> are the integer multiples of
  \<open>quantum x\<close>: two to the power \<open>e - 52\<close> for \<open>\<bar>x\<bar>\<close> between \<open>2 ^ e\<close> and \<open>2 ^ (e + 1)\<close>,
  and never less than two to the power \<open>-1074\<close>. \<open>roundEven\<close> rounds a real to the nearest
  integer, a tie going to the even one.

  Infinities and NaN are not modelled: \<open>double\<close> does not overflow. No score and no age
  comes near the largest finite number, and a division by a half-life of zero is excluded
  where it matters.
\<close>

definition roundEven :: "real \<Rightarrow> int" where
  "roundEven z =
     (let n = \<lfloor>z\<rfloor>; r = z - of_int n in
      if r < 1/2 then n else if r > 1/2 then n + 1 else if even n then n else n + 1)"

definition quantum :: "real \<Rightarrow> real" where
  "quantum x = 2 powr of_int (max (\<lfloor>log 2 \<bar>x\<bar>\<rfloor> - 52) (- 1074))"

definition double :: "real \<Rightarrow> real" where
  "double x = (if x = 0 then 0 else sgn x * (quantum x * of_int (roundEven (\<bar>x\<bar> / quantum x))))"

text \<open>\<open>Math.LN2\<close> is the number nearest to the natural logarithm of 2.\<close>

definition LN2 :: real where
  "LN2 = double (ln 2)"

subsection \<open>The services of the host\<close>

text \<open>
  The source calls five services of the JavaScript host whose behaviour is fixed by the
  Unicode tables, the regular-expression engine and the mathematical library of the host,
  not by the repository: lower-casing, canonical decomposition, the classes \<open>\p{Letter}\<close>
  and \<open>\p{Number}\<close>, \<open>new RegExp\<close> and \<open>Math.exp\<close>. They are parameters of the model,
  collected in one record.

  \<^item> \<open>lowerUnit pre c post\<close> is the lower-case form of the code unit \<open>c\<close> that stands
    after the units \<open>pre\<close> (nearest first) and before the units \<open>post\<close>. Every case mapping
    of the Unicode default algorithm yields as many code units as it consumes, whatever the
    context (final sigma, the two halves of a surrogate pair), with the single exception of
    U+0130, which \<open>toLowerCase\<close> below treats by itself.
  \<^item> \<open>nfd\<close> is \<open>String.prototype.normalize('NFD')\<close>.
  \<^item> \<open>isLetterOrNumber\<close> is the class \<open>[\p{Letter}\p{Number}]\<close> of code points.
  \<^item> \<open>compileRegExp source flags\<close> is \<open>new RegExp(source, flags)\<close>: \<open>None\<close> when the
    constructor throws a SyntaxError, otherwise the compiled matcher. A matcher applied to
    a string and a start index returns the first match at or after that index as the pair
    of its start and end offsets.
  \<^item> \<open>mathExp\<close> is \<open>Math.exp\<close>, which the language leaves to the implementation as an
    approximation of the exponential function.
\<close>

type_synonym matcher = "jstring \<Rightarrow> nat \<Rightarrow> (nat \<times> nat) option"

record host =
  lowerUnit :: "jstring \<Rightarrow> nat \<Rightarrow> jstring \<Rightarrow> nat"
  nfd :: "jstring \<Rightarrow> jstring"
  isLetterOrNumber :: "nat \<Rightarrow> bool"
  compileRegExp :: "jstring \<Rightarrow> jstring \<Rightarrow> matcher option"
  mathExp :: "real \<Rightarrow> real"

text \<open>
  \<open>String.prototype.toLowerCase\<close>: code unit by code unit, except that U+0130 (capital I
  with dot above) becomes the two units U+0069 U+0307, the one unconditional lower-case
  mapping of Unicode's SpecialCasing that is longer than its source.
\<close>

fun lowerFrom :: "host \<Rightarrow> jstring \<Rightarrow> jstring \<Rightarrow> jstring" where
  "lowerFrom u pre [] = []"
| "lowerFrom u pre (c # cs) =
     (if c = 0x130 then [0x69, 0x307] else [lowerUnit u pre c cs]) @ lowerFrom u (c # pre) cs"

definition toLowerCase :: "host \<Rightarrow> jstring \<Rightarrow> jstring" where
  "toLowerCase u s = lowerFrom u [] s"

subsection \<open>normalize.ts\<close>

text \<open>The class \<open>[\u0300-\u036f]\<close>, of a pattern without the flag \<open>u\<close>: code units.\<close>

definition isCombiningMark :: "nat \<Rightarrow> bool" where
  "isCombiningMark c = (0x300 \<le> c \<and> c \<le> 0x36f)"

definition normalizeText :: "host \<Rightarrow> jstring \<Rightarrow> bool \<Rightarrow> jstring" where
  "normalizeText u str diacritics =
     (let normalized = toLowerCase u str in
      if \<not> diacritics
      then filter (\<lambda>c. \<not> isCombiningMark c) (nfd u normalized)
      else normalized)"

text \<open>
  The pattern of \<open>tokenizeWords\<close> has the flag \<open>u\<close>, so it reads the string by code
  points: a high surrogate followed by a low surrogate is one character, any other code
  unit is a character of its own. \<open>codePoints\<close> lists the code points of a string, each
  with the code units that spell it.
\<close>

fun codePoints :: "jstring \<Rightarrow> (nat \<times> jstring) list" where
  "codePoints [] = []"
| "codePoints [c] = [(c, [c])]"
| "codePoints (c # d # r) =
     (if 0xd800 \<le> c \<and> c \<le> 0xdbff \<and> 0xdc00 \<le> d \<and> d \<le> 0xdfff
      then (0x10000 + (c - 0xd800) * 0x400 + (d - 0xdc00), [c, d]) # codePoints r
      else (c, [c]) # codePoints (d # r))"

text \<open>
  \<open>str.match(/[...]+/gu) || []\<close>: the maximal runs of characters of a class, in order.
  \<open>cur\<close> is the run being read.
\<close>

fun wordRuns :: "(nat \<Rightarrow> bool) \<Rightarrow> jstring \<Rightarrow> (nat \<times> jstring) list \<Rightarrow> jstring list" where
  "wordRuns p cur [] = (if cur = [] then [] else [cur])"
| "wordRuns p cur ((cp, units) # rest) =
     (if p cp then wordRuns p (cur @ units) rest
      else (if cur = [] then [] else [cur]) @ wordRuns p [] rest)"

definition tokenizeWords :: "host \<Rightarrow> jstring \<Rightarrow> bool \<Rightarrow> jstring list" where
  "tokenizeWords u input diacritics =
     (let normalized = normalizeText u input diacritics in
      wordRuns (isLetterOrNumber u) [] (codePoints normalized))"

text \<open>
  The maximal runs of code units of a class, for a pattern without the flag \<open>u\<close>.
\<close>

fun runsOf :: "(nat \<Rightarrow> bool) \<Rightarrow> jstring \<Rightarrow> jstring \<Rightarrow> jstring list" where
  "runsOf p cur [] = (if cur = [] then [] else [cur])"
| "runsOf p cur (c # cs) =
     (if p c then runsOf p (cur @ [c]) cs
      else (if cur = [] then [] else [cur]) @ runsOf p [] cs)"

subsection \<open>A host for Latin-1 text\<close>

text \<open>
  For closed evaluations the services are instantiated for text in the first 256 code
  points (Basic Latin and Latin-1 Supplement), where the tables are short.

  \<^item> Lower case: the capitals A to Z and U+00C0 to U+00DE, the multiplication sign
    U+00D7 apart, are lowered by adding 32.
  \<^item> Canonical decomposition: an accented letter becomes its base letter and a combining
    mark; the table lists the lower-case letters, and a capital decomposes as its
    lower-case form does, with the capital base letter.
  \<^item> Letters and numbers: the ASCII letters and digits, the ordinal indicators, the micro
    sign, the superscript digits, the three vulgar fractions, and the letters from U+00C0
    on, the multiplication and the division sign apart.
  \<^item> Regular expressions: a pattern made of ASCII letters and digits only matches its own
    text, without regard to case under the flag \<open>i\<close>, and only at the start index under
    the flag \<open>y\<close>; the flags \<open>d\<close>, \<open>g\<close>, \<open>m\<close>, \<open>s\<close> and \<open>u\<close> change nothing for such a
    pattern. The flags are valid when each is one of these seven letters and none occurs
    twice. The instance does not know any other pattern, and rejects it; the evaluations
    below use none.
  \<^item> \<open>Math.exp\<close> is the exponential function, rounded to the nearest number.

  Outside the first 256 code points the instance leaves a character as it is and counts
  it as no letter.
\<close>

definition asciiLower :: "nat \<Rightarrow> nat" where
  "asciiLower c = (if 0x41 \<le> c \<and> c \<le> 0x5a then c + 32 else c)"

definition latin1Lower :: "nat \<Rightarrow> nat" where
  "latin1Lower c = (if (0x41 \<le> c \<and> c \<le> 0x5a) \<or> (0xc0 \<le> c \<and> c \<le> 0xde \<and> c \<noteq> 0xd7)
                    then c + 32 else c)"

definition asciiAlnum :: "nat \<Rightarrow> bool" where
  "asciiAlnum c = ((0x30 \<le> c \<and> c \<le> 0x39) \<or> (0x41 \<le> c \<and> c \<le> 0x5a) \<or> (0x61 \<le> c \<and> c \<le> 0x7a))"

definition latin1Alnum :: "nat \<Rightarrow> bool" where
  "latin1Alnum c = (asciiAlnum c \<or> c = 0xaa \<or> c = 0xb2 \<or> c = 0xb3 \<or> c = 0xb5 \<or> c = 0xb9
                    \<or> c = 0xba \<or> (0xbc \<le> c \<and> c \<le> 0xbe)
                    \<or> (0xc0 \<le> c \<and> c \<le> 0xff \<and> c \<noteq> 0xd7 \<and> c \<noteq> 0xf7))"

text \<open>The base letter and the combining mark of the accented lower-case letters.\<close>

definition accents :: "(nat \<times> nat \<times> nat) list" where
  "accents =
     [(0xe0, 0x61, 0x300), (0xe1, 0x61, 0x301), (0xe2, 0x61, 0x302), (0xe3, 0x61, 0x303),
      (0xe4, 0x61, 0x308), (0xe5, 0x61, 0x30a), (0xe7, 0x63, 0x327),
      (0xe8, 0x65, 0x300), (0xe9, 0x65, 0x301), (0xea, 0x65, 0x302), (0xeb, 0x65, 0x308),
      (0xec, 0x69, 0x300), (0xed, 0x69, 0x301), (0xee, 0x69, 0x302), (0xef, 0x69, 0x308),
      (0xf1, 0x6e, 0x303),
      (0xf2, 0x6f, 0x300), (0xf3, 0x6f, 0x301), (0xf4, 0x6f, 0x302), (0xf5, 0x6f, 0x303),
      (0xf6, 0x6f, 0x308),
      (0xf9, 0x75, 0x300), (0xfa, 0x75, 0x301), (0xfb, 0x75, 0x302), (0xfc, 0x75, 0x308),
      (0xfd, 0x79, 0x301), (0xff, 0x79, 0x308)]"

definition latin1Decompose :: "nat \<Rightarrow> jstring" where
  "latin1Decompose c =
     (case map_of accents c of
        Some (base, mark) \<Rightarrow> [base, mark]
      | None \<Rightarrow>
          (if 0xc0 \<le> c \<and> c \<le> 0xde
           then (case map_of accents (c + 32) of
                   Some (base, mark) \<Rightarrow> [base - 32, mark]
                 | None \<Rightarrow> [c])
           else [c]))"

fun startsWith :: "jstring \<Rightarrow> jstring \<Rightarrow> bool" where
  "startsWith s [] = True"
| "startsWith [] (p # ps) = False"
| "startsWith (c # cs) (p # ps) = (c = p \<and> startsWith cs ps)"

text \<open>The first occurrence of \<open>pat\<close> in \<open>s\<close>, counted from offset \<open>off\<close>.\<close>

fun findFrom :: "jstring \<Rightarrow> jstring \<Rightarrow> nat \<Rightarrow> nat option" where
  "findFrom pat [] off = (if pat = [] then Some off else None)"
| "findFrom pat (c # cs) off =
     (if startsWith (c # cs) pat then Some off else findFrom pat cs (Suc off))"

definition literalMatcher :: "jstring \<Rightarrow> matcher" where
  "literalMatcher pat s i =
     (if i > length s then None
      else case findFrom pat (drop i s) i of
             None \<Rightarrow> None
           | Some b \<Rightarrow> Some (b, b + length pat))"

text \<open>
  Under the flag \<open>i\<close> a code unit of the text matches an ASCII letter of the pattern when
  both have the same upper-case form; in text of the first 256 code points no character
  beyond ASCII is matched by an ASCII letter.
\<close>

definition caselessMatcher :: "jstring \<Rightarrow> matcher" where
  "caselessMatcher pat s i = literalMatcher (map asciiLower pat) (map asciiLower s) i"

definition stickyMatcher :: "matcher \<Rightarrow> matcher" where
  "stickyMatcher m s i =
     (case m s i of
        None \<Rightarrow> None
      | Some (b, e) \<Rightarrow> if b = i then Some (b, e) else None)"

definition validFlags :: "jstring \<Rightarrow> bool" where
  "validFlags flags = (distinct flags \<and> set flags \<subseteq> set (js ''dgimsuy''))"

definition latin1 :: host where
  "latin1 = \<lparr> lowerUnit = (\<lambda>pre c post. latin1Lower c),
              nfd = (\<lambda>s. concat (map latin1Decompose s)),
              isLetterOrNumber = latin1Alnum,
              compileRegExp = (\<lambda>source flags.
                 if source \<noteq> [] \<and> list_all asciiAlnum source \<and> validFlags flags
                 then Some (let m = (if 105 \<in> set flags then caselessMatcher source
                                     else literalMatcher source)
                            in if 121 \<in> set flags then stickyMatcher m else m)
                 else None),
              mathExp = (\<lambda>x. double (exp x)) \<rparr>"

section \<open>The data model (types.ts)\<close>

datatype field = Title | Path | Tags | Headings | Symbols | Body

record doc =
  doc_id :: jstring
  title :: jstring
  path :: "jstring list"
  tags :: "jstring list"
  headings :: "jstring list"
  symbols :: "jstring list"
  body :: jstring
  mtime :: int
  doc_size :: nat

datatype queryMode = Files | Commands

text \<open>
  \<open>QueryFilters\<close>: every member is optional. \<open>fieldF\<close> is \<open>Headings\<close> or \<open>Symbols\<close> when
  present.
\<close>

record queryFilters =
  tagF :: "jstring list option"
  pathF :: "jstring list option"
  inF :: "jstring list option"
  fieldF :: "field option"

definition noFilters :: queryFilters where
  "noFilters = \<lparr> tagF = None, pathF = None, inF = None, fieldF = None \<rparr>"

record parsedQuery =
  raw :: jstring
  mode :: queryMode
  terms :: "jstring list"
  phrases :: "jstring list"
  excludes :: "jstring list"
  orGroups :: "jstring list list"
  filters :: queryFilters
  regex :: "(jstring \<times> jstring) option"

record matchSpan =
  span_field :: field
  span_start :: nat
  span_end :: nat

text \<open>
  A score is a JavaScript number: a real, and every operation that builds it rounds.
\<close>

record searchResult =
  res_id :: jstring
  score :: real
  matchSpans :: "matchSpan list"

section \<open>The scorer\<close>

record fieldWeights =
  w_title :: real
  w_headings :: real
  w_path :: real
  w_tags :: real
  w_symbols :: real
  w_body :: real
  w_recency :: real

record scorerConfig =
  weights :: fieldWeights
  diacritics :: bool
  recencyHalfLife :: real

definition DEFAULT_SCORER_CONFIG :: scorerConfig where
  "DEFAULT_SCORER_CONFIG =
     \<lparr> weights = \<lparr> w_title = 4, w_headings = 2, w_path = 3/2, w_tags = 3/2,
                    w_symbols = 3/2, w_body = 1, w_recency = 1/2 \<rparr>,
       diacritics = True,
       recencyHalfLife = 30 \<rparr>"

definition weightOf :: "fieldWeights \<Rightarrow> field \<Rightarrow> real" where
  "weightOf w f = (case f of Title \<Rightarrow> w_title w | Headings \<Rightarrow> w_headings w | Path \<Rightarrow> w_path w
                   | Tags \<Rightarrow> w_tags w | Symbols \<Rightarrow> w_symbols w | Body \<Rightarrow> w_body w)"

subsection \<open>Damerau-Levenshtein distance\<close>

text \<open>
  The source fills a matrix row by row. \<open>dlCell\<close> is the body of the inner loop for the
  cell \<open>(i, j)\<close>: \<open>prev2\<close> and \<open>prev\<close> are the rows \<open>i - 2\<close> and \<open>i - 1\<close>, \<open>cur\<close> is the part of
  row \<open>i\<close> filled so far (columns \<open>0\<close> to \<open>j - 1\<close>). All reads are inside the rows.
\<close>

definition dlCell :: "jstring \<Rightarrow> jstring \<Rightarrow> nat list \<Rightarrow> nat list \<Rightarrow> nat list \<Rightarrow> nat \<Rightarrow> nat \<Rightarrow> nat" where
  "dlCell s1 s2 prev2 prev cur i j =
     (let cost = (if s1 ! (i - 1) = s2 ! (j - 1) then 0 else 1 :: nat);
          v = min (min (prev ! j + 1) (cur ! (j - 1) + 1)) (prev ! (j - 1) + cost)
      in if i > 1 \<and> j > 1 \<and> s1 ! (i - 1) = s2 ! (j - 2) \<and> s1 ! (i - 2) = s2 ! (j - 1)
         then min v (prev2 ! (j - 2) + cost)
         else v)"

definition dlRow :: "jstring \<Rightarrow> jstring \<Rightarrow> nat list \<Rightarrow> nat list \<Rightarrow> nat \<Rightarrow> nat list" where
  "dlRow s1 s2 prev2 prev i =
     fold (\<lambda>j cur. cur @ [dlCell s1 s2 prev2 prev cur i j]) [1 ..< Suc (length s2)] [i]"

definition dlLastRow :: "jstring \<Rightarrow> jstring \<Rightarrow> nat list" where
  "dlLastRow s1 s2 =
     snd (fold (\<lambda>i (prev2, prev). (prev, dlRow s1 s2 prev2 prev i))
               [1 ..< Suc (length s1)] ([], [0 ..< Suc (length s2)]))"

definition damerauLevenshtein :: "jstring \<Rightarrow> jstring \<Rightarrow> nat \<Rightarrow> nat" where
  "damerauLevenshtein s1 s2 maxDistance =
     (let len1 = length s1; len2 = length s2 in
      if (if len1 \<ge> len2 then len1 - len2 else len2 - len1) > maxDistance
      then maxDistance + 1
      else min (dlLastRow s1 s2 ! len2) (maxDistance + 1))"

definition scoreToken :: "jstring \<Rightarrow> jstring \<Rightarrow> real" where
  "scoreToken query token =
     (if startsWith token query then 1
      else let distance = damerauLevenshtein query token 2 in
           if distance > 2 then 0
           else let maxLength = max (length query) (length token) in
                max 0 (double (1 - double (real distance / real maxLength))))"

subsection \<open>Field scores\<close>

fun joinWith :: "jstring \<Rightarrow> jstring list \<Rightarrow> jstring" where
  "joinWith sep [] = []"
| "joinWith sep [x] = x"
| "joinWith sep (x # y # ys) = x @ sep @ joinWith sep (y # ys)"

definition indexOf :: "jstring \<Rightarrow> jstring \<Rightarrow> nat option" where
  "indexOf s pat = findFrom pat s 0"

definition includesStr :: "jstring \<Rightarrow> jstring \<Rightarrow> bool" where
  "includesStr s pat = (indexOf s pat \<noteq> None)"

text \<open>A field value is a string or an array of strings.\<close>

datatype fieldValue = Str jstring | Arr "jstring list"

definition textOf :: "fieldValue \<Rightarrow> jstring" where
  "textOf v = (case v of Str s \<Rightarrow> s | Arr xs \<Rightarrow> joinWith (js '' '') xs)"

text \<open>
  The inner loop of \<open>scoreField\<close> over the tokens of the field: the state is the best
  score so far and the span of the token that reached it.
\<close>

fun bestToken :: "jstring \<Rightarrow> jstring \<Rightarrow> jstring list \<Rightarrow> real \<times> (nat \<times> nat) option
                    \<Rightarrow> real \<times> (nat \<times> nat) option" where
  "bestToken normalizedField normalizedTerm [] acc = acc"
| "bestToken normalizedField normalizedTerm (token # rest) (bestScore, bestMatchSpan) =
     (let tokenScore = scoreToken normalizedTerm token in
      if tokenScore > bestScore
      then bestToken normalizedField normalizedTerm rest
             (tokenScore,
              (case indexOf normalizedField token of
                 Some tokenIndex \<Rightarrow> Some (tokenIndex, tokenIndex + length token)
               | None \<Rightarrow> bestMatchSpan))
      else bestToken normalizedField normalizedTerm rest (bestScore, bestMatchSpan))"

definition scoreField :: "host \<Rightarrow> scorerConfig \<Rightarrow> fieldValue \<Rightarrow> jstring list
                            \<Rightarrow> real \<times> (nat \<times> nat) list" where
  "scoreField u config fieldValue ts =
     (if ts = [] then (0, [])
      else
        let textValue = textOf fieldValue;
            normalizedField = normalizeText u textValue (diacritics config);
            fieldTokens = tokenizeWords u normalizedField (diacritics config)
        in if fieldTokens = [] then (0, [])
           else
             let perTerm = map (\<lambda>term. bestToken normalizedField
                                          (normalizeText u term (diacritics config))
                                          fieldTokens (0, None)) ts;
                 termScores = map fst perTerm;
                 spans = concat (map (\<lambda>r. case snd r of None \<Rightarrow> [] | Some sp \<Rightarrow> [sp]) perTerm)
             in (double (foldl (\<lambda>sum score. double (sum + score)) 0 termScores
                           / real (length termScores)),
                 spans))"

subsection \<open>Phrase bonus, recency bonus, exclusion\<close>

text \<open>
  \<open>text.match(new RegExp(escapeRegex(phrase), 'g'))\<close> lists the non-overlapping
  occurrences of the phrase from left to right; the escaped pattern is a literal. An
  empty pattern matches once at every offset, the end included.
\<close>

function countMatches :: "jstring \<Rightarrow> jstring \<Rightarrow> nat" where
  "countMatches pat s =
     (if pat = [] then length s + 1
      else if s = [] then 0
      else if startsWith s pat then 1 + countMatches pat (drop (length pat) s)
      else countMatches pat (tl s))"
  by pat_completeness auto
termination
  by (relation "measure (\<lambda>(pat, s). length s)") (auto simp: neq_Nil_conv)

declare countMatches.simps [simp del]

definition scorePhrases :: "host \<Rightarrow> scorerConfig \<Rightarrow> doc \<Rightarrow> jstring list \<Rightarrow> real" where
  "scorePhrases u config d ps =
     (let titleText = normalizeText u (title d) (diacritics config);
          bodyText = normalizeText u (body d) (diacritics config)
      in foldl (\<lambda>bonusScore phrase.
            let normalizedPhrase = normalizeText u phrase (diacritics config);
                titleMatches = countMatches normalizedPhrase titleText;
                bodyMatches = countMatches normalizedPhrase bodyText
            in double (bonusScore + double (real (titleMatches + bodyMatches) * (1/4)))) 0 ps)"

text \<open>
  \<open>now\<close> is the value that \<open>Date.now()\<close> returns in this call, in milliseconds. The
  expression \<open>-ageDays * Math.LN2 / halfLifeDays\<close> multiplies first and divides then.
  The source's behaviour for a half-life of zero (an infinite or undefined exponent) is
  outside the model, and the theorems on recency assume a positive half-life.
\<close>

definition computeRecencyBonus :: "host \<Rightarrow> int \<Rightarrow> int \<Rightarrow> real \<Rightarrow> real" where
  "computeRecencyBonus u now m halfLifeDays =
     (let ageDays = double (double (real_of_int (now - m)) / (1000 * 60 * 60 * 24));
          bonus = double ((1/2) * mathExp u (double (double (- ageDays * LN2) / halfLifeDays)))
      in min (max bonus 0) (1/2))"

definition searchableText :: "doc \<Rightarrow> jstring" where
  "searchableText d =
     joinWith (js '' '')
       [title d, joinWith (js '' '') (path d), joinWith (js '' '') (tags d),
        joinWith (js '' '') (headings d), joinWith (js '' '') (symbols d), body d]"

definition isExcluded :: "host \<Rightarrow> scorerConfig \<Rightarrow> doc \<Rightarrow> jstring list \<Rightarrow> bool" where
  "isExcluded u config d exs =
     (if exs = [] then False
      else let normalizedText = normalizeText u (searchableText d) (diacritics config) in
           list_ex (\<lambda>exclude. includesStr normalizedText (normalizeText u exclude (diacritics config))) exs)"

subsection \<open>scoreDoc\<close>

record scoredDoc =
  sd_score :: real
  sd_matchSpans :: "matchSpan list"

definition fieldValues :: "doc \<Rightarrow> (field \<times> fieldValue) list" where
  "fieldValues d =
     [(Title, Str (title d)), (Headings, Arr (headings d)), (Path, Arr (path d)),
      (Tags, Arr (tags d)), (Symbols, Arr (symbols d)), (Body, Str (body d))]"

definition scoreDoc :: "host \<Rightarrow> scorerConfig \<Rightarrow> int \<Rightarrow> doc \<Rightarrow> parsedQuery \<Rightarrow> scoredDoc option" where
  "scoreDoc u config now d query =
     (if isExcluded u config d (excludes query) then None
      else
        let fieldResults = map (\<lambda>(f, v). (f, scoreField u config v (terms query))) (fieldValues d);
            fieldTotal = foldl (\<lambda>totalScore (f, r).
                                  double (totalScore + double (weightOf (weights config) f * fst r)))
                               0 fieldResults;
            allMatchSpans = concat (map (\<lambda>(f, r).
                 map (\<lambda>(b, e). \<lparr> span_field = f, span_start = b, span_end = e \<rparr>) (snd r)) fieldResults);
            phraseBonus = scorePhrases u config d (phrases query);
            recencyBonus = computeRecencyBonus u now (mtime d) (recencyHalfLife config)
        in Some \<lparr> sd_score = double (double (fieldTotal + phraseBonus)
                                     + double (w_recency (weights config) * recencyBonus)),
                  sd_matchSpans = allMatchSpans \<rparr>)"

section \<open>The bounded min-heap (min-heap.ts)\<close>

text \<open>
  The heap is an array of items with a size limit and a comparison function
  (\<open>compare a b < 0\<close> when \<open>a\<close> comes before \<open>b\<close>). Every index the methods read is
  inside the array: the loops test the bounds first.
\<close>

record 'a minHeap =
  items :: "'a list"
  maxSize :: nat
  compare :: "'a \<Rightarrow> 'a \<Rightarrow> real"

definition swap :: "nat \<Rightarrow> nat \<Rightarrow> 'a list \<Rightarrow> 'a list" where
  "swap i j xs = xs[i := xs ! j, j := xs ! i]"

function heapifyUp :: "('a \<Rightarrow> 'a \<Rightarrow> real) \<Rightarrow> 'a list \<Rightarrow> nat \<Rightarrow> 'a list" where
  "heapifyUp cmp xs index =
     (if index > 0
      then let parentIndex = (index - 1) div 2 in
           if cmp (xs ! index) (xs ! parentIndex) \<ge> 0 then xs
           else heapifyUp cmp (swap index parentIndex xs) parentIndex
      else xs)"
  by pat_completeness auto
termination
  by (relation "measure (\<lambda>(cmp, xs, index). index)") auto

declare heapifyUp.simps [simp del]

text \<open>The index that \<open>heapifyDown\<close> selects among \<open>index\<close> and its two children.\<close>

definition minIndexOf :: "('a \<Rightarrow> 'a \<Rightarrow> real) \<Rightarrow> 'a list \<Rightarrow> nat \<Rightarrow> nat" where
  "minIndexOf cmp xs index =
     (let leftChild = 2 * index + 1;
          rightChild = 2 * index + 2;
          m1 = (if leftChild < length xs \<and> cmp (xs ! leftChild) (xs ! index) < 0
                then leftChild else index)
      in if rightChild < length xs \<and> cmp (xs ! rightChild) (xs ! m1) < 0
         then rightChild else m1)"

function heapifyDown :: "('a \<Rightarrow> 'a \<Rightarrow> real) \<Rightarrow> 'a list \<Rightarrow> nat \<Rightarrow> 'a list" where
  "heapifyDown cmp xs index =
     (let minIndex = minIndexOf cmp xs index in
      if minIndex = index then xs
      else heapifyDown cmp (swap index minIndex xs) minIndex)"
  by pat_completeness auto
termination
proof (relation "measure (\<lambda>(cmp, xs, index). length xs - index)")
  show "wf (measure (\<lambda>(cmp :: 'a \<Rightarrow> 'a \<Rightarrow> real, xs, index). length xs - index))"
    by simp
next
  fix cmp :: "'a \<Rightarrow> 'a \<Rightarrow> real" and xs :: "'a list" and index m :: nat
  assume m: "m = minIndexOf cmp xs index" and ne: "m \<noteq> index"
  have "index < m \<and> m < length xs"
    using m ne by (auto simp: minIndexOf_def Let_def split: if_splits)
  then show "((cmp, swap index m xs, m), (cmp, xs, index))
               \<in> measure (\<lambda>(cmp, xs, index). length xs - index)"
    by (auto simp: swap_def)
qed

declare heapifyDown.simps [simp del]

definition createHeap :: "nat \<Rightarrow> ('a \<Rightarrow> 'a \<Rightarrow> real) \<Rightarrow> 'a minHeap" where
  "createHeap n cmp = \<lparr> items = [], maxSize = n, compare = cmp \<rparr>"

text \<open>\<open>push\<close> returns whether the item was accepted, and the heap after the call.\<close>

definition push :: "'a minHeap \<Rightarrow> 'a \<Rightarrow> bool \<times> 'a minHeap" where
  "push h item =
     (if maxSize h > 0 \<and> length (items h) \<ge> maxSize h
      then (if compare h item (items h ! 0) \<le> 0 then (False, h)
            else (True, h\<lparr> items := heapifyDown (compare h) ((items h)[0 := item]) 0 \<rparr>))
      else (True, h\<lparr> items := heapifyUp (compare h) (items h @ [item]) (length (items h)) \<rparr>))"

definition pop :: "'a minHeap \<Rightarrow> 'a option \<times> 'a minHeap" where
  "pop h =
     (if length (items h) = 0 then (None, h)
      else if length (items h) = 1 then (Some (items h ! 0), h\<lparr> items := [] \<rparr>)
      else let m = items h ! 0;
               lastItem = last (items h);
               rest = butlast (items h)
           in (Some m, h\<lparr> items := heapifyDown (compare h) (rest[0 := lastItem]) 0 \<rparr>))"

text \<open>\<open>extractAll\<close> pops until the heap is empty; each pop removes one item.\<close>

function extractAll :: "'a minHeap \<Rightarrow> 'a list" where
  "extractAll h =
     (if items h = [] then []
      else case pop h of
             (Some x, h') \<Rightarrow> x # extractAll h'
           | (None, h') \<Rightarrow> [])"
  by pat_completeness auto
termination
proof (relation "measure (\<lambda>h. length (items h))")
  show "wf (measure (\<lambda>h :: 'a minHeap. length (items h)))"
    by simp
next
  fix h h' :: "'a minHeap" and x :: 'a and o' :: "'a option"
  assume ne: "items h \<noteq> []" and eq: "(o', h') = pop h" and s: "o' = Some x"
  have len: "length (heapifyDown cmp xs i) = length xs" for cmp :: "'a \<Rightarrow> 'a \<Rightarrow> real" and xs i
  proof (induction cmp xs i rule: heapifyDown.induct)
    case (1 cmp xs index)
    have unfold: "heapifyDown cmp xs index =
        (if minIndexOf cmp xs index = index then xs
         else heapifyDown cmp (swap index (minIndexOf cmp xs index) xs) (minIndexOf cmp xs index))"
      by (subst heapifyDown.simps) (simp add: Let_def)
    show ?case
    proof (cases "minIndexOf cmp xs index = index")
      case True
      then show ?thesis by (simp add: unfold)
    next
      case False
      then have "length (heapifyDown cmp (swap index (minIndexOf cmp xs index) xs)
                           (minIndexOf cmp xs index))
                 = length (swap index (minIndexOf cmp xs index) xs)"
        using "1.IH" by simp
      with False show ?thesis
        by (simp add: unfold swap_def)
    qed
  qed
  have "length (items h') < length (items h)"
    using ne eq s by (auto simp: pop_def Let_def len split: if_splits)
  then show "(h', h) \<in> measure (\<lambda>h. length (items h))"
    by simp
qed

declare extractAll.simps [simp del]

definition toArray :: "'a minHeap \<Rightarrow> 'a list" where
  "toArray h = items h"

definition createSearchResultHeap :: "nat \<Rightarrow> searchResult minHeap" where
  "createSearchResultHeap n = createHeap n (\<lambda>a b. double (score a - score b))"

section \<open>The provider (built-in-provider.ts)\<close>

record postingEntry =
  docId :: jstring
  entryField :: field
  tf :: nat
  positions :: "nat list"

record docMetadata =
  md_doc :: doc
  fieldLengths :: "(field \<times> nat) list"

text \<open>
  The options of the provider after the constructor has filled in the defaults (the
  \<open>debug\<close> switch only controls logging and is left out). Counts are natural numbers.
\<close>

record providerOptions =
  maxDocs :: nat
  maxBodyLength :: nat
  regexCandidateK :: nat
  scorerConfigOf :: scorerConfig

definition defaultOptions :: providerOptions where
  "defaultOptions = \<lparr> maxDocs = 50000, maxBodyLength = 2 * 1024 * 1024,
                       regexCandidateK = 300, scorerConfigOf = DEFAULT_SCORER_CONFIG \<rparr>"

text \<open>
  The three maps of the provider are JavaScript \<open>Map\<close>s, which iterate in insertion order:
  association lists with one entry per key.
\<close>

record provider =
  index :: "(jstring \<times> postingEntry list) list"
  docs :: "(jstring \<times> docMetadata) list"
  df :: "(jstring \<times> nat) list"
  totalDocs :: int

datatype error = MaxDocsReached nat

definition mapGet :: "('k \<times> 'v) list \<Rightarrow> 'k \<Rightarrow> 'v option" where
  "mapGet m k = map_of m k"

definition mapHas :: "('k \<times> 'v) list \<Rightarrow> 'k \<Rightarrow> bool" where
  "mapHas m k = (map_of m k \<noteq> None)"

definition mapSet :: "('k \<times> 'v) list \<Rightarrow> 'k \<Rightarrow> 'v \<Rightarrow> ('k \<times> 'v) list" where
  "mapSet m k v =
     (if mapHas m k then map (\<lambda>(k', v'). if k' = k then (k', v) else (k', v')) m
      else m @ [(k, v)])"

definition mapDelete :: "('k \<times> 'v) list \<Rightarrow> 'k \<Rightarrow> ('k \<times> 'v) list" where
  "mapDelete m k = filter (\<lambda>(k', v'). k' \<noteq> k) m"

definition clear :: provider where
  "clear = \<lparr> index = [], docs = [], df = [], totalDocs = 0 \<rparr>"

subsection \<open>remove\<close>

definition removeStep :: "jstring \<Rightarrow> jstring \<times> postingEntry list \<Rightarrow> provider \<Rightarrow> provider" where
  "removeStep i entry st =
     (case entry of (term, postingList) \<Rightarrow>
        let filteredList = filter (\<lambda>e. docId e \<noteq> i) postingList in
        if length filteredList \<noteq> length postingList
        then (if length filteredList = 0
              then st\<lparr> index := mapDelete (index st) term, df := mapDelete (df st) term \<rparr>
              else st\<lparr> index := mapSet (index st) term filteredList,
                       df := mapSet (df st) term (length filteredList) \<rparr>)
        else st)"

definition remove :: "provider \<Rightarrow> jstring \<Rightarrow> provider" where
  "remove st i =
     (case mapGet (docs st) i of
        None \<Rightarrow> st
      | Some docMetadata \<Rightarrow>
          fold (removeStep i) (index st)
            (st\<lparr> docs := mapDelete (docs st) i, totalDocs := totalDocs st - 1 \<rparr>))"

subsection \<open>upsert\<close>

definition processedDoc :: "providerOptions \<Rightarrow> doc \<Rightarrow> doc" where
  "processedDoc opts d =
     d\<lparr> body := (if length (body d) > maxBodyLength opts
                  then take (maxBodyLength opts) (body d)
                  else body d) \<rparr>"

definition indexedFields :: "doc \<Rightarrow> (field \<times> jstring) list" where
  "indexedFields d =
     [(Title, title d),
      (Path, joinWith (js '' '') (path d)),
      (Headings, joinWith (js '' '') (headings d)),
      (Tags, joinWith (js '' '') (tags d)),
      (Symbols, joinWith (js '' '') (symbols d)),
      (Body, body d)]"

text \<open>The positions of each distinct token of a field, in order of first occurrence.\<close>

definition tokenPositions :: "host \<Rightarrow> bool \<Rightarrow> jstring list \<Rightarrow> (jstring \<times> nat list) list" where
  "tokenPositions u dia tokens =
     fold (\<lambda>(token, i) ps.
             let normalized = normalizeText u token dia in
             case mapGet ps normalized of
               None \<Rightarrow> mapSet ps normalized [i]
             | Some old \<Rightarrow> mapSet ps normalized (old @ [i]))
          (zip tokens [0 ..< length tokens]) []"

text \<open>
  One posting entry. The source reads \<open>df.get(term)!\<close>; \<open>index\<close> and \<open>df\<close> have the
  same keys in every state the operations build, so the count is there.
\<close>

definition addPosting :: "jstring \<Rightarrow> field \<Rightarrow> jstring \<times> nat list \<Rightarrow> provider \<Rightarrow> provider" where
  "addPosting i f entry st =
     (case entry of (term, termPositions) \<Rightarrow>
        let st1 = (case mapGet (index st) term of
                     None \<Rightarrow> st\<lparr> index := mapSet (index st) term [], df := mapSet (df st) term 0 \<rparr>
                   | Some postingList \<Rightarrow> st);
            postingList = (case mapGet (index st1) term of None \<Rightarrow> [] | Some pl \<Rightarrow> pl);
            count = (case mapGet (df st1) term of None \<Rightarrow> 0 | Some n \<Rightarrow> n)
        in st1\<lparr> index := mapSet (index st1) term
                            (postingList @ [\<lparr> docId = i, entryField = f,
                                               tf = length termPositions,
                                               positions = termPositions \<rparr>]),
                 df := mapSet (df st1) term (count + 1) \<rparr>)"

text \<open>
  \<open>upsert\<close> returns the error it throws, if any, and the state it leaves. The state is
  part of the result also when it throws: the removal of the old record comes first.
\<close>

definition upsert :: "host \<Rightarrow> providerOptions \<Rightarrow> provider \<Rightarrow> doc \<Rightarrow> error option \<times> provider" where
  "upsert u opts st d =
     (let st1 = (if mapHas (docs st) (doc_id d) then remove st (doc_id d) else st) in
      if totalDocs st1 \<ge> int (maxDocs opts) then (Some (MaxDocsReached (maxDocs opts)), st1)
      else
        let pd = processedDoc opts d;
            dia = diacritics (scorerConfigOf opts);
            fieldTokens = map (\<lambda>(f, content). (f, tokenizeWords u content dia)) (indexedFields pd);
            docMetadata = \<lparr> md_doc = pd,
                            fieldLengths = map (\<lambda>(f, tokens). (f, length tokens)) fieldTokens \<rparr>;
            st2 = st1\<lparr> docs := mapSet (docs st1) (doc_id d) docMetadata \<rparr>;
            st3 = fold (\<lambda>(f, tokens) s. fold (addPosting (doc_id d) f) (tokenPositions u dia tokens) s)
                       fieldTokens st2
        in (None, st3\<lparr> totalDocs := totalDocs st3 + 1 \<rparr>))"

fun upsertAll :: "host \<Rightarrow> providerOptions \<Rightarrow> provider \<Rightarrow> doc list \<Rightarrow> error option \<times> provider" where
  "upsertAll u opts st [] = (None, st)"
| "upsertAll u opts st (d # ds) =
     (case upsert u opts st d of
        (Some e, st') \<Rightarrow> (Some e, st')
      | (None, st') \<Rightarrow> upsertAll u opts st' ds)"

definition indexAll :: "host \<Rightarrow> providerOptions \<Rightarrow> provider \<Rightarrow> doc list \<Rightarrow> error option \<times> provider" where
  "indexAll u opts st ds = upsertAll u opts clear ds"

subsection \<open>Empty queries and candidates\<close>

definition isEmpty :: "parsedQuery \<Rightarrow> bool" where
  "isEmpty q = (length (terms q) = 0 \<and> length (phrases q) = 0 \<and> length (orGroups q) = 0
                \<and> regex q = None)"

text \<open>
  \<open>Array.prototype.sort\<close> with \<open>(a, b) => b.score - a.score\<close>: stable, descending. The
  comparator rounds the difference, and the rounded difference of two numbers has the
  sign of the exact one.
\<close>

definition sortByScoreDesc :: "searchResult list \<Rightarrow> searchResult list" where
  "sortByScoreDesc rs = sort_key (\<lambda>r. - score r) rs"

definition getRecentDocuments :: "provider \<Rightarrow> nat \<Rightarrow> searchResult list" where
  "getRecentDocuments st limit =
     (let results = map (\<lambda>(i, docMetadata).
                          \<lparr> res_id = i, score = real_of_int (mtime (md_doc docMetadata)),
                            matchSpans = [] \<rparr>) (docs st);
          sorted = sortByScoreDesc results;
          renumbered = map (\<lambda>(r, k). r\<lparr> score := real (length sorted - k) \<rparr>)
                           (zip sorted [0 ..< length sorted])
      in take limit renumbered)"

text \<open>A \<open>Set\<close> of strings keeps insertion order: a list without repetitions.\<close>

definition setAdd :: "jstring list \<Rightarrow> jstring \<Rightarrow> jstring list" where
  "setAdd xs x = (if x \<in> set xs then xs else xs @ [x])"

definition addDocIds :: "postingEntry list \<Rightarrow> jstring list \<Rightarrow> jstring list" where
  "addDocIds postingList s = fold (\<lambda>e acc. setAdd acc (docId e)) postingList s"

text \<open>Start from the first set, then delete whatever a later set lacks.\<close>

definition intersectAll :: "jstring list list \<Rightarrow> jstring list" where
  "intersectAll sets =
     (case sets of
        [] \<Rightarrow> []
      | first # others \<Rightarrow> fold (\<lambda>other cands. filter (\<lambda>i. i \<in> set other) cands) others first)"

text \<open>
  The first part of \<open>gatherCandidates\<close>: the candidates that the or-groups, or else the
  ordinary terms, draw from the postings.
\<close>

definition postingCandidates :: "host \<Rightarrow> providerOptions \<Rightarrow> provider \<Rightarrow> parsedQuery \<Rightarrow> jstring list" where
  "postingCandidates u opts st q =
     (let dia = diacritics (scorerConfigOf opts) in
      if length (orGroups q) > 0
      then
        let groupCandidates =
              concat (map (\<lambda>orGroup.
                 let groupSet = fold (\<lambda>term acc.
                                   case mapGet (index st) (normalizeText u term dia) of
                                     None \<Rightarrow> acc
                                   | Some postingList \<Rightarrow> addDocIds postingList acc) orGroup []
                 in if length groupSet > 0 then [groupSet] else []) (orGroups q))
        in intersectAll groupCandidates
      else
        let termCandidates =
              concat (map (\<lambda>term.
                 case mapGet (index st) (normalizeText u term dia) of
                   None \<Rightarrow> []
                 | Some postingList \<Rightarrow> [addDocIds postingList []]) (terms q))
        in intersectAll termCandidates)"

definition hasFilters :: "queryFilters \<Rightarrow> bool" where
  "hasFilters f =
     ((case tagF f of None \<Rightarrow> False | Some xs \<Rightarrow> length xs > 0)
      \<or> (case pathF f of None \<Rightarrow> False | Some xs \<Rightarrow> length xs > 0)
      \<or> (case inF f of None \<Rightarrow> False | Some xs \<Rightarrow> length xs > 0))"

definition gatherCandidates :: "host \<Rightarrow> providerOptions \<Rightarrow> provider \<Rightarrow> parsedQuery \<Rightarrow> jstring list" where
  "gatherCandidates u opts st q =
     (let c0 = postingCandidates u opts st q;
          c1 = (if length c0 = 0 \<and> length (phrases q) > 0
                then fold (\<lambda>i acc. setAdd acc i) (map fst (docs st)) c0 else c0);
          c2 = (if length c1 = 0 \<and> hasFilters (filters q)
                then fold (\<lambda>i acc. setAdd acc i) (map fst (docs st)) c1 else c1)
      in c2)"

subsection \<open>The regex post-filter\<close>

text \<open>
  The compiled regex carries the global flag, so it is stateful: \<open>test\<close> starts at
  \<open>lastIndex\<close>, and leaves \<open>lastIndex\<close> at the end of the match, or at zero when there is
  none. \<open>regexTest\<close> returns the answer and the new \<open>lastIndex\<close>.
\<close>

definition regexTest :: "matcher \<Rightarrow> nat \<Rightarrow> jstring \<Rightarrow> bool \<times> nat" where
  "regexTest m lastIndex s =
     (if lastIndex > length s then (False, 0)
      else case m s lastIndex of
             None \<Rightarrow> (False, 0)
           | Some (b, e) \<Rightarrow> (True, e))"

text \<open>
  \<open>s.matchAll(regex)\<close> works on a copy of the regex that starts at the \<open>lastIndex\<close> of
  the original and leaves the original alone. After an empty match the copy advances by
  one unit. The \<open>max\<close> changes nothing for a matcher that answers at or after the index
  it is given.
\<close>

function matchAllFrom :: "matcher \<Rightarrow> jstring \<Rightarrow> nat \<Rightarrow> (nat \<times> nat) list" where
  "matchAllFrom m s i =
     (if i > length s then []
      else case m s i of
             None \<Rightarrow> []
           | Some (b, e) \<Rightarrow> (b, e) # matchAllFrom m s (max (Suc i) (if e = b then e + 1 else e)))"
  by pat_completeness auto
termination
  by (relation "measure (\<lambda>(m, s, i). Suc (length s) - i)") auto

declare matchAllFrom.simps [simp del]

definition findRegexMatches :: "matcher \<Rightarrow> nat \<Rightarrow> doc \<Rightarrow> matchSpan list" where
  "findRegexMatches m lastIndex d =
     map (\<lambda>(b, e). \<lparr> span_field = Title, span_start = b, span_end = e \<rparr>)
         (filter (\<lambda>(b, e). b < e) (matchAllFrom m (title d) lastIndex))
     @ map (\<lambda>(b, e). \<lparr> span_field = Body, span_start = b, span_end = e \<rparr>)
           (filter (\<lambda>(b, e). b < e) (matchAllFrom m (body d) lastIndex))"

text \<open>The loop of \<open>applyRegexFilter\<close> over the top candidates; it threads \<open>lastIndex\<close>.\<close>

fun regexLoop :: "matcher \<Rightarrow> provider \<Rightarrow> searchResult list \<Rightarrow> nat \<Rightarrow> searchResult list" where
  "regexLoop m st [] lastIndex = []"
| "regexLoop m st (r # rs) lastIndex =
     (case mapGet (docs st) (res_id r) of
        None \<Rightarrow> regexLoop m st rs lastIndex
      | Some docMetadata \<Rightarrow>
          let d = md_doc docMetadata;
              onTitle = regexTest m lastIndex (title d);
              tested = (if fst onTitle then onTitle else regexTest m (snd onTitle) (body d))
          in if fst tested
             then r\<lparr> matchSpans := matchSpans r @ findRegexMatches m (snd tested) d \<rparr>
                    # regexLoop m st rs (snd tested)
             else regexLoop m st rs (snd tested))"

definition globalFlags :: "jstring \<Rightarrow> jstring" where
  "globalFlags fl = (if includesStr fl (js ''g'') then fl else fl @ js ''g'')"

text \<open>The results whose spans the filter extends: \<open>filtered\<close> before the final slice.\<close>

definition regexFiltered :: "host \<Rightarrow> providerOptions \<Rightarrow> provider \<Rightarrow> searchResult list
                               \<Rightarrow> jstring \<times> jstring \<Rightarrow> searchResult list option" where
  "regexFiltered u opts st results regexSpec =
     (case compileRegExp u (fst regexSpec) (globalFlags (snd regexSpec)) of
        None \<Rightarrow> None
      | Some m \<Rightarrow> Some (regexLoop m st (take (regexCandidateK opts) results) 0))"

definition applyRegexFilter :: "host \<Rightarrow> providerOptions \<Rightarrow> provider \<Rightarrow> searchResult list
                                  \<Rightarrow> jstring \<times> jstring \<Rightarrow> nat \<Rightarrow> searchResult list" where
  "applyRegexFilter u opts st results regexSpec limit =
     (case regexFiltered u opts st results regexSpec of
        None \<Rightarrow> take limit results
      | Some filtered \<Rightarrow> take limit filtered)"

subsection \<open>queryStream and query\<close>

text \<open>
  The state of the scoring loop of \<open>queryStream\<close>: the heap, the ids yielded so far, the
  number of candidates processed, and the results yielded so far, oldest first.
\<close>

record loopState =
  topResults :: "searchResult minHeap"
  yieldedIds :: "jstring list"
  processedCount :: nat
  yielded :: "searchResult list"

text \<open>The progressive emission: the best few of the heap, those not yet yielded.\<close>

definition emitTop :: "nat \<Rightarrow> loopState \<Rightarrow> loopState" where
  "emitTop limit ls =
     (let currentTop = take (min 5 (limit div 2)) (sortByScoreDesc (toArray (topResults ls))) in
      fold (\<lambda>result acc.
              if res_id result \<notin> set (yieldedIds acc)
              then acc\<lparr> yieldedIds := setAdd (yieldedIds acc) (res_id result),
                        yielded := yielded acc @ [result] \<rparr>
              else acc) currentTop ls)"

text \<open>
  The loop over the candidates. The scorer reads the clock once for every candidate;
  \<open>now\<close> is that reading, taken to be the same throughout one query.
\<close>

fun scoreCandidates :: "host \<Rightarrow> providerOptions \<Rightarrow> int \<Rightarrow> provider \<Rightarrow> parsedQuery \<Rightarrow> nat
                          \<Rightarrow> jstring list \<Rightarrow> loopState \<Rightarrow> loopState" where
  "scoreCandidates u opts now st q limit [] ls = ls"
| "scoreCandidates u opts now st q limit (i # rest) ls =
     (case mapGet (docs st) i of
        None \<Rightarrow> scoreCandidates u opts now st q limit rest ls
      | Some docMetadata \<Rightarrow>
          let heap1 = (case scoreDoc u (scorerConfigOf opts) now (md_doc docMetadata) q of
                         None \<Rightarrow> topResults ls
                       | Some scored \<Rightarrow>
                           if sd_score scored > 0
                           then snd (push (topResults ls)
                                       \<lparr> res_id = i, score = sd_score scored,
                                         matchSpans = sd_matchSpans scored \<rparr>)
                           else topResults ls);
              ls1 = ls\<lparr> topResults := heap1, processedCount := processedCount ls + 1 \<rparr>;
              ls2 = (if processedCount ls1 mod 100 = 0 \<and> length (items heap1) > 0
                     then emitTop limit ls1 else ls1)
          in scoreCandidates u opts now st q limit rest ls2)"

text \<open>
  One run of the generator, for a query that is not empty. \<open>partialYields\<close> are the
  results of the progressive emissions, \<open>finalYields\<close> those yielded after the loop.
  The regex filter extends the span list of the result objects it keeps, and a result
  yielded earlier is the same object as the one in the heap: \<open>regexTouched\<close> lists the
  objects the filter has extended, as they are after it.
\<close>

record streamRun =
  partialYields :: "searchResult list"
  regexTouched :: "searchResult list"
  finalYields :: "searchResult list"

definition runStream :: "host \<Rightarrow> providerOptions \<Rightarrow> int \<Rightarrow> provider \<Rightarrow> parsedQuery \<Rightarrow> nat \<Rightarrow> streamRun" where
  "runStream u opts now st q limit =
     (let candidates = gatherCandidates u opts st q;
          ls = scoreCandidates u opts now st q limit candidates
                 \<lparr> topResults = createSearchResultHeap limit, yieldedIds = [],
                   processedCount = 0, yielded = [] \<rparr>;
          finalResults = rev (extractAll (topResults ls));
          filteredResults = (case regex q of
                               None \<Rightarrow> finalResults
                             | Some rx \<Rightarrow> applyRegexFilter u opts st finalResults rx limit);
          touched = (case regex q of
                       None \<Rightarrow> []
                     | Some rx \<Rightarrow> (case regexFiltered u opts st finalResults rx of
                                    None \<Rightarrow> [] | Some filtered \<Rightarrow> filtered))
      in \<lparr> partialYields = yielded ls,
           regexTouched = touched,
           finalYields = filter (\<lambda>r. res_id r \<notin> set (yieldedIds ls)) filteredResults \<rparr>)"

text \<open>The sequence of results that \<open>queryStream\<close> yields, each as it is when yielded.\<close>

definition queryStream :: "host \<Rightarrow> providerOptions \<Rightarrow> int \<Rightarrow> provider \<Rightarrow> parsedQuery \<Rightarrow> nat
                             \<Rightarrow> searchResult list" where
  "queryStream u opts now st q limit =
     (if isEmpty q then getRecentDocuments st limit
      else let run = runStream u opts now st q limit in
           partialYields run @ finalYields run)"

text \<open>
  The loop of \<open>query\<close> over the stream: push the result, then leave when the array has
  reached the limit.
\<close>

fun collectResults :: "nat \<Rightarrow> searchResult list \<Rightarrow> searchResult list \<Rightarrow> searchResult list" where
  "collectResults limit results [] = results"
| "collectResults limit results (r # rest) =
     (let results' = results @ [r] in
      if length results' \<ge> limit then results' else collectResults limit results' rest)"

definition refreshed :: "searchResult list \<Rightarrow> searchResult \<Rightarrow> searchResult" where
  "refreshed touched r =
     (case find (\<lambda>t. res_id t = res_id r) touched of None \<Rightarrow> r | Some t \<Rightarrow> t)"

text \<open>
  \<open>query\<close>. When the loop leaves during the progressive emissions the generator never
  reaches the regex filter; otherwise the array holds the earlier results as the filter
  has left them.
\<close>

definition query :: "host \<Rightarrow> providerOptions \<Rightarrow> int \<Rightarrow> provider \<Rightarrow> parsedQuery \<Rightarrow> nat
                       \<Rightarrow> searchResult list" where
  "query u opts now st q limit =
     (if isEmpty q then getRecentDocuments st limit
      else
        let run = runStream u opts now st q limit;
            early = collectResults limit [] (partialYields run)
        in if partialYields run \<noteq> [] \<and> length early \<ge> limit then early
           else collectResults limit []
                  (map (refreshed (regexTouched run)) (partialYields run) @ finalYields run))"

section \<open>The query parser (query-parser.ts)\<close>

record parserSettings =
  enableCommandsPrefix :: bool
  commandsPrefixChar :: jstring

datatype parseErrorType = RegexError | SyntaxError

text \<open>
  A parse error. Its message quotes the text of the host's exception and is left out;
  \<open>position\<close> is the result of \<open>indexOf\<close>, which is \<open>-1\<close> when there is no occurrence.
\<close>

record parseError =
  errorType :: parseErrorType
  position :: int

record parseResult =
  resultQuery :: parsedQuery
  resultErrors :: "parseError list"

text \<open>White space as \<open>trim\<close> and the class \<open>\s\<close> define it.\<close>

definition isSpace :: "nat \<Rightarrow> bool" where
  "isSpace c = ((9 \<le> c \<and> c \<le> 13) \<or> c = 0x20 \<or> c = 0xa0 \<or> c = 0x1680
                \<or> (0x2000 \<le> c \<and> c \<le> 0x200a) \<or> c = 0x2028 \<or> c = 0x2029
                \<or> c = 0x202f \<or> c = 0x205f \<or> c = 0x3000 \<or> c = 0xfeff)"

definition trim :: "jstring \<Rightarrow> jstring" where
  "trim s = rev (dropWhile isSpace (rev (dropWhile isSpace s)))"

definition isCommandsQuery :: "jstring \<Rightarrow> parserSettings \<Rightarrow> bool" where
  "isCommandsQuery input settings =
     (if \<not> enableCommandsPrefix settings then False
      else startsWith input (commandsPrefixChar settings))"

text \<open>
  Step 1. \<open>matchAll(/"([^"]+)"/g)\<close>: a quote, one or more characters that are not
  quotes, a quote; the search resumes after each match. Code unit 34 is the quote.
\<close>

function extractPhrases :: "jstring \<Rightarrow> jstring list" where
  "extractPhrases s =
     (case s of
        [] \<Rightarrow> []
      | c # cs \<Rightarrow>
          if c = 34 \<and> takeWhile (\<lambda>x. x \<noteq> 34) cs \<noteq> [] \<and> dropWhile (\<lambda>x. x \<noteq> 34) cs \<noteq> []
          then takeWhile (\<lambda>x. x \<noteq> 34) cs # extractPhrases (tl (dropWhile (\<lambda>x. x \<noteq> 34) cs))
          else extractPhrases cs)"
  by pat_completeness auto
termination
proof (relation "measure length")
  show "wf (measure (length :: jstring \<Rightarrow> nat))" by simp
next
  fix s :: jstring and c cs
  assume "s = c # cs"
  then show "(cs, s) \<in> measure length" by simp
next
  fix s :: jstring and c cs
  assume s: "s = c # cs"
    and "c = 34 \<and> takeWhile (\<lambda>x. x \<noteq> 34) cs \<noteq> [] \<and> dropWhile (\<lambda>x. x \<noteq> 34) cs \<noteq> []"
  have "length (tl (dropWhile (\<lambda>x. x \<noteq> 34) cs)) \<le> length cs"
    using length_dropWhile_le [of "\<lambda>x. x \<noteq> 34" cs] by simp
  with s show "(tl (dropWhile (\<lambda>x. x \<noteq> 34) cs), s) \<in> measure length" by simp
qed

declare extractPhrases.simps [simp del]

text \<open>\<open>replace(/"[^"]*"/g, '')\<close>: here the quotes may enclose nothing.\<close>

function removeQuoted :: "jstring \<Rightarrow> jstring" where
  "removeQuoted s =
     (case s of
        [] \<Rightarrow> []
      | c # cs \<Rightarrow>
          if c = 34 \<and> dropWhile (\<lambda>x. x \<noteq> 34) cs \<noteq> []
          then removeQuoted (tl (dropWhile (\<lambda>x. x \<noteq> 34) cs))
          else c # removeQuoted cs)"
  by pat_completeness auto
termination
proof (relation "measure length")
  show "wf (measure (length :: jstring \<Rightarrow> nat))" by simp
next
  fix s :: jstring and c cs
  assume s: "s = c # cs" and "c = 34 \<and> dropWhile (\<lambda>x. x \<noteq> 34) cs \<noteq> []"
  have "length (tl (dropWhile (\<lambda>x. x \<noteq> 34) cs)) \<le> length cs"
    using length_dropWhile_le [of "\<lambda>x. x \<noteq> 34" cs] by simp
  with s show "(tl (dropWhile (\<lambda>x. x \<noteq> 34) cs), s) \<in> measure length" by simp
next
  fix s :: jstring and c cs
  assume "s = c # cs"
  then show "(cs, s) \<in> measure length" by simp
qed

declare removeQuoted.simps [simp del]

text \<open>
  Step 2. The pattern \<open>/\/((?:\\\/|[^\/])+?)\/(i?)/\<close>. After the opening slash (code
  unit 47) the group repeats lazily, at least once, one of two alternatives, tried in
  this order: a backslash (92) followed by a slash, or one character that is not a slash.
  After each repetition the engine first tries to close with a slash, then to repeat;
  when both fail it falls back to the second alternative of that repetition.
  \<open>lazyBody acc s\<close> matches the group and the closing slash against \<open>s\<close>, with \<open>acc\<close>
  the text of the repetitions done; it returns the text of the group and what follows
  the closing slash.
\<close>

fun lazyBody :: "jstring \<Rightarrow> jstring \<Rightarrow> (jstring \<times> jstring) option" where
  "lazyBody acc [] = None"
| "lazyBody acc [c] = None"
| "lazyBody acc (c # d # r) =
     (let viaEscape =
            (if c = 92 \<and> d = 47
             then (case r of
                     [] \<Rightarrow> None
                   | e # r' \<Rightarrow> if e = 47 then Some (acc @ [c, d], r')
                              else lazyBody (acc @ [c, d]) r)
             else None)
      in case viaEscape of
           Some res \<Rightarrow> Some res
         | None \<Rightarrow>
             if c \<noteq> 47
             then (if d = 47 then Some (acc @ [c], r) else lazyBody (acc @ [c]) (d # r))
             else None)"

text \<open>
  The flag group \<open>(i?)\<close>, matched against what follows the closing slash: the letter
  \<open>i\<close> (code unit 105) when it comes next, the empty string otherwise.
\<close>

definition flagGroup :: "jstring \<Rightarrow> jstring" where
  "flagGroup rest = (case rest of [] \<Rightarrow> [] | f # fs \<Rightarrow> if f = 105 then [f] else [])"

text \<open>
  The texts in which every slash is escaped, for the statements on the parser: a
  sequence of pairs backslash-slash and of single characters other than a slash, read
  from the left with the pair tried first, whose last character is no backslash that the
  closing slash would complete to a pair.
\<close>

fun slashesEscaped :: "jstring \<Rightarrow> bool" where
  "slashesEscaped [] = True"
| "slashesEscaped [c] = (c \<noteq> 47 \<and> c \<noteq> 92)"
| "slashesEscaped (c # d # r) =
     (if c = 92 \<and> d = 47 then slashesEscaped r else c \<noteq> 47 \<and> slashesEscaped (d # r))"

text \<open>
  The first match of the pattern in the text: its offset, the group, the flag group and
  the length of the match.
\<close>

fun findRegexAt :: "jstring \<Rightarrow> nat \<Rightarrow> (nat \<times> jstring \<times> jstring \<times> nat) option" where
  "findRegexAt [] off = None"
| "findRegexAt (c # cs) off =
     (if c = 47
      then (case lazyBody [] cs of
              Some (pattern, rest) \<Rightarrow>
                let flags = flagGroup rest
                in Some (off, pattern, flags, 2 + length pattern + length flags)
            | None \<Rightarrow> findRegexAt cs (Suc off))
      else findRegexAt cs (Suc off))"

subsection \<open>Step 3: the tokens\<close>

record tokenState =
  ts_terms :: "jstring list"
  ts_excludes :: "jstring list"
  ts_orGroups :: "jstring list list"
  currentOrGroup :: "jstring list"
  inOrGroup :: bool
  fieldPrefix :: "field option"
  ts_filters :: queryFilters

definition asciiUpper :: "nat \<Rightarrow> nat" where
  "asciiUpper c = (if 0x61 \<le> c \<and> c \<le> 0x7a then c - 32 else c)"

text \<open>
  \<open>token.toUpperCase() === 'OR'\<close>. The only characters whose upper-case form is \<open>O\<close> or
  \<open>R\<close> are those letters and their lower-case forms, so the test is one on ASCII.
\<close>

definition isOrToken :: "jstring \<Rightarrow> bool" where
  "isOrToken token = (map asciiUpper token = js ''OR'')"

definition nextIsOr :: "jstring list \<Rightarrow> bool" where
  "nextIsOr rest = (case rest of [] \<Rightarrow> False | t # ts \<Rightarrow> isOrToken t)"

definition pushOpt :: "jstring list option \<Rightarrow> jstring \<Rightarrow> jstring list option" where
  "pushOpt xs v = Some ((case xs of None \<Rightarrow> [] | Some l \<Rightarrow> l) @ [v])"

text \<open>The closing of an or-group after an ordinary term that no \<open>OR\<close> follows.\<close>

definition endOrGroup :: "tokenState \<Rightarrow> tokenState" where
  "endOrGroup ts =
     (let ts1 = (if length (currentOrGroup ts) \<ge> 2
                 then ts\<lparr> ts_orGroups := ts_orGroups ts @ [currentOrGroup ts] \<rparr>
                 else if length (currentOrGroup ts) = 1
                 then ts\<lparr> ts_terms := ts_terms ts @ [hd (currentOrGroup ts)] \<rparr>
                 else ts)
      in ts1\<lparr> currentOrGroup := [], inOrGroup := False \<rparr>)"

text \<open>The body of the loop over the tokens; \<open>rest\<close> are the tokens that follow.\<close>

definition tokenStep :: "jstring \<Rightarrow> jstring list \<Rightarrow> tokenState \<Rightarrow> tokenState" where
  "tokenStep token rest ts =
     (if isOrToken token
      then (if \<not> inOrGroup ts \<and> length (ts_terms ts) > 0
            then ts\<lparr> currentOrGroup := [last (ts_terms ts)],
                     ts_terms := butlast (ts_terms ts),
                     inOrGroup := True \<rparr>
            else ts)
      else if startsWith token (js ''-'') \<and> length token > 1
      then ts\<lparr> ts_excludes := ts_excludes ts @ [drop 1 token] \<rparr>
      else if token = js ''#''
      then ts\<lparr> fieldPrefix := Some Headings \<rparr>
      else if token = js ''@''
      then ts\<lparr> fieldPrefix := Some Symbols \<rparr>
      else if startsWith token (js ''tag:'')
      then (if drop 4 token \<noteq> []
            then ts\<lparr> ts_filters := (ts_filters ts)\<lparr> tagF := pushOpt (tagF (ts_filters ts)) (drop 4 token) \<rparr> \<rparr>
            else ts)
      else if startsWith token (js ''#'') \<and> length token > 1
      then ts\<lparr> ts_filters := (ts_filters ts)\<lparr> tagF := pushOpt (tagF (ts_filters ts)) (drop 1 token) \<rparr> \<rparr>
      else if startsWith token (js ''path:'')
      then (if drop 5 token \<noteq> []
            then ts\<lparr> ts_filters := (ts_filters ts)\<lparr> pathF := pushOpt (pathF (ts_filters ts)) (drop 5 token) \<rparr> \<rparr>
            else ts)
      else if startsWith token (js ''in:'')
      then (if drop 3 token \<noteq> []
            then ts\<lparr> ts_filters := (ts_filters ts)\<lparr> inF := pushOpt (inF (ts_filters ts)) (drop 3 token) \<rparr> \<rparr>
            else ts)
      else
        let ts1 = (if inOrGroup ts
                   then ts\<lparr> currentOrGroup := currentOrGroup ts @ [token] \<rparr>
                   else if nextIsOr rest
                   then ts\<lparr> currentOrGroup := [token], inOrGroup := True \<rparr>
                   else ts\<lparr> ts_terms := ts_terms ts @ [token] \<rparr>)
        in if inOrGroup ts1 \<and> \<not> nextIsOr rest then endOrGroup ts1 else ts1)"

fun parseTokens :: "jstring list \<Rightarrow> tokenState \<Rightarrow> tokenState" where
  "parseTokens [] ts = ts"
| "parseTokens (token # rest) ts = parseTokens rest (tokenStep token rest ts)"

definition finishTokens :: "tokenState \<Rightarrow> tokenState" where
  "finishTokens ts =
     (let ts1 = (if inOrGroup ts \<and> length (currentOrGroup ts) \<ge> 2
                 then ts\<lparr> ts_orGroups := ts_orGroups ts @ [currentOrGroup ts] \<rparr>
                 else if inOrGroup ts \<and> length (currentOrGroup ts) = 1
                 then ts\<lparr> ts_terms := ts_terms ts @ [hd (currentOrGroup ts)] \<rparr>
                 else ts)
      in case fieldPrefix ts1 of
           None \<Rightarrow> ts1
         | Some f \<Rightarrow> ts1\<lparr> ts_filters := (ts_filters ts1)\<lparr> fieldF := Some f \<rparr> \<rparr>)"

subsection \<open>parseQueryWithErrors\<close>

text \<open>The regex step: the regex kept, the errors, and the text that remains.\<close>

definition extractRegex :: "host \<Rightarrow> jstring
     \<Rightarrow> (jstring \<times> jstring) option \<times> parseError list \<times> jstring" where
  "extractRegex u remaining =
     (case findRegexAt remaining 0 of
        None \<Rightarrow> (None, [], remaining)
      | Some (start, pattern, flags, len) \<Rightarrow>
          let fullMatch = take len (drop start remaining);
              rest = trim (take start remaining @ drop (start + len) remaining)
          in (case compileRegExp u pattern flags of
                Some m \<Rightarrow> (Some (pattern, flags), [], rest)
              | None \<Rightarrow>
                  (None,
                   [\<lparr> errorType = RegexError,
                      position = (case indexOf remaining fullMatch of
                                    None \<Rightarrow> - 1 | Some k \<Rightarrow> int k) \<rparr>],
                   rest)))"

definition parseQueryWithErrors :: "host \<Rightarrow> jstring \<Rightarrow> parserSettings \<Rightarrow> parseResult" where
  "parseQueryWithErrors u input settings =
     (let trimmed = trim input in
      if isCommandsQuery trimmed settings
      then
        let commandQuery = trim (drop (length (commandsPrefixChar settings)) trimmed) in
        \<lparr> resultQuery = \<lparr> raw = input, mode = Commands,
                           terms = (if commandQuery \<noteq> [] then [commandQuery] else []),
                           phrases = [], excludes = [], orGroups = [],
                           filters = noFilters, regex = None \<rparr>,
          resultErrors = [] \<rparr>
      else
        let phrases = extractPhrases trimmed;
            remaining = trim (removeQuoted trimmed);
            rx = extractRegex u remaining;
            tokens = runsOf (\<lambda>c. \<not> isSpace c) [] (snd (snd rx));
            ts = finishTokens (parseTokens tokens
                   \<lparr> ts_terms = [], ts_excludes = [], ts_orGroups = [], currentOrGroup = [],
                     inOrGroup = False, fieldPrefix = None, ts_filters = noFilters \<rparr>)
        in \<lparr> resultQuery = \<lparr> raw = input, mode = Files, terms = ts_terms ts,
                              phrases = phrases, excludes = ts_excludes ts,
                              orGroups = ts_orGroups ts, filters = ts_filters ts,
                              regex = fst rx \<rparr>,
             resultErrors = fst (snd rx) \<rparr>)"

definition parseQuery :: "host \<Rightarrow> jstring \<Rightarrow> parserSettings \<Rightarrow> parsedQuery" where
  "parseQuery u input settings = resultQuery (parseQueryWithErrors u input settings)"

section \<open>Reachable states\<close>

text \<open>
  The states of a provider built with the options \<open>opts\<close>: a new provider is empty, and
  every operation leads from a state to a state. A call of \<open>upsert\<close> or \<open>indexAll\<close>
  that throws leaves the state it had reached.
\<close>

inductive reachable :: "host \<Rightarrow> providerOptions \<Rightarrow> provider \<Rightarrow> bool" for u opts where
  reach_new: "reachable u opts clear"
| reach_upsert: "reachable u opts st \<Longrightarrow> reachable u opts (snd (upsert u opts st d))"
| reach_remove: "reachable u opts st \<Longrightarrow> reachable u opts (remove st i)"
| reach_indexAll: "reachable u opts st \<Longrightarrow> reachable u opts (snd (indexAll u opts st ds))"

definition countInv :: "providerOptions \<Rightarrow> provider \<Rightarrow> bool" where
  "countInv opts st = (totalDocs st = int (length (docs st)) \<and> distinct (map fst (docs st))
                        \<and> length (docs st) \<le> maxDocs opts)"

section \<open>Sample data\<close>

definition emptyQuery :: parsedQuery where
  "emptyQuery = \<lparr> raw = [], mode = Files, terms = [], phrases = [], excludes = [], orGroups = [],
                   filters = noFilters, regex = None \<rparr>"

definition planQuery :: parsedQuery where
  "planQuery = emptyQuery\<lparr> terms := [js ''plan''] \<rparr>"

definition notePlan :: doc where
  "notePlan = \<lparr> doc_id = js ''plan.md'', title = js ''Plan'', path = [], tags = [js ''personal''],
                 headings = [], symbols = [], body = [],
                 mtime = 1700000000000, doc_size = 0 \<rparr>"

definition noteOther :: doc where
  "noteOther = \<lparr> doc_id = js ''other.md'', title = js ''Other'', path = [], tags = [],
                  headings = [], symbols = [], body = [],
                  mtime = 1700000000000, doc_size = 0 \<rparr>"

text \<open>A document whose body is twice the letter e with acute accent (U+00E9).\<close>

definition noteCafe :: doc where
  "noteCafe = \<lparr> doc_id = js ''e.md'', title = js ''E'', path = [], tags = [],
                 headings = [], symbols = [], body = [0xe9, 0xe9],
                 mtime = 1700000000000, doc_size = 4 \<rparr>"

definition entryOf :: "jstring \<Rightarrow> field \<Rightarrow> postingEntry" where
  "entryOf i f = \<lparr> docId = i, entryField = f, tf = 1, positions = [0] \<rparr>"

text \<open>The state of a provider after \<open>upsert\<close> of \<open>notePlan\<close> into an empty index.\<close>

definition statePlan :: provider where
  "statePlan =
     \<lparr> index = [(js ''plan'', [entryOf (js ''plan.md'') Title]),
                (js ''personal'', [entryOf (js ''plan.md'') Tags])],
       docs = [(js ''plan.md'',
                \<lparr> md_doc = notePlan,
                  fieldLengths = [(Title, 1), (Path, 0), (Headings, 0), (Tags, 1),
                                  (Symbols, 0), (Body, 0)] \<rparr>)],
       df = [(js ''plan'', 1), (js ''personal'', 1)],
       totalDocs = 1 \<rparr>"

definition capOne :: providerOptions where
  "capOne = defaultOptions\<lparr> maxDocs := 1 \<rparr>"

definition capBody :: providerOptions where
  "capBody = defaultOptions\<lparr> maxBodyLength := 1 \<rparr>"

text \<open>
  The length of a string in bytes, as the specification measures the body: the number of
  bytes of its UTF-8 encoding (one byte below U+0080, two below U+0800, three otherwise,
  and four for the two units of a surrogate pair together).
\<close>

definition utf8Length :: "jstring \<Rightarrow> nat" where
  "utf8Length s = sum_list (map (\<lambda>c. if c < 0x80 then 1 else if c < 0x800 then 2
                                      else if 0xd800 \<le> c \<and> c \<le> 0xdfff then 2 else 3) s)"

subsection \<open>Parser settings\<close>

text \<open>The settings that the tests of the parser use: the prefix \<open>>\<close> opens a commands query.\<close>

definition defaultSettings :: parserSettings where
  "defaultSettings = \<lparr> enableCommandsPrefix = True, commandsPrefixChar = js ''>'' \<rparr>"

subsection \<open>Two notes and a regex\<close>

text \<open>The time of the query, the modification time of every sample note.\<close>

definition now0 :: int where "now0 = 1700000000000"

text \<open>
  Two notes that both hold the word \<open>report\<close> and whose titles both hold \<open>fix\<close>: the
  first in its title \<open>report fix\<close>, the second in a heading, under the title \<open>fix it\<close>.
  The query asks for the term \<open>report\<close> and the regex \<open>/fix/\<close>.
\<close>

definition noteReport :: doc where
  "noteReport = \<lparr> doc_id = js ''report.md'', title = js ''report fix'', path = [], tags = [],
                 headings = [], symbols = [], body = [],
                 mtime = 1700000000000, doc_size = 0 \<rparr>"

definition noteFix :: doc where
  "noteFix = \<lparr> doc_id = js ''fix.md'', title = js ''fix it'', path = [], tags = [],
                 headings = [js ''report''], symbols = [], body = [],
                 mtime = 1700000000000, doc_size = 0 \<rparr>"

definition fixQuery :: parsedQuery where
  "fixQuery = emptyQuery\<lparr> terms := [js ''report''], regex := Some (js ''fix'', []) \<rparr>"

text \<open>The state after \<open>indexAll\<close> of both notes, and after \<open>indexAll\<close> of the second alone.\<close>

definition stateFix :: provider where
  "stateFix =
     \<lparr> index = [(js ''report'', [entryOf (js ''report.md'') Title, entryOf (js ''fix.md'') Headings]),
                (js ''fix'', [\<lparr> docId = js ''report.md'', entryField = Title, tf = 1, positions = [1] \<rparr>,
                              entryOf (js ''fix.md'') Title]),
                (js ''it'', [\<lparr> docId = js ''fix.md'', entryField = Title, tf = 1, positions = [1] \<rparr>])],
       docs = [(js ''report.md'',
                \<lparr> md_doc = noteReport,
                  fieldLengths = [(Title, 2), (Path, 0), (Headings, 0), (Tags, 0), (Symbols, 0), (Body, 0)] \<rparr>),
               (js ''fix.md'',
                \<lparr> md_doc = noteFix,
                  fieldLengths = [(Title, 2), (Path, 0), (Headings, 1), (Tags, 0), (Symbols, 0), (Body, 0)] \<rparr>)],
       df = [(js ''report'', 2), (js ''fix'', 2), (js ''it'', 1)],
       totalDocs = 2 \<rparr>"

definition stateFixOnly :: provider where
  "stateFixOnly =
     \<lparr> index = [(js ''fix'', [entryOf (js ''fix.md'') Title]),
                (js ''it'', [\<lparr> docId = js ''fix.md'', entryField = Title, tf = 1, positions = [1] \<rparr>]),
                (js ''report'', [entryOf (js ''fix.md'') Headings])],
       docs = [(js ''fix.md'',
                \<lparr> md_doc = noteFix,
                  fieldLengths = [(Title, 2), (Path, 0), (Headings, 1), (Tags, 0), (Symbols, 0), (Body, 0)] \<rparr>)],
       df = [(js ''fix'', 1), (js ''it'', 1), (js ''report'', 1)],
       totalDocs = 1 \<rparr>"

text \<open>The results that the scoring loop builds for the two notes.\<close>

definition resReport :: searchResult where
  "resReport = \<lparr> res_id = js ''report.md'', score = 17/4,
                  matchSpans = [\<lparr>span_field = Title, span_start = 0, span_end = 6\<rparr>] \<rparr>"

definition resFix :: searchResult where
  "resFix = \<lparr> res_id = js ''fix.md'', score = 9/4,
                  matchSpans = [\<lparr>span_field = Headings, span_start = 0, span_end = 6\<rparr>] \<rparr>"

subsection \<open>A hundred and one notes\<close>

text \<open>
  The notes \<open>n000\<close> to \<open>n100\<close>. The first hundred carry the tag \<open>a\<close> and no title; the
  last one has the title \<open>a\<close> and no tag, so it scores higher for the term \<open>a\<close>.
\<close>

definition noteId :: "nat \<Rightarrow> jstring" where
  "noteId i = js ''n'' @ [48 + i div 100, 48 + i div 10 mod 10, 48 + i mod 10]"

definition noteN :: "nat \<Rightarrow> doc" where
  "noteN i = \<lparr> doc_id = noteId i,
                title = (if i < 100 then [] else js ''a''),
                path = [],
                tags = (if i < 100 then [js ''a''] else []),
                headings = [], symbols = [], body = [],
                mtime = 1700000000000, doc_size = 1 \<rparr>"

definition manyNotes :: "doc list" where
  "manyNotes = map noteN [0 ..< 101]"

definition aQuery :: parsedQuery where
  "aQuery = emptyQuery\<lparr> terms := [js ''a''] \<rparr>"

text \<open>The state after \<open>upsert\<close> of the first \<open>n\<close> of these notes into an empty index.\<close>

definition metaN :: "nat \<Rightarrow> docMetadata" where
  "metaN i = \<lparr> md_doc = noteN i,
                fieldLengths = [(Title, if i < 100 then 0 else 1), (Path, 0), (Headings, 0),
                                (Tags, if i < 100 then 1 else 0), (Symbols, 0), (Body, 0)] \<rparr>"

definition stateMany :: "nat \<Rightarrow> provider" where
  "stateMany n =
     \<lparr> index = (if n = 0 then []
                 else [(js ''a'', map (\<lambda>i. entryOf (noteId i) (if i < 100 then Tags else Title)) [0 ..< n])]),
       docs = map (\<lambda>i. (noteId i, metaN i)) [0 ..< n],
       df = (if n = 0 then [] else [(js ''a'', n)]),
       totalDocs = int n \<rparr>"

text \<open>
  The result for a note with the tag, and for a note with the title; the heap of size
  two after the first two notes, and the loop state that holds it.
\<close>

definition resLow :: "nat \<Rightarrow> searchResult" where
  "resLow i = \<lparr> res_id = noteId i, score = 7/4,
                 matchSpans = [\<lparr>span_field = Tags, span_start = 0, span_end = 1\<rparr>] \<rparr>"

definition resHigh :: "nat \<Rightarrow> searchResult" where
  "resHigh i = \<lparr> res_id = noteId i, score = 17/4,
                matchSpans = [\<lparr>span_field = Title, span_start = 0, span_end = 1\<rparr>] \<rparr>"

definition heapLow :: "searchResult minHeap" where
  "heapLow = \<lparr> items = [resLow 0, resLow 1], maxSize = 2, compare = (\<lambda>a b. double (score a - score b)) \<rparr>"

definition loopLow :: "nat \<Rightarrow> loopState" where
  "loopLow k = \<lparr> topResults = heapLow, yieldedIds = [], processedCount = k, yielded = [] \<rparr>"

section \<open>Verification\<close>

subsection \<open>Rounding\<close>

text \<open>
  Rounding keeps the order, keeps zero, commutes with negation, and leaves every number
  of the form \<open>m / 2 ^ k\<close> with \<open>\<bar>m\<bar> < 2 ^ 53\<close> and \<open>k \<le> 1074\<close> as it is.
\<close>

lemma roundEven_of_int: "roundEven (of_int n) = n"
  by (simp add: roundEven_def)

lemma roundEven_le: "roundEven z \<le> \<lfloor>z\<rfloor> + 1"
  by (simp add: roundEven_def Let_def)

lemma roundEven_ge: "\<lfloor>z\<rfloor> \<le> roundEven z"
  by (simp add: roundEven_def Let_def)

lemma roundEven_mono: "z \<le> w \<Longrightarrow> roundEven z \<le> roundEven w"
proof -
  assume zw: "z \<le> w"
  have fl: "\<lfloor>z\<rfloor> \<le> \<lfloor>w\<rfloor>" using zw by (rule floor_mono)
  show ?thesis
  proof (cases "\<lfloor>z\<rfloor> = \<lfloor>w\<rfloor>")
    case True
    then have "z - of_int \<lfloor>z\<rfloor> \<le> w - of_int \<lfloor>w\<rfloor>" using zw by simp
    then show ?thesis using True by (auto simp: roundEven_def Let_def)
  next
    case False
    then have "\<lfloor>z\<rfloor> + 1 \<le> \<lfloor>w\<rfloor>" using fl by simp
    then show ?thesis using roundEven_le [of z] roundEven_ge [of w] by linarith
  qed
qed

lemma quantum_pos: "0 < quantum x"
  by (simp add: quantum_def)

lemma quantum_abs: "quantum (- x) = quantum x"
  by (simp add: quantum_def)

lemma double_minus: "double (- x) = - double x"
  by (simp add: double_def quantum_abs sgn_minus)

lemma double_0: "double 0 = 0"
  by (simp add: double_def)

lemma double_nonneg: "0 \<le> x \<Longrightarrow> 0 \<le> double x"
proof -
  assume "0 \<le> x"
  then have "0 \<le> \<bar>x\<bar> / quantum x" using quantum_pos [of x] by simp
  then have "0 \<le> \<lfloor>\<bar>x\<bar> / quantum x\<rfloor>" by simp
  then have "0 \<le> roundEven (\<bar>x\<bar> / quantum x)" using roundEven_ge [of "\<bar>x\<bar> / quantum x"] by linarith
  then show ?thesis using \<open>0 \<le> x\<close> quantum_pos [of x] by (simp add: double_def sgn_if)
qed

lemma binade_bounds:
  assumes "0 < x"
  shows "2 powr of_int \<lfloor>log 2 x\<rfloor> \<le> x" "x < 2 powr of_int (\<lfloor>log 2 x\<rfloor> + 1)"
  using floor_log_eq_powr_iff [of x 2 "\<lfloor>log 2 x\<rfloor>"] assms by simp_all

lemma powr_int_add: "(2::real) powr of_int (a + b) = 2 powr of_int a * 2 powr of_int b"
  by (simp add: powr_add)

lemma powr_int_mono: "a \<le> b \<Longrightarrow> (2::real) powr of_int a \<le> 2 powr of_int b"
  by (simp add: powr_mono)

lemma double_scaled:
  assumes "0 < x"
  shows "double x = quantum x * of_int (roundEven (x / quantum x))"
  using assms by (simp add: double_def)

lemma double_pos_mono:
  assumes x: "0 < x" and xy: "x \<le> y"
  shows "double x \<le> double y"
proof -
  have y: "0 < y" using x xy by simp
  define Ex where "Ex = \<lfloor>log 2 x\<rfloor>"
  define Ey where "Ey = \<lfloor>log 2 y\<rfloor>"
  define ex where "ex = max (Ex - 52) (- 1074)"
  define ey where "ey = max (Ey - 52) (- 1074)"
  have qx: "quantum x = 2 powr of_int ex" using x by (simp add: quantum_def ex_def Ex_def)
  have qy: "quantum y = 2 powr of_int ey" using y by (simp add: quantum_def ey_def Ey_def)
  have "log 2 x \<le> log 2 y" using x y xy by simp
  then have E: "Ex \<le> Ey" unfolding Ex_def Ey_def by (rule floor_mono)
  then have e: "ex \<le> ey" by (simp add: ex_def ey_def)
  have dx: "double x = 2 powr of_int ex * of_int (roundEven (x / 2 powr of_int ex))"
    using double_scaled [OF x] by (simp add: qx)
  have dy: "double y = 2 powr of_int ey * of_int (roundEven (y / 2 powr of_int ey))"
    using double_scaled [OF y] by (simp add: qy)
  show ?thesis
  proof (cases "ex = ey")
    case True
    have "x / 2 powr of_int ey \<le> y / 2 powr of_int ey" using xy by (simp add: divide_right_mono)
    then have "roundEven (x / 2 powr of_int ey) \<le> roundEven (y / 2 powr of_int ey)"
      by (rule roundEven_mono)
    then show ?thesis unfolding dx dy True by (simp add: mult_left_mono)
  next
    case False
    then have lt: "ex + 1 \<le> ey" using e by simp
    then have eyE: "ey = Ey - 52" by (auto simp: ey_def ex_def max_def split: if_splits)
    have exE: "Ex + 1 \<le> ex + 53" by (simp add: ex_def)
    have "x < 2 powr of_int (Ex + 1)" using binade_bounds(2) [OF x] by (simp add: Ex_def)
    also have "\<dots> \<le> 2 powr of_int (ex + 53)" using exE by (rule powr_int_mono)
    finally have "x < 2 powr of_int ex * 2 ^ 53" by (simp add: powr_add)
    then have "x / 2 powr of_int ex \<le> of_int (2 ^ 53)"
      by (simp add: field_simps)
    then have "roundEven (x / 2 powr of_int ex) \<le> roundEven (of_int (2 ^ 53))"
      by (rule roundEven_mono)
    then have "roundEven (x / 2 powr of_int ex) \<le> 2 ^ 53" by (simp only: roundEven_of_int)
    then have "real_of_int (roundEven (x / 2 powr of_int ex)) \<le> 2 ^ 53"
      by (metis of_int_le_iff of_int_numeral of_int_power)
    then have "double x \<le> 2 powr of_int ex * 2 ^ 53"
      unfolding dx by (simp add: mult_left_mono)
    also have "\<dots> = 2 powr of_int (ex + 53)" by (simp add: powr_add)
    also have "\<dots> \<le> 2 powr of_int (ey + 52)" using lt by (intro powr_int_mono) simp
    finally have ub: "double x \<le> 2 powr of_int (ey + 52)" .
    have "2 powr of_int (ey + 52) \<le> y" using binade_bounds(1) [OF y] by (simp add: eyE Ey_def)
    then have "2 powr of_int ey * 2 ^ 52 \<le> y" by (simp add: powr_add)
    then have "of_int (2 ^ 52) \<le> y / 2 powr of_int ey"
      by (simp add: field_simps)
    then have "roundEven (of_int (2 ^ 52)) \<le> roundEven (y / 2 powr of_int ey)"
      by (rule roundEven_mono)
    then have "2 ^ 52 \<le> roundEven (y / 2 powr of_int ey)" by (simp only: roundEven_of_int)
    then have "(2::real) ^ 52 \<le> real_of_int (roundEven (y / 2 powr of_int ey))"
      by (metis of_int_le_iff of_int_numeral of_int_power)
    then have "2 powr of_int ey * 2 ^ 52 \<le> double y"
      unfolding dy by (simp add: mult_left_mono)
    moreover have "(2::real) powr of_int ey * 2 ^ 52 = 2 powr of_int (ey + 52)" by (simp add: powr_add)
    ultimately have lb: "2 powr of_int (ey + 52) \<le> double y" by simp
    show ?thesis using ub lb by simp
  qed
qed

lemma double_mono:
  assumes "x \<le> y"
  shows "double x \<le> double y"
proof -
  consider "0 < x" | "x \<le> 0" "0 \<le> y" | "y < 0" by linarith
  then show ?thesis
  proof cases
    case 1
    then show ?thesis using assms by (rule double_pos_mono)
  next
    case 2
    have "0 \<le> double (- x)" using 2(1) by (intro double_nonneg) simp
    then have "double x \<le> 0" by (simp add: double_minus)
    moreover have "0 \<le> double y" using 2(2) by (rule double_nonneg)
    ultimately show ?thesis by simp
  next
    case 3
    have "double (- y) \<le> double (- x)" using 3 assms by (intro double_pos_mono) simp_all
    then show ?thesis by (simp add: double_minus)
  qed
qed

lemma double_exact_pos:
  assumes m: "0 < m" "m < 2 ^ 53" and k: "k \<le> 1074"
  shows "double (of_int m / 2 ^ k) = of_int m / 2 ^ k"
proof -
  define x :: real where "x = of_int m / 2 ^ k"
  have x: "0 < x" using m(1) by (simp add: x_def)
  define E where "E = \<lfloor>log 2 x\<rfloor>"
  define e where "e = max (E - 52) (- 1074)"
  have q: "quantum x = 2 powr of_int e" using x by (simp add: quantum_def e_def E_def)
  have pk: "(2::real) ^ k = 2 powr of_int (int k)" by (simp add: powr_realpow)
  have "real_of_int m < 2 ^ 53" using m(2) by (metis of_int_less_iff of_int_numeral of_int_power)
  then have "x < 2 ^ 53 / 2 ^ k" by (simp add: x_def divide_strict_right_mono)
  also have "\<dots> = 2 powr of_int (53 - int k)" by (simp add: pk powr_diff del: of_int_of_nat_eq)
  finally have ub: "x < 2 powr of_int (53 - int k)" .
  have lb: "2 powr of_int E \<le> x" using binade_bounds(1) [OF x] by (simp add: E_def)
  have "(2::real) powr of_int E < 2 powr of_int (53 - int k)" using lb ub by (rule le_less_trans)
  then have "E < 53 - int k" by simp
  then have ek: "e \<le> - int k" using k by (simp add: e_def)
  define j where "j = nat (- int k - e)"
  have j: "int j = - int k - e" using ek by (simp add: j_def)
  have "(2::real) powr of_int (- int k) = 2 powr of_int e * 2 powr of_int (int j)"
    by (simp add: j powr_add [symmetric] del: of_int_of_nat_eq)
  then have "1 / (2::real) ^ k = 2 powr of_int e * 2 ^ j"
    by (simp add: powr_realpow powr_minus inverse_eq_divide)
  then have "x = 2 powr of_int e * of_int (m * 2 ^ j)"
    by (simp add: x_def field_simps)
  then have xq: "x / 2 powr of_int e = of_int (m * 2 ^ j)"
    by simp
  have "double x = 2 powr of_int e * of_int (roundEven (x / 2 powr of_int e))"
    using double_scaled [OF x] by (simp add: q)
  also have "\<dots> = 2 powr of_int e * of_int (m * 2 ^ j)"
    by (simp only: xq roundEven_of_int)
  also have "\<dots> = x" using \<open>x = 2 powr of_int e * of_int (m * 2 ^ j)\<close> by simp
  finally show ?thesis by (simp add: x_def)
qed

lemma double_exact:
  assumes "\<bar>m\<bar> < 2 ^ 53" and "k \<le> 1074"
  shows "double (of_int m / 2 ^ k) = of_int m / 2 ^ k"
proof -
  consider "0 < m" | "m = 0" | "m < 0" by linarith
  then show ?thesis
  proof cases
    case 1
    then show ?thesis using assms by (intro double_exact_pos) simp_all
  next
    case 2
    then show ?thesis by (simp add: double_0)
  next
    case 3
    then have "double (of_int (- m) / 2 ^ k) = of_int (- m) / 2 ^ k"
      using assms by (intro double_exact_pos) simp_all
    then have "double (- (of_int m / 2 ^ k)) = - (of_int m / 2 ^ k)" by simp
    then show ?thesis by (simp add: double_minus)
  qed
qed

lemma double_int: "\<bar>m\<bar> < 2 ^ 53 \<Longrightarrow> double (of_int m) = of_int m"
  using double_exact [of m 0] by simp

text \<open>A number of the binade of 4 that lies less than half a step above 4 rounds to 4.\<close>

lemma double_absorbed:
  assumes "0 \<le> t" "t < 1 / 2 ^ 51"
  shows "double (4 + t) = 4"
proof -
  define x where "x = 4 + t"
  have x: "0 < x" using assms by (simp add: x_def)
  have t8: "t < 4" using assms(2) by (rule less_trans) simp
  have "\<lfloor>log 2 x\<rfloor> = 2"
    using floor_log_eq_powr_iff [of x 2 2] x assms(1) t8 by (simp add: x_def)
  then have "quantum x = 2 powr (- 50)"
    using x by (simp add: quantum_def)
  also have "\<dots> = 1 / 2 ^ 50"
    by (simp only: powr_minus powr_numeral inverse_eq_divide)
  finally have q: "quantum x = 1 / 2 ^ 50" .
  have s: "x / (1 / 2 ^ 50) = 2 ^ 52 + t * 2 ^ 50" by (simp add: x_def field_simps)
  have t1: "0 \<le> t * 2 ^ 50" "t * 2 ^ 50 < 1 / 2"
    using assms by (simp_all add: field_simps)
  have fl: "\<lfloor>(2::real) ^ 52 + t * 2 ^ 50\<rfloor> = 2 ^ 52"
    using t1 by (intro floor_unique) simp_all
  have "roundEven (2 ^ 52 + t * 2 ^ 50) = 2 ^ 52"
    unfolding roundEven_def Let_def fl using t1 by simp
  then have "double x = (1 / 2 ^ 50) * of_int (2 ^ 52)"
    using double_scaled [OF x] by (simp only: q s)
  then show ?thesis by (simp add: x_def)
qed

lemma double_numeral:
  assumes "(numeral n :: int) < 2 ^ 53"
  shows "double (numeral n) = numeral n" "double (- numeral n) = - numeral n"
        "double (numeral n / 2) = numeral n / 2" "double (- (numeral n / 2)) = - (numeral n / 2)"
        "double (numeral n / 4) = numeral n / 4" "double (- (numeral n / 4)) = - (numeral n / 4)"
proof -
  have m: "\<bar>numeral n :: int\<bar> < 2 ^ 53" "\<bar>- numeral n :: int\<bar> < 2 ^ 53" using assms by simp_all
  show "double (numeral n) = numeral n" using double_exact [OF m(1), of 0] by simp
  show "double (- numeral n) = - numeral n" using double_exact [OF m(2), of 0] by simp
  show "double (numeral n / 2) = numeral n / 2" using double_exact [OF m(1), of 1] by simp
  show "double (- (numeral n / 2)) = - (numeral n / 2)" using double_exact [OF m(2), of 1] by simp
  show "double (numeral n / 4) = numeral n / 4" using double_exact [OF m(1), of 2] by simp
  show "double (- (numeral n / 4)) = - (numeral n / 4)" using double_exact [OF m(2), of 2] by simp
qed

lemma double_unit:
  "double 0 = 0" "double 1 = 1" "double (- 1) = - 1" "double (1/2) = 1/2" "double (1/4) = 1/4"
  using double_exact [of 0 0] double_exact [of 1 0] double_exact [of "- 1" 0]
        double_exact [of 1 1] double_exact [of 1 2]
  by simp_all

lemmas double_values = double_unit double_numeral

declare double_unit [simp] double_numeral [simp]

subsection \<open>Evaluation on Latin-1\<close>

lemma lowerFrom_latin1: "0x130 \<notin> set s \<Longrightarrow> lowerFrom latin1 pre s = map latin1Lower s"
  by (induction s arbitrary: pre) (auto simp: latin1_def)

lemma normalize_latin1: "0x130 \<notin> set s \<Longrightarrow> normalizeText latin1 s True = map latin1Lower s"
  by (simp add: normalizeText_def toLowerCase_def lowerFrom_latin1)

lemma wordRuns_units:
  assumes "\<And>cp. p cp \<Longrightarrow> cp < 0xd800"
  shows "wordRuns p cur (codePoints s) = runsOf p cur s"
proof (induction s arbitrary: cur rule: codePoints.induct)
  case 1
  show ?case by simp
next
  case (2 c)
  show ?case by simp
next
  case (3 c d r)
  show ?case
  proof (cases "0xd800 \<le> c \<and> c \<le> 0xdbff \<and> 0xdc00 \<le> d \<and> d \<le> 0xdfff")
    case True
    have cp: "codePoints (c # d # r)
              = (0x10000 + (c - 0xd800) * 0x400 + (d - 0xdc00), [c, d]) # codePoints r"
      using True by simp
    have n: "\<not> p c" "\<not> p d" "\<not> p (0x10000 + (c - 0xd800) * 0x400 + (d - 0xdc00))"
      using True assms [of c] assms [of d] assms [of "0x10000 + (c - 0xd800) * 0x400 + (d - 0xdc00)"]
      by auto
    have ih: "wordRuns p [] (codePoints r) = runsOf p [] r" by (rule 3(1) [OF True])
    show ?thesis unfolding cp using n by (simp add: ih)
  next
    case False
    have cp: "codePoints (c # d # r) = (c, [c]) # codePoints (d # r)"
      using False by simp
    have ih: "wordRuns p k (codePoints (d # r)) = runsOf p k (d # r)" for k
      by (rule 3(2) [OF False])
    show ?thesis unfolding cp by (simp only: wordRuns.simps runsOf.simps ih)
  qed
qed

lemma tokenize_latin1:
  "0x130 \<notin> set s \<Longrightarrow> tokenizeWords latin1 s True = runsOf latin1Alnum [] (map latin1Lower s)"
proof -
  have "wordRuns latin1Alnum [] (codePoints t) = runsOf latin1Alnum [] t" for t
    by (rule wordRuns_units) (auto simp: latin1Alnum_def latin1Alnum_def asciiAlnum_def)
  then show "0x130 \<notin> set s \<Longrightarrow> ?thesis"
    by (simp add: tokenizeWords_def normalize_latin1) (simp add: latin1_def)
qed

lemmas ev = js_def normalize_latin1 tokenize_latin1 latin1Lower_def asciiLower_def latin1Alnum_def asciiAlnum_def
  mapGet_def mapSet_def mapHas_def mapDelete_def tokenPositions_def
  upsert_def clear_def defaultOptions_def DEFAULT_SCORER_CONFIG_def processedDoc_def indexedFields_def addPosting_def

lemma dl_far: "2 < (if length s1 \<ge> length s2 then length s1 - length s2 else length s2 - length s1)
   \<Longrightarrow> damerauLevenshtein s1 s2 2 = 3"
  by (simp add: damerauLevenshtein_def Let_def)

lemma st_prefix: "startsWith token q \<Longrightarrow> scoreToken q token = 1"
  by (simp add: scoreToken_def)
lemma st_far: "\<not> startsWith token q \<Longrightarrow> 2 < (if length q \<ge> length token then length q - length token else length token - length q)
   \<Longrightarrow> scoreToken q token = 0"
  by (simp add: scoreToken_def dl_far)

lemma statePlan_built: "0 < maxDocs opts \<Longrightarrow> diacritics (scorerConfigOf opts) \<Longrightarrow> upsert latin1 opts clear notePlan = (None, statePlan)"
  by (simp add: ev notePlan_def statePlan_def entryOf_def)
lemma defaultOptions_sel: "0 < maxDocs defaultOptions" "diacritics (scorerConfigOf defaultOptions)"
  "scorerConfigOf defaultOptions = DEFAULT_SCORER_CONFIG"
  by (simp_all add: defaultOptions_def DEFAULT_SCORER_CONFIG_def)

lemma sf_title: "scoreField latin1 DEFAULT_SCORER_CONFIG (Str (js ''Plan'')) [js ''plan''] = (1, [(0, 4)])"
  by (simp add: scoreField_def textOf_def DEFAULT_SCORER_CONFIG_def js_def normalize_latin1 tokenize_latin1
       latin1Lower_def asciiLower_def latin1Alnum_def asciiAlnum_def st_prefix indexOf_def double_values)
lemma sf_tags: "scoreField latin1 DEFAULT_SCORER_CONFIG (Arr [js ''personal'']) [js ''plan''] = (0, [])"
  by (simp add: scoreField_def textOf_def DEFAULT_SCORER_CONFIG_def js_def normalize_latin1 tokenize_latin1
       latin1Lower_def asciiLower_def latin1Alnum_def asciiAlnum_def st_far indexOf_def double_values)
lemma sf_empty: "scoreField latin1 DEFAULT_SCORER_CONFIG (Arr []) ts = (0, [])"
  "scoreField latin1 DEFAULT_SCORER_CONFIG (Str []) ts = (0, [])"
  by (simp_all add: scoreField_def textOf_def DEFAULT_SCORER_CONFIG_def normalize_latin1 tokenize_latin1)

lemma config_sel:
  "weights DEFAULT_SCORER_CONFIG = \<lparr> w_title = 4, w_headings = 2, w_path = 3/2, w_tags = 3/2,
                    w_symbols = 3/2, w_body = 1, w_recency = 1/2 \<rparr>"
  "diacritics DEFAULT_SCORER_CONFIG = True"
  "recencyHalfLife DEFAULT_SCORER_CONFIG = 30"
  by (simp_all add: DEFAULT_SCORER_CONFIG_def)

subsection \<open>Normalisation and string length\<close>

lemma length_lowerFrom:
  "0x130 \<notin> set s \<Longrightarrow> length (lowerFrom u pre s) = length s"
  by (induction s arbitrary: pre) auto

text \<open>
  C8 as stated fails: lower-casing the one-unit string U+0130 gives a string of two units.
\<close>

theorem normalize_length_counterexample:
  "length (normalizeText latin1 [0x130] True) \<noteq> length [0x130::nat]"
  by (simp add: normalizeText_def toLowerCase_def)

text \<open>
  C8, amended: for every input string that does not contain U+0130, normalisation with
  diacritics preserved returns a string of the same length, whatever the host's tables.
\<close>

theorem normalize_preserves_length:
  "0x130 \<notin> set s \<Longrightarrow> length (normalizeText u s True) = length s"
  by (simp add: normalizeText_def toLowerCase_def length_lowerFrom)

theorem normalize_preserves_length_witness:
  "0x130 \<notin> set (js ''Hello'') \<and>
   length (normalizeText latin1 (js ''Hello'') True) = length (js ''Hello'')"
  using normalize_preserves_length [of "js ''Hello''" latin1]
  by (simp add: js_def)

subsection \<open>Queries that only exclude\<close>

lemma getRecentDocuments_length:
  "length (getRecentDocuments st limit) = min limit (length (docs st))"
  by (simp add: getRecentDocuments_def sortByScoreDesc_def Let_def min.commute)

text \<open>
  C3 as stated fails: on an index that holds the one note titled Plan, the query that
  consists of the exclude term \<open>plan\<close> returns that note.
\<close>

theorem exclude_only_counterexample:
  "query latin1 defaultOptions 1700000000000 (snd (upsert latin1 defaultOptions clear notePlan))
     (emptyQuery\<lparr>excludes := [js ''plan'']\<rparr>) 10
   = [\<lparr>res_id = js ''plan.md'', score = 1, matchSpans = []\<rparr>]"
  by (simp add: statePlan_built [OF defaultOptions_sel(1,2)] query_def isEmpty_def emptyQuery_def
        getRecentDocuments_def statePlan_def sortByScoreDesc_def)

text \<open>
  C3, amended: a query with at least one exclude term and no terms, phrases, or-groups or
  regex is treated as the empty query: it returns the \<open>limit\<close> most recently modified
  documents, and so as many results as the smaller of \<open>limit\<close> and the number of
  documents; the exclude terms are not applied.
\<close>

theorem exclude_only_query_returns_recent:
  "excludes q \<noteq> [] \<Longrightarrow> terms q = [] \<Longrightarrow> phrases q = [] \<Longrightarrow> orGroups q = [] \<Longrightarrow> regex q = None \<Longrightarrow>
   query u opts now st q limit = getRecentDocuments st limit
   \<and> length (query u opts now st q limit) = min limit (length (docs st))"
  by (simp add: query_def isEmpty_def getRecentDocuments_length)

theorem exclude_only_query_returns_recent_witness:
  "excludes (emptyQuery\<lparr>excludes := [js ''plan'']\<rparr>) \<noteq> []
   \<and> terms (emptyQuery\<lparr>excludes := [js ''plan'']\<rparr>) = []
   \<and> phrases (emptyQuery\<lparr>excludes := [js ''plan'']\<rparr>) = []
   \<and> orGroups (emptyQuery\<lparr>excludes := [js ''plan'']\<rparr>) = []
   \<and> regex (emptyQuery\<lparr>excludes := [js ''plan'']\<rparr>) = None
   \<and> query latin1 defaultOptions 1700000000000 statePlan (emptyQuery\<lparr>excludes := [js ''plan'']\<rparr>) 10
       = getRecentDocuments statePlan 10
   \<and> length (query latin1 defaultOptions 1700000000000 statePlan (emptyQuery\<lparr>excludes := [js ''plan'']\<rparr>) 10) = 1"
proof -
  let ?q = "emptyQuery\<lparr>excludes := [js ''plan'']\<rparr>"
  have h: "excludes ?q \<noteq> []" "terms ?q = []" "phrases ?q = []" "orGroups ?q = []" "regex ?q = None"
    by (simp_all add: emptyQuery_def)
  have len: "min 10 (length (docs statePlan)) = 1"
    by (simp add: statePlan_def)
  have r: "query latin1 defaultOptions 1700000000000 statePlan ?q 10 = getRecentDocuments statePlan 10
           \<and> length (query latin1 defaultOptions 1700000000000 statePlan ?q 10)
               = min 10 (length (docs statePlan))"
    by (rule exclude_only_query_returns_recent [OF h])
  show ?thesis
    using h r [unfolded len] by blast
qed

subsection \<open>Filters\<close>

lemma scoreDoc_filters:
  "scoreDoc u c now d (q\<lparr>filters := f\<rparr>) = scoreDoc u c now d q"
  by (simp add: scoreDoc_def)

lemma scoreCandidates_filters:
  "scoreCandidates u opts now st (q\<lparr>filters := f\<rparr>) limit cs ls
   = scoreCandidates u opts now st q limit cs ls"
  by (induction cs arbitrary: ls) (simp_all add: scoreDoc_filters split: option.splits)

lemma postingCandidates_filters:
  "postingCandidates u opts st (q\<lparr>filters := f\<rparr>) = postingCandidates u opts st q"
  by (simp add: postingCandidates_def Let_def)

lemma gatherCandidates_posting:
  "postingCandidates u opts st q \<noteq> [] \<Longrightarrow> gatherCandidates u opts st q = postingCandidates u opts st q"
  by (simp add: gatherCandidates_def Let_def)

lemma runStream_filters:
  assumes "postingCandidates u opts st q \<noteq> []"
  shows "runStream u opts now st (q\<lparr>filters := f\<rparr>) limit = runStream u opts now st q limit"
proof -
  have "gatherCandidates u opts st (q\<lparr>filters := f\<rparr>) = gatherCandidates u opts st q"
    using assms by (simp add: gatherCandidates_posting postingCandidates_filters)
  then show ?thesis
    by (simp add: runStream_def scoreCandidates_filters)
qed

text \<open>
  C10: when the or-groups or the ordinary terms of a query draw at least one candidate
  from the postings, replacing the filters of the query leaves the result list of \<open>query\<close>
  unchanged: no document is rejected for failing a filter.
\<close>

theorem filters_do_not_change_results:
  "postingCandidates u opts st q \<noteq> [] \<Longrightarrow>
   query u opts now st (q\<lparr>filters := f\<rparr>) limit = query u opts now st q limit"
  by (simp add: query_def isEmpty_def runStream_filters)

lemma cands: "postingCandidates latin1 defaultOptions statePlan planQuery = [js ''plan.md'']"
  by (simp add: postingCandidates_def planQuery_def emptyQuery_def statePlan_def entryOf_def
        defaultOptions_def DEFAULT_SCORER_CONFIG_def js_def normalize_latin1 latin1Lower_def asciiLower_def
        mapGet_def addDocIds_def setAdd_def intersectAll_def)

theorem filters_do_not_change_results_witness:
  "postingCandidates latin1 defaultOptions statePlan planQuery \<noteq> []
   \<and> query latin1 defaultOptions 1700000000000 statePlan
         (planQuery\<lparr>filters := noFilters\<lparr>tagF := Some [js ''work'']\<rparr>\<rparr>) 10
       = query latin1 defaultOptions 1700000000000 statePlan planQuery 10"
  using filters_do_not_change_results
          [of latin1 defaultOptions statePlan planQuery 1700000000000
              "noFilters\<lparr>tagF := Some [js ''work'']\<rparr>" 10]
  by (simp add: cands)

subsection \<open>Body truncation\<close>

text \<open>The example of the source: without diacritics, \<open>Caf\<close> and U+00E9 normalise to \<open>cafe\<close>.\<close>

lemma latin1Decompose_values: "latin1Decompose 0xe9 = [0x65, 0x301]" "latin1Decompose 0x63 = [0x63]"
  "latin1Decompose 0x61 = [0x61]" "latin1Decompose 0x66 = [0x66]"
  by (simp_all add: latin1Decompose_def accents_def)

lemma normalize_cafe: "normalizeText latin1 [0x43, 0x61, 0x66, 0xe9] False = js ''cafe''"
proof -
  have l: "toLowerCase latin1 [0x43, 0x61, 0x66, 0xe9] = [0x63, 0x61, 0x66, 0xe9]"
    unfolding toLowerCase_def by (subst lowerFrom_latin1) (simp_all add: latin1Lower_def)
  have n: "nfd latin1 [0x63, 0x61, 0x66, 0xe9] = [0x63, 0x61, 0x66, 0x65, 0x301]"
    by (simp add: latin1_def latin1Decompose_values)
  show ?thesis
    by (simp add: normalizeText_def l n isCombiningMark_def js_def)
qed

lemma mapGet_mapSet_same: "mapGet (mapSet m k v) k = Some v"
  by (induction m) (auto simp: mapGet_def mapSet_def mapHas_def split: if_splits)

lemma docs_addPosting: "docs (addPosting i f e st) = docs st"
  by (cases e) (simp add: addPosting_def Let_def split: option.splits)

lemma totalDocs_addPosting: "totalDocs (addPosting i f e st) = totalDocs st"
  by (cases e) (simp add: addPosting_def Let_def split: option.splits)

lemma docs_fold_addPosting: "docs (fold (addPosting i f) es st) = docs st"
  by (induction es arbitrary: st) (simp_all add: docs_addPosting)

lemma totalDocs_fold_addPosting: "totalDocs (fold (addPosting i f) es st) = totalDocs st"
  by (induction es arbitrary: st) (simp_all add: totalDocs_addPosting)

lemma docs_fold_fields:
  "docs (fold (\<lambda>(f, tokens) s. fold (addPosting i f) (g tokens) s) fts st) = docs st"
  by (induction fts arbitrary: st) (auto simp: docs_fold_addPosting)

lemma totalDocs_fold_fields:
  "totalDocs (fold (\<lambda>(f, tokens) s. fold (addPosting i f) (g tokens) s) fts st) = totalDocs st"
  by (induction fts arbitrary: st) (auto simp: totalDocs_fold_addPosting)

lemma processedDoc_take: "processedDoc opts d = d\<lparr>body := take (maxBodyLength opts) (body d)\<rparr>"
  by (simp add: processedDoc_def)

lemma processedDoc_idem:
  "processedDoc opts (d\<lparr>body := take (maxBodyLength opts) (body d)\<rparr>) = processedDoc opts d"
  by (simp add: processedDoc_take)

lemma upsert_stored_body:
  assumes "upsert u opts st d = (None, st')"
  shows "map_option (\<lambda>m. body (md_doc m)) (mapGet (docs st') (doc_id d))
         = Some (take (maxBodyLength opts) (body d))"
  using assms
  by (auto simp: upsert_def Let_def docs_fold_fields mapGet_mapSet_same processedDoc_take
           split: if_splits)

lemma upsert_of_truncated:
  "upsert u opts st (d\<lparr>body := take (maxBodyLength opts) (body d)\<rparr>) = upsert u opts st d"
  by (simp add: upsert_def Let_def processedDoc_idem processedDoc_take)

lemma capBody_sel: "maxBodyLength capBody = 1" "maxDocs capBody = 50000"
  by (simp_all add: capBody_def defaultOptions_def)

lemma cafe_upserted: "fst (upsert latin1 capBody clear noteCafe) = None"
  by (simp add: upsert_def Let_def clear_def mapHas_def capBody_sel)

text \<open>The cut body is what the index holds: one posting for the word U+00E9.\<close>

lemma cafe_tokens:
  "tokenizeWords latin1 [0xe9] True = [[0xe9]]" "tokenizeWords latin1 [0x45] True = [[0x65]]"
  "tokenizeWords latin1 [] True = []"
  by (simp_all add: tokenize_latin1 latin1Lower_def latin1Alnum_def asciiAlnum_def js_def)

lemma cafe_indexed:
  "mapGet (index (snd (upsert latin1 capBody clear noteCafe))) [0xe9] = Some [entryOf (js ''e.md'') Body]"
proof -
  have "upsert latin1 capBody clear (noteCafe\<lparr>body := take (maxBodyLength capBody) (body noteCafe)\<rparr>)
        = upsert latin1 capBody clear noteCafe"
    by (rule upsert_of_truncated)
  then have u: "upsert latin1 capBody clear noteCafe = upsert latin1 capBody clear (noteCafe\<lparr>body := [0xe9]\<rparr>)"
    by (simp add: capBody_sel noteCafe_def)
  have dia: "diacritics (scorerConfigOf capBody)" by (simp add: capBody_def defaultOptions_sel config_sel)
  show ?thesis
    unfolding u
    by (simp add: upsert_def Let_def clear_def mapHas_def mapGet_def mapSet_def capBody_sel processedDoc_def
         dia indexedFields_def noteCafe_def cafe_tokens js_def tokenPositions_def
         normalize_latin1 latin1Lower_def addPosting_def entryOf_def)
qed

text \<open>
  C6 as stated fails: with a cap of 1, the body of two letters U+00E9 is stored as one
  such letter, which is two bytes long.
\<close>

theorem body_byte_length_counterexample:
  "map_option (\<lambda>m. utf8Length (body (md_doc m)))
      (mapGet (docs (snd (upsert latin1 capBody clear noteCafe))) (doc_id noteCafe)) = Some 2
   \<and> maxBodyLength capBody = 1"
proof -
  have "upsert latin1 capBody clear noteCafe = (None, snd (upsert latin1 capBody clear noteCafe))"
    using cafe_upserted by (simp add: prod_eq_iff)
  then have "map_option (\<lambda>m. body (md_doc m))
      (mapGet (docs (snd (upsert latin1 capBody clear noteCafe))) (doc_id noteCafe))
      = Some (take (maxBodyLength capBody) (body noteCafe))"
    by (rule upsert_stored_body)
  then show ?thesis
    by (auto simp: capBody_sel noteCafe_def utf8Length_def)
qed

text \<open>
  C6, amended: a successful \<open>upsert\<close> stores the body cut to its first \<open>maxBodyLength\<close>
  UTF-16 code units, so the stored body has at most that many code units, and it leaves
  the very state that the upsert of the document with the cut body leaves: whatever is
  read or queried later sees the cut body only.
\<close>

theorem upsert_truncates_body:
  "upsert u opts st d = (None, st') \<Longrightarrow>
   map_option (\<lambda>m. body (md_doc m)) (mapGet (docs st') (doc_id d))
     = Some (take (maxBodyLength opts) (body d))
   \<and> length (take (maxBodyLength opts) (body d)) \<le> maxBodyLength opts
   \<and> upsert u opts st (d\<lparr>body := take (maxBodyLength opts) (body d)\<rparr>) = (None, st')"
  by (simp add: upsert_stored_body upsert_of_truncated)

theorem upsert_truncates_body_witness:
  "upsert latin1 capBody clear noteCafe = (None, snd (upsert latin1 capBody clear noteCafe))
   \<and> map_option (\<lambda>m. body (md_doc m))
        (mapGet (docs (snd (upsert latin1 capBody clear noteCafe))) (doc_id noteCafe)) = Some [0xe9]
   \<and> upsert latin1 capBody clear (noteCafe\<lparr>body := [0xe9]\<rparr>)
        = (None, snd (upsert latin1 capBody clear noteCafe))"
proof -
  have u: "upsert latin1 capBody clear noteCafe = (None, snd (upsert latin1 capBody clear noteCafe))"
    using cafe_upserted by (simp add: prod_eq_iff)
  have t: "take (maxBodyLength capBody) (body noteCafe) = [0xe9]"
    by (simp add: capBody_sel noteCafe_def)
  show ?thesis
    using upsert_truncates_body [OF u] u by (simp add: t)
qed

subsection \<open>Recency\<close>

lemma searchableText_mtime: "searchableText (d\<lparr>mtime := m\<rparr>) = searchableText d"
  by (simp add: searchableText_def)

lemma ln2_lower: "85/128 \<le> ln (2::real)"
proof -
  have "exp (85/1024 :: real) \<le> 1 + 85/1024 + (85/1024)\<^sup>2" by (rule exp_bound) simp_all
  then have "exp (85/1024 :: real) ^ 8 \<le> (1 + 85/1024 + (85/1024)\<^sup>2) ^ 8"
    by (intro power_mono) simp_all
  also have "\<dots> \<le> (2::real)" by (simp add: power2_eq_square power_divide)
  finally have "exp (85/1024 :: real) ^ 8 \<le> 2" .
  moreover have "exp (85/1024 :: real) ^ 8 = exp (of_nat 8 * (85/1024))" by (rule exp_of_nat_mult [symmetric])
  ultimately have "exp (85/128 :: real) \<le> 2" by simp
  then have "ln (exp (85/128 :: real)) \<le> ln 2" by (subst ln_le_cancel_iff) simp_all
  then show ?thesis by simp
qed

lemma LN2_bounds: "85/128 \<le> LN2" "LN2 \<le> 1"
proof -
  have "double (85/128) \<le> double (ln 2)" using ln2_lower by (rule double_mono)
  then show "85/128 \<le> LN2" using double_exact [of 85 7] by (simp add: LN2_def)
  have "ln (2::real) \<le> 1" using ln_2_less_1 by simp
  then have "double (ln 2) \<le> double 1" by (rule double_mono)
  then show "LN2 \<le> 1" by (simp add: LN2_def)
qed

text \<open>The exponent that \<open>computeRecencyBonus\<close> hands to \<open>Math.exp\<close>, for an age in milliseconds.\<close>

lemma recency_exponent_mono:
  assumes "0 < h" "a2 \<le> a1"
  shows "double (double (- double (double (real_of_int a1) / (1000 * 60 * 60 * 24)) * LN2) / h)
         \<le> double (double (- double (double (real_of_int a2) / (1000 * 60 * 60 * 24)) * LN2) / h)"
proof -
  have "double (real_of_int a2) \<le> double (real_of_int a1)"
    using assms(2) by (intro double_mono) simp
  then have "double (real_of_int a2) / (1000 * 60 * 60 * 24) \<le> double (real_of_int a1) / (1000 * 60 * 60 * 24)"
    by (simp add: divide_right_mono)
  then have "double (double (real_of_int a2) / (1000 * 60 * 60 * 24))
             \<le> double (double (real_of_int a1) / (1000 * 60 * 60 * 24))"
    by (rule double_mono)
  then have "- double (double (real_of_int a1) / (1000 * 60 * 60 * 24)) * LN2
             \<le> - double (double (real_of_int a2) / (1000 * 60 * 60 * 24)) * LN2"
    using LN2_bounds(1) by (intro mult_right_mono) simp_all
  then have "double (- double (double (real_of_int a1) / (1000 * 60 * 60 * 24)) * LN2)
             \<le> double (- double (double (real_of_int a2) / (1000 * 60 * 60 * 24)) * LN2)"
    by (rule double_mono)
  then have "double (- double (double (real_of_int a1) / (1000 * 60 * 60 * 24)) * LN2) / h
             \<le> double (- double (double (real_of_int a2) / (1000 * 60 * 60 * 24)) * LN2) / h"
    using assms(1) by (simp add: divide_right_mono)
  then show ?thesis by (rule double_mono)
qed

lemma recency_exponent_nonneg:
  assumes "0 < h" "a \<le> 0"
  shows "0 \<le> double (double (- double (double (real_of_int a) / (1000 * 60 * 60 * 24)) * LN2) / h)"
  using recency_exponent_mono [OF assms(1), of a 0] assms(2) by (simp add: double_values)

lemma recency_mono:
  assumes mono: "\<And>x y. x \<le> y \<Longrightarrow> mathExp u x \<le> mathExp u y"
      and h: "0 < h" and age: "now2 - m2 \<le> now1 - m1"
  shows "computeRecencyBonus u now1 m1 h \<le> computeRecencyBonus u now2 m2 h"
proof -
  let ?e = "\<lambda>a. double (double (- double (double (real_of_int a) / (1000 * 60 * 60 * 24)) * LN2) / h)"
  have "mathExp u (?e (now1 - m1)) \<le> mathExp u (?e (now2 - m2))"
    using recency_exponent_mono [OF h age] by (rule mono)
  then have "double ((1/2) * mathExp u (?e (now1 - m1))) \<le> double ((1/2) * mathExp u (?e (now2 - m2)))"
    by (intro double_mono) simp
  then show ?thesis
    unfolding computeRecencyBonus_def Let_def by (simp add: min_def max_def)
qed

lemma recency_cap:
  assumes mono: "\<And>x y. x \<le> y \<Longrightarrow> mathExp u x \<le> mathExp u y" and one: "mathExp u 0 = 1"
      and h: "0 < h" and future: "now \<le> m"
  shows "computeRecencyBonus u now m h = 1/2"
proof -
  let ?e = "double (double (- double (double (real_of_int (now - m)) / (1000 * 60 * 60 * 24)) * LN2) / h)"
  have "0 \<le> ?e" using h future by (intro recency_exponent_nonneg) simp_all
  then have "mathExp u 0 \<le> mathExp u ?e" by (rule mono)
  then have "1/2 \<le> (1/2) * mathExp u ?e" by (simp add: one)
  then have "double (1/2) \<le> double ((1/2) * mathExp u ?e)" by (rule double_mono)
  then have "1/2 \<le> double ((1/2) * mathExp u ?e)" by (simp add: double_values)
  then show ?thesis
    unfolding computeRecencyBonus_def Let_def by (simp add: min_def max_def)
qed

lemma recency_range: "0 \<le> computeRecencyBonus u now m h" "computeRecencyBonus u now m h \<le> 1/2"
  by (simp_all add: computeRecencyBonus_def Let_def)

text \<open>
  The score of a document is the rounded sum of a number that does not depend on the
  modification time and of the rounded product of the recency weight and the bonus.
\<close>

lemma scoreDoc_shape:
  "\<exists>base spans. \<forall>now m.
     scoreDoc u c now (d\<lparr>mtime := m\<rparr>) q =
       (if isExcluded u c d (excludes q) then None
        else Some \<lparr> sd_score = double (base + double (w_recency (weights c)
                                  * computeRecencyBonus u now m (recencyHalfLife c))),
                    sd_matchSpans = spans \<rparr>)"
proof (intro exI allI)
  fix now m
  have f: "fieldValues (d\<lparr>mtime := m\<rparr>) = fieldValues d" by (simp add: fieldValues_def)
  have p: "scorePhrases u c (d\<lparr>mtime := m\<rparr>) ps = scorePhrases u c d ps" for ps
    by (simp add: scorePhrases_def)
  have e: "isExcluded u c (d\<lparr>mtime := m\<rparr>) xs = isExcluded u c d xs" for xs
    by (simp add: isExcluded_def searchableText_mtime)
  have t: "mtime (d\<lparr>mtime := m\<rparr>) = m" by simp
  show "scoreDoc u c now (d\<lparr>mtime := m\<rparr>) q =
       (if isExcluded u c d (excludes q) then None
        else Some \<lparr> sd_score = double
               (double (foldl (\<lambda>totalScore (f, r).
                                  double (totalScore + double (weightOf (weights c) f * fst r)))
                          0 (map (\<lambda>(f, v). (f, scoreField u c v (terms q))) (fieldValues d))
                        + scorePhrases u c d (phrases q))
                + double (w_recency (weights c)
                                  * computeRecencyBonus u now m (recencyHalfLife c))),
                    sd_matchSpans = concat (map (\<lambda>(f, r).
                 map (\<lambda>(b, e). \<lparr> span_field = f, span_start = b, span_end = e \<rparr>) (snd r))
                   (map (\<lambda>(f, v). (f, scoreField u c v (terms q))) (fieldValues d))) \<rparr>)"
    unfolding scoreDoc_def Let_def f p e t by (rule refl)
qed

lemma latin1_exp: "x \<le> y \<Longrightarrow> mathExp latin1 x \<le> mathExp latin1 y" "mathExp latin1 0 = 1"
  by (simp_all add: latin1_def double_mono double_values)

lemma recency_cap_latin1: "now \<le> m \<Longrightarrow> 0 < h \<Longrightarrow> computeRecencyBonus latin1 now m h = 1/2"
  by (rule recency_cap [OF latin1_exp])

lemma score_notePlan:
  "scoreDoc latin1 DEFAULT_SCORER_CONFIG now (notePlan\<lparr>mtime := m\<rparr>) planQuery
   = Some \<lparr> sd_score = double (4 + double (1/2 * computeRecencyBonus latin1 now m 30)),
             sd_matchSpans = [\<lparr>span_field = Title, span_start = 0, span_end = 4\<rparr>] \<rparr>"
  by (simp add: scoreDoc_def isExcluded_def fieldValues_def notePlan_def planQuery_def emptyQuery_def
        sf_title sf_tags sf_empty scorePhrases_def weightOf_def config_sel double_values)

text \<open>
  C9 as stated fails: scored one day and two days before their modification times, two
  notes that differ in the modification time only both get the capped bonus and the same
  score, although the recency weight is positive.
\<close>

theorem recency_cap_counterexample:
  "map_option sd_score (scoreDoc latin1 DEFAULT_SCORER_CONFIG 1700000000000
                          (notePlan\<lparr>mtime := 1700086400000\<rparr>) planQuery) = Some (17/4)
   \<and> map_option sd_score (scoreDoc latin1 DEFAULT_SCORER_CONFIG 1700000000000
                          (notePlan\<lparr>mtime := 1700172800000\<rparr>) planQuery) = Some (17/4)
   \<and> 0 < w_recency (weights DEFAULT_SCORER_CONFIG)"
  by (simp add: score_notePlan recency_cap_latin1 config_sel double_values)

text \<open>
  Strictness fails below the cap as well. A note modified 1825 days (five years) before
  the query and one modified 2190 days (six years) before it both have a bonus of at most
  \<open>2 ^ -53\<close>, which is lost when it is added to the field score 4: both score exactly 4.
\<close>

lemma exp_minus_40: "exp (- 40 :: real) \<le> 1 / 2 ^ 52"
proof -
  have "(1 + 1 / of_nat 8) ^ 8 \<le> exp (1::real)"
    by (rule exp_ge_one_plus_x_over_n_power_n) simp_all
  moreover have "(5/2 :: real) \<le> (1 + 1 / of_nat 8) ^ 8" by (simp add: power_divide)
  ultimately have e: "(5/2 :: real) \<le> exp 1" by (rule order_trans [rotated])
  have "(2::real) ^ 52 \<le> (5/2) ^ 40" by (simp add: power_divide)
  also have "\<dots> \<le> exp 1 ^ 40" using e by (intro power_mono) simp_all
  also have "\<dots> = exp (of_nat 40 * 1)" by (rule exp_of_nat_mult [symmetric])
  finally have "(2::real) ^ 52 \<le> exp 40" by simp
  then have "inverse (exp (40::real)) \<le> inverse (2 ^ 52)"
    by (intro le_imp_inverse_le) simp_all
  then show ?thesis by (simp add: exp_minus inverse_eq_divide)
qed

lemma old_bonus_small:
  assumes "157680000000 \<le> now - m"
  shows "computeRecencyBonus latin1 now m 30 \<le> 1 / 2 ^ 53"
proof -
  have "computeRecencyBonus latin1 now m 30 \<le> computeRecencyBonus latin1 157680000000 0 30"
    using assms by (intro recency_mono latin1_exp) simp_all
  also have "\<dots> \<le> 1 / 2 ^ 53"
  proof -
    have "- 1825 * LN2 \<le> - (155125/128)" using LN2_bounds(1) by simp
    then have "double (- 1825 * LN2) \<le> double (- (155125/128))" by (rule double_mono)
    then have "double (- 1825 * LN2) \<le> - (155125/128)" using double_exact [of "- 155125" 7] by simp
    then have "double (- 1825 * LN2) / 30 \<le> - 40" by simp
    then have "double (double (- 1825 * LN2) / 30) \<le> double (- 40)" by (rule double_mono)
    then have "double (double (- 1825 * LN2) / 30) \<le> - 40" by simp
    then have "exp (double (double (- 1825 * LN2) / 30)) \<le> exp (- 40)" by simp
    then have "exp (double (double (- 1825 * LN2) / 30)) \<le> 1 / 2 ^ 52"
      using exp_minus_40 by (rule order_trans)
    then have "double (exp (double (double (- 1825 * LN2) / 30))) \<le> double (1 / 2 ^ 52)"
      by (rule double_mono)
    then have "double (exp (double (double (- 1825 * LN2) / 30))) \<le> 1 / 2 ^ 52"
      using double_exact [of 1 52] by simp
    then have "(1/2) * double (exp (double (double (- 1825 * LN2) / 30))) \<le> 1 / 2 ^ 53"
      by simp
    then have "double ((1/2) * double (exp (double (double (- 1825 * LN2) / 30)))) \<le> double (1 / 2 ^ 53)"
      by (rule double_mono)
    then have "double ((1/2) * double (exp (double (double (- 1825 * LN2) / 30)))) \<le> 1 / 2 ^ 53"
      using double_exact [of 1 53] by simp
    then show ?thesis
      by (simp add: computeRecencyBonus_def latin1_def Let_def)
  qed
  finally show ?thesis .
qed

lemma old_score:
  assumes "157680000000 \<le> now - m"
  shows "double (4 + double (1/2 * computeRecencyBonus latin1 now m 30)) = 4"
proof -
  let ?b = "computeRecencyBonus latin1 now m 30"
  have "1/2 * ?b \<le> 1 / 2 ^ 54" using old_bonus_small [OF assms] by simp
  then have "double (1/2 * ?b) \<le> double (1 / 2 ^ 54)" by (rule double_mono)
  then have le: "double (1/2 * ?b) \<le> 1 / 2 ^ 54" using double_exact [of 1 54] by simp
  have "0 \<le> 1/2 * ?b" using recency_range(1) [of latin1 now m 30] by simp
  then have ge: "0 \<le> double (1/2 * ?b)" by (rule double_nonneg)
  have "double (1/2 * ?b) < 1 / 2 ^ 51" using le by (rule le_less_trans) simp
  then show ?thesis using ge by (intro double_absorbed)
qed

lemma recency_tie_below_cap:
  "map_option sd_score (scoreDoc latin1 DEFAULT_SCORER_CONFIG 1700000000000
                          (notePlan\<lparr>mtime := 1542320000000\<rparr>) planQuery) = Some 4
   \<and> map_option sd_score (scoreDoc latin1 DEFAULT_SCORER_CONFIG 1700000000000
                          (notePlan\<lparr>mtime := 1510784000000\<rparr>) planQuery) = Some 4"
  using old_score [of 1700000000000 1542320000000] old_score [of 1700000000000 1510784000000]
  by (simp add: score_notePlan)

text \<open>
  C9, amended. Two documents that differ in the modification time only are scored, each
  at its own reading of the clock, and both are accepted. If the half-life is positive,
  the recency weight is not negative, the host's \<open>Math.exp\<close> is monotone, and the more
  recent document is at most as old at its scoring as the other one is at its own (as it
  is when both are scored at the same time), then the more recent document scores at
  least as high as the older one. If moreover \<open>Math.exp\<close> maps zero to one and neither
  document was modified before its scoring, both bonuses are at the cap and the two scores
  are equal. No strict order follows from a positive recency weight. As everywhere in
  this theory, no operation overflows.
\<close>

theorem recency_monotone:
  assumes "scoreDoc u c now1 d q = Some older"
      and "scoreDoc u c now2 (d\<lparr>mtime := m\<rparr>) q = Some newer"
      and "now2 - m \<le> now1 - mtime d"
      and "0 < recencyHalfLife c" and "0 \<le> w_recency (weights c)"
      and "\<forall>x y. x \<le> y \<longrightarrow> mathExp u x \<le> mathExp u y" and "mathExp u 0 = 1"
  shows "sd_score older \<le> sd_score newer
         \<and> (now1 \<le> mtime d \<and> now2 \<le> m \<longrightarrow> sd_score older = sd_score newer)"
proof -
  obtain base spans where shape: "\<And>now m'.
     scoreDoc u c now (d\<lparr>mtime := m'\<rparr>) q =
       (if isExcluded u c d (excludes q) then None
        else Some \<lparr> sd_score = double (base + double (w_recency (weights c)
                                  * computeRecencyBonus u now m' (recencyHalfLife c))),
                    sd_matchSpans = spans \<rparr>)"
    using scoreDoc_shape [of u c d q] by blast
  have mono: "\<And>x y. x \<le> y \<Longrightarrow> mathExp u x \<le> mathExp u y" using assms(6) by blast
  let ?b1 = "computeRecencyBonus u now1 (mtime d) (recencyHalfLife c)"
  let ?b2 = "computeRecencyBonus u now2 m (recencyHalfLife c)"
  have "scoreDoc u c now1 d q =
          (if isExcluded u c d (excludes q) then None
           else Some \<lparr> sd_score = double (base + double (w_recency (weights c) * ?b1)),
                       sd_matchSpans = spans \<rparr>)"
    using shape [of now1 "mtime d"] by simp
  then have s1: "sd_score older = double (base + double (w_recency (weights c) * ?b1))"
    using assms(1) by (auto split: if_splits)
  have s2: "sd_score newer = double (base + double (w_recency (weights c) * ?b2))"
    using assms(2) by (auto simp: shape split: if_splits)
  have "?b1 \<le> ?b2" using mono assms(4) assms(3) by (rule recency_mono)
  then have "w_recency (weights c) * ?b1 \<le> w_recency (weights c) * ?b2"
    using assms(5) by (rule mult_left_mono)
  then have "double (w_recency (weights c) * ?b1) \<le> double (w_recency (weights c) * ?b2)"
    by (rule double_mono)
  then have part1: "sd_score older \<le> sd_score newer"
    unfolding s1 s2 by (intro double_mono) simp
  have part2: "sd_score older = sd_score newer" if "now1 \<le> mtime d" "now2 \<le> m"
  proof -
    have "?b1 = 1/2" using mono assms(7) assms(4) that(1) by (rule recency_cap)
    moreover have "?b2 = 1/2" using mono assms(7) assms(4) that(2) by (rule recency_cap)
    ultimately have "?b1 = ?b2" by (rule trans_sym)
    then show ?thesis by (simp only: s1 s2)
  qed
  show ?thesis using part1 part2 by blast
qed

theorem recency_monotone_witness:
  "scoreDoc latin1 DEFAULT_SCORER_CONFIG 1700000000000 notePlan planQuery \<noteq> None
   \<and> scoreDoc latin1 DEFAULT_SCORER_CONFIG 1700000000000 (notePlan\<lparr>mtime := 1700086400000\<rparr>) planQuery \<noteq> None
   \<and> 1700000000000 - 1700086400000 \<le> 1700000000000 - mtime notePlan
   \<and> 0 < recencyHalfLife DEFAULT_SCORER_CONFIG
   \<and> 0 \<le> w_recency (weights DEFAULT_SCORER_CONFIG)
   \<and> mathExp latin1 0 = 1
   \<and> 1700000000000 \<le> mtime notePlan \<and> (1700000000000 :: int) \<le> 1700086400000
   \<and> sd_score (the (scoreDoc latin1 DEFAULT_SCORER_CONFIG 1700000000000 notePlan planQuery))
       = sd_score (the (scoreDoc latin1 DEFAULT_SCORER_CONFIG 1700000000000
                          (notePlan\<lparr>mtime := 1700086400000\<rparr>) planQuery))
   \<and> scoreDoc latin1 DEFAULT_SCORER_CONFIG 1700172800000 notePlan planQuery \<noteq> None
   \<and> scoreDoc latin1 DEFAULT_SCORER_CONFIG 1700172800000 (notePlan\<lparr>mtime := 1700086400000\<rparr>) planQuery \<noteq> None
   \<and> 1700172800000 - 1700086400000 \<le> 1700172800000 - mtime notePlan
   \<and> sd_score (the (scoreDoc latin1 DEFAULT_SCORER_CONFIG 1700172800000 notePlan planQuery))
       \<le> sd_score (the (scoreDoc latin1 DEFAULT_SCORER_CONFIG 1700172800000
                          (notePlan\<lparr>mtime := 1700086400000\<rparr>) planQuery))"
proof -
  let ?c = DEFAULT_SCORER_CONFIG and ?m = "1700086400000 :: int"
  have same: "notePlan = notePlan\<lparr>mtime := 1700000000000\<rparr>" by (simp add: notePlan_def)
  have mt: "mtime notePlan = 1700000000000" by (simp add: notePlan_def)
  have ex: "\<forall>x y. x \<le> y \<longrightarrow> mathExp latin1 x \<le> mathExp latin1 y" using latin1_exp(1) by blast
  have cfg: "0 < recencyHalfLife ?c" "0 \<le> w_recency (weights ?c)" by (simp_all add: config_sel)
  have some: "scoreDoc latin1 ?c now notePlan planQuery \<noteq> None"
             "scoreDoc latin1 ?c now (notePlan\<lparr>mtime := ?m\<rparr>) planQuery \<noteq> None" for now
    by (subst same, simp add: score_notePlan) (simp add: score_notePlan)
  obtain o1 n1 where a: "scoreDoc latin1 ?c 1700000000000 notePlan planQuery = Some o1"
       "scoreDoc latin1 ?c 1700000000000 (notePlan\<lparr>mtime := ?m\<rparr>) planQuery = Some n1"
    using some [of 1700000000000] by auto
  obtain o2 n2 where b: "scoreDoc latin1 ?c 1700172800000 notePlan planQuery = Some o2"
       "scoreDoc latin1 ?c 1700172800000 (notePlan\<lparr>mtime := ?m\<rparr>) planQuery = Some n2"
    using some [of 1700172800000] by auto
  have ra: "sd_score o1 = sd_score n1"
    using recency_monotone [OF a(1) a(2) _ cfg ex latin1_exp(2)] by (simp add: mt)
  have rb: "sd_score o2 \<le> sd_score n2"
    using recency_monotone [OF b(1) b(2) _ cfg ex latin1_exp(2)] by (simp add: mt)
  show ?thesis
    using ra rb by (simp add: a b mt cfg latin1_exp(2))
qed

subsection \<open>The document limit\<close>

lemma docs_removeStep: "docs (removeStep i e st) = docs st"
  by (cases e) (simp add: removeStep_def Let_def)

lemma totalDocs_removeStep: "totalDocs (removeStep i e st) = totalDocs st"
  by (cases e) (simp add: removeStep_def Let_def)

lemma docs_fold_removeStep: "docs (fold (removeStep i) es st) = docs st"
  by (induction es arbitrary: st) (simp_all add: docs_removeStep)

lemma totalDocs_fold_removeStep: "totalDocs (fold (removeStep i) es st) = totalDocs st"
  by (induction es arbitrary: st) (simp_all add: totalDocs_removeStep)

lemma mapDelete_absent: "map_of m k = None \<Longrightarrow> mapDelete m k = m"
  by (induction m) (auto simp: mapDelete_def split: if_splits)

lemma docs_remove: "docs (remove st i) = mapDelete (docs st) i"
  by (simp add: remove_def mapGet_def docs_fold_removeStep mapDelete_absent split: option.splits)

lemma totalDocs_remove:
  "totalDocs (remove st i) = (if mapHas (docs st) i then totalDocs st - 1 else totalDocs st)"
  by (simp add: remove_def mapGet_def mapHas_def totalDocs_fold_removeStep split: option.splits)

lemma mapHas_mapDelete: "\<not> mapHas (mapDelete m k) k"
  by (induction m) (auto simp: mapHas_def mapDelete_def)

lemma mapHas_keys: "mapHas m k = (k \<in> fst ` set m)"
  by (simp add: mapHas_def map_of_eq_None_iff)

lemma distinct_mapDelete: "distinct (map fst m) \<Longrightarrow> distinct (map fst (mapDelete m k))"
  by (simp add: mapDelete_def distinct_map_filter)

lemma length_mapDelete:
  "distinct (map fst m) \<Longrightarrow> mapHas m k \<Longrightarrow> Suc (length (mapDelete m k)) = length m"
proof (induction m)
  case Nil
  then show ?case by (simp add: mapHas_def)
next
  case (Cons a m)
  show ?case
  proof (cases "fst a = k")
    case True
    then have "k \<notin> fst ` set m" using Cons.prems(1) by auto
    then have "mapDelete m k = m"
      by (simp add: mapDelete_absent map_of_eq_None_iff)
    with True show ?thesis by (cases a) (simp add: mapDelete_def)
  next
    case False
    then have "mapHas m k" using Cons.prems(2) by (cases a) (auto simp: mapHas_def)
    then have "Suc (length (mapDelete m k)) = length m" using Cons by simp
    with False show ?thesis by (cases a) (simp add: mapDelete_def)
  qed
qed

lemma mapSet_absent: "\<not> mapHas m k \<Longrightarrow> mapSet m k v = m @ [(k, v)]"
  by (simp add: mapSet_def)

lemma countInv_remove:
  assumes "countInv opts st"
  shows "countInv opts (remove st i)"
proof (cases "mapHas (docs st) i")
  case True
  have "Suc (length (mapDelete (docs st) i)) = length (docs st)"
    using assms True by (simp add: countInv_def length_mapDelete)
  then show ?thesis
    using assms True
    by (auto simp: countInv_def docs_remove totalDocs_remove distinct_mapDelete)
next
  case False
  then have "mapDelete (docs st) i = docs st"
    by (simp add: mapHas_def mapDelete_absent)
  then show ?thesis using assms False by (simp add: countInv_def docs_remove totalDocs_remove)
qed

lemma upsert_success_docs:
  assumes "\<not> mapHas (docs st1) (doc_id d)" "totalDocs st1 < int (maxDocs opts)"
  shows "\<exists>md. docs (snd (upsert u opts st1 d)) = docs st1 @ [(doc_id d, md)]
         \<and> totalDocs (snd (upsert u opts st1 d)) = totalDocs st1 + 1
         \<and> fst (upsert u opts st1 d) = None"
  using assms
  by (simp add: upsert_def Let_def docs_fold_fields totalDocs_fold_fields mapSet_absent)

lemma upsert_after_remove:
  "mapHas (docs st) (doc_id d) \<Longrightarrow> upsert u opts st d = upsert u opts (remove st (doc_id d)) d"
  by (simp add: upsert_def docs_remove mapHas_mapDelete)

lemma countInv_upsert:
  assumes "countInv opts st"
  shows "countInv opts (snd (upsert u opts st d))"
proof -
  define st1 where "st1 = (if mapHas (docs st) (doc_id d) then remove st (doc_id d) else st)"
  have inv1: "countInv opts st1" using assms by (simp add: st1_def countInv_remove)
  have absent: "\<not> mapHas (docs st1) (doc_id d)"
    by (simp add: st1_def docs_remove mapHas_mapDelete)
  have same: "upsert u opts st d = upsert u opts st1 d"
    by (simp add: st1_def upsert_after_remove)
  show ?thesis
  proof (cases "totalDocs st1 \<ge> int (maxDocs opts)")
    case True
    then have "upsert u opts st1 d = (Some (MaxDocsReached (maxDocs opts)), st1)"
      using absent by (simp add: upsert_def)
    then show ?thesis using inv1 same by simp
  next
    case False
    then obtain md where md: "docs (snd (upsert u opts st1 d)) = docs st1 @ [(doc_id d, md)]"
        "totalDocs (snd (upsert u opts st1 d)) = totalDocs st1 + 1"
      using upsert_success_docs [OF absent, of opts u] by auto
    have "doc_id d \<notin> fst ` set (docs st1)" using absent by (simp add: mapHas_keys)
    then show ?thesis
      using inv1 False md same by (auto simp: countInv_def)
  qed
qed

lemma countInv_clear: "countInv opts clear"
  by (simp add: countInv_def clear_def)

lemma countInv_upsertAll:
  "countInv opts st \<Longrightarrow> countInv opts (snd (upsertAll u opts st ds))"
proof (induction ds arbitrary: st)
  case Nil
  then show ?case by simp
next
  case (Cons d ds)
  have step: "countInv opts (snd (upsert u opts st d))"
    using Cons.prems by (rule countInv_upsert)
  show ?case
  proof (cases "upsert u opts st d")
    case (Pair e st')
    with step have inv': "countInv opts st'" by simp
    show ?thesis
    proof (cases e)
      case None
      with Pair show ?thesis using Cons.IH [OF inv'] by simp
    next
      case (Some err)
      with Pair inv' show ?thesis by simp
    qed
  qed
qed

lemma reachable_countInv: "reachable u opts st \<Longrightarrow> countInv opts st"
proof (induction rule: reachable.induct)
  case reach_new
  show ?case by (rule countInv_clear)
next
  case (reach_upsert st d)
  then show ?case by (simp add: countInv_upsert)
next
  case (reach_remove st i)
  then show ?case by (simp add: countInv_remove)
next
  case (reach_indexAll st ds)
  show ?case by (simp add: indexAll_def countInv_upsertAll countInv_clear)
qed

text \<open>
  C5: in every state that the operations can reach, the number of documents is at most
  \<open>maxDocs\<close>; an \<open>upsert\<close> of a document with a new id that would exceed \<open>maxDocs\<close>
  throws the capacity error and leaves the state as it was; an \<open>upsert\<close> of a document
  whose id is present succeeds, also at the limit, and keeps the number of documents.
\<close>

theorem upsert_respects_maxDocs:
  assumes "reachable u opts st"
  shows "length (docs st) \<le> maxDocs opts
         \<and> (\<not> mapHas (docs st) (doc_id d) \<and> maxDocs opts < length (docs st) + 1
              \<longrightarrow> upsert u opts st d = (Some (MaxDocsReached (maxDocs opts)), st))
         \<and> (mapHas (docs st) (doc_id d)
              \<longrightarrow> fst (upsert u opts st d) = None
                  \<and> length (docs (snd (upsert u opts st d))) = length (docs st))"
proof -
  have inv: "countInv opts st" using assms by (rule reachable_countInv)
  then have bound: "length (docs st) \<le> maxDocs opts" by (simp add: countInv_def)
  have full: "upsert u opts st d = (Some (MaxDocsReached (maxDocs opts)), st)"
    if "\<not> mapHas (docs st) (doc_id d)" "maxDocs opts < length (docs st) + 1"
  proof -
    have "totalDocs st \<ge> int (maxDocs opts)" using inv that(2) by (simp add: countInv_def)
    then show ?thesis using that(1) by (simp add: upsert_def)
  qed
  have replace: "fst (upsert u opts st d) = None
                 \<and> length (docs (snd (upsert u opts st d))) = length (docs st)"
    if has: "mapHas (docs st) (doc_id d)"
  proof -
    let ?st1 = "remove st (doc_id d)"
    have absent: "\<not> mapHas (docs ?st1) (doc_id d)" by (simp add: docs_remove mapHas_mapDelete)
    have len: "Suc (length (docs ?st1)) = length (docs st)"
      using inv has by (simp add: countInv_def docs_remove length_mapDelete)
    have "totalDocs ?st1 = totalDocs st - 1" using has by (simp add: totalDocs_remove)
    then have room: "totalDocs ?st1 < int (maxDocs opts)"
      using inv len by (simp add: countInv_def)
    obtain md where md: "docs (snd (upsert u opts ?st1 d)) = docs ?st1 @ [(doc_id d, md)]"
        "fst (upsert u opts ?st1 d) = None"
      using upsert_success_docs [OF absent room, of u] by auto
    show ?thesis using md len has by (simp add: upsert_after_remove)
  qed
  show ?thesis using bound full replace by blast
qed

lemma capOne_sel: "0 < maxDocs capOne" "diacritics (scorerConfigOf capOne)" "maxDocs capOne = 1"
  by (simp_all add: capOne_def defaultOptions_def DEFAULT_SCORER_CONFIG_def)

theorem upsert_respects_maxDocs_witness:
  "reachable latin1 capOne statePlan
   \<and> length (docs statePlan) \<le> maxDocs capOne
   \<and> \<not> mapHas (docs statePlan) (doc_id noteOther)
   \<and> maxDocs capOne < length (docs statePlan) + 1
   \<and> upsert latin1 capOne statePlan noteOther = (Some (MaxDocsReached 1), statePlan)
   \<and> mapHas (docs statePlan) (doc_id notePlan)
   \<and> fst (upsert latin1 capOne statePlan notePlan) = None
   \<and> length (docs (snd (upsert latin1 capOne statePlan notePlan))) = length (docs statePlan)"
proof -
  have r: "reachable latin1 capOne statePlan"
    using reach_upsert [OF reach_new, of latin1 capOne notePlan]
    by (simp add: statePlan_built [OF capOne_sel(1,2)])
  have absent: "\<not> mapHas (docs statePlan) (doc_id noteOther)"
    by (simp add: statePlan_def noteOther_def mapHas_def js_def)
  have present: "mapHas (docs statePlan) (doc_id notePlan)"
    by (simp add: statePlan_def notePlan_def mapHas_def)
  have full: "maxDocs capOne < length (docs statePlan) + 1"
    by (simp add: statePlan_def capOne_sel(3))
  show ?thesis
    using upsert_respects_maxDocs [OF r, of noteOther] upsert_respects_maxDocs [OF r, of notePlan]
          r absent present full
    by (simp add: capOne_sel(3))
qed

subsection \<open>The flags of a regex in the query\<close>

lemma findRegexAt_flags:
  "findRegexAt s off = Some (st, pat, fl, len) \<Longrightarrow> fl = [] \<or> fl = js ''i''"
  by (induction s off rule: findRegexAt.induct)
     (auto simp: js_def flagGroup_def split: if_splits option.splits list.splits)

lemma extractRegex_flags:
  "fst (extractRegex u remaining) = Some (src, fl) \<Longrightarrow> fl = [] \<or> fl = js ''i''"
  by (auto simp: extractRegex_def Let_def split: option.splits prod.splits dest: findRegexAt_flags)

lemma parse_flags:
  "regex (parseQuery u input settings) = Some (src, fl) \<Longrightarrow> fl = [] \<or> fl = js ''i''"
  by (auto simp: parseQuery_def parseQueryWithErrors_def Let_def split: if_splits dest: extractRegex_flags)

lemma slashesEscaped_hd: "slashesEscaped s \<Longrightarrow> s \<noteq> [] \<Longrightarrow> hd s \<noteq> 47"
  by (induction s rule: slashesEscaped.induct) (auto split: if_splits)

lemma lazyBody_escaped:
  "P \<noteq> [] \<Longrightarrow> slashesEscaped P \<Longrightarrow> lazyBody acc (P @ 47 # F) = Some (acc @ P, F)"
proof (induction P arbitrary: acc rule: slashesEscaped.induct)
  case 1
  then show ?case by simp
next
  case (2 c)
  then show ?case by simp
next
  case (3 c d r)
  show ?case
  proof (cases "c = 92 \<and> d = 47")
    case True
    then have r: "slashesEscaped r" using 3(4) by simp
    show ?thesis
    proof (cases r)
      case Nil
      then show ?thesis using True by simp
    next
      case (Cons e r')
      then have "e \<noteq> 47" using slashesEscaped_hd [OF r] by simp
      moreover have "lazyBody (acc @ [c, d]) (r @ 47 # F) = Some ((acc @ [c, d]) @ r, F)"
        using 3(1) [OF True _ r] Cons by simp
      ultimately show ?thesis using True Cons by simp
    qed
  next
    case False
    then have c: "c \<noteq> 47" and dr: "slashesEscaped (d # r)" using 3(4) by simp_all
    have d: "d \<noteq> 47" using slashesEscaped_hd [OF dr] by simp
    have "lazyBody (acc @ [c]) ((d # r) @ 47 # F) = Some ((acc @ [c]) @ d # r, F)"
      using 3(2) [OF False _ dr] by simp
    then show ?thesis using False c d by auto
  qed
qed

lemma findRegexAt_skip: "47 \<notin> set A \<Longrightarrow> findRegexAt (A @ s) off = findRegexAt s (off + length A)"
  by (induction A arbitrary: off) simp_all

lemma findRegexAt_first:
  assumes "47 \<notin> set A" "P \<noteq> []" "slashesEscaped P"
  shows "findRegexAt (A @ 47 # P @ 47 # F) 0
         = Some (length A, P, flagGroup F, 2 + length P + length (flagGroup F))"
  using assms by (simp add: findRegexAt_skip lazyBody_escaped Let_def)

lemma parse_regex:
  assumes files: "\<not> isCommandsQuery (trim input) settings"
      and rem: "trim (removeQuoted (trim input)) = A @ 47 # P @ 47 # F"
      and A: "47 \<notin> set A" and P: "P \<noteq> []" "slashesEscaped P"
  shows "regex (parseQuery u input settings)
         = (if compileRegExp u P (flagGroup F) = None then None else Some (P, flagGroup F))"
proof -
  have "fst (extractRegex u (A @ 47 # P @ 47 # F))
        = (if compileRegExp u P (flagGroup F) = None then None else Some (P, flagGroup F))"
    by (simp add: extractRegex_def findRegexAt_first [OF A P] Let_def split: option.splits
             del: findRegexAt.simps)
  then show ?thesis
    using files by (simp add: parseQuery_def parseQueryWithErrors_def rem Let_def)
qed

lemma trim_id: "s \<noteq> [] \<Longrightarrow> \<not> isSpace (hd s) \<Longrightarrow> \<not> isSpace (last s) \<Longrightarrow> trim s = s"
proof -
  assume a: "s \<noteq> []" "\<not> isSpace (hd s)" "\<not> isSpace (last s)"
  have 1: "dropWhile isSpace s = s" using a(1,2) by (cases s) auto
  obtain ys y where s: "s = ys @ [y]" using a(1) by (cases s rule: rev_cases) auto
  then have "\<not> isSpace y" using a(3) by simp
  then have 2: "dropWhile isSpace (rev s) = rev s" using s by simp
  show ?thesis by (simp add: trim_def 1 2)
qed

lemma trim_Nil: "trim [] = []"
  by (simp add: trim_def)

lemma removeQuoted_plain: "34 \<notin> set s \<Longrightarrow> removeQuoted s = s"
proof (induction s)
  case Nil
  show ?case by (subst removeQuoted.simps) simp
next
  case (Cons c s)
  then show ?case by (subst removeQuoted.simps) auto
qed

lemma runsOf_all: "\<forall>c\<in>set s. p c \<Longrightarrow> runsOf p cur s = (if cur @ s = [] then [] else [cur @ s])"
  by (induction s arbitrary: cur) simp_all

text \<open>The letters that the specification lists as flags are no white space.\<close>

lemma flagLetters_noSpace: "set L \<subseteq> set (js ''gimsuy'') \<Longrightarrow> c \<in> set L \<Longrightarrow> \<not> isSpace c"
  by (auto simp: js_def isSpace_def)

text \<open>A token made of those letters is an ordinary term.\<close>

lemma tokenStep_flagLetters:
  assumes "t \<noteq> []" "set t \<subseteq> set (js ''gimsuy'')" "\<not> inOrGroup ts"
  shows "tokenStep t [] ts = ts\<lparr> ts_terms := ts_terms ts @ [t] \<rparr>"
proof -
  obtain c cs where t: "t = c # cs" using assms(1) by (cases t) auto
  have c: "c \<in> {103, 105, 109, 115, 117, 121}" using assms(2) t by (auto simp: js_def)
  have cs: "cs = [] \<or> hd cs \<in> {103, 105, 109, 115, 117, 121}"
    using assms(2) t by (cases cs) (auto simp: js_def)
  have "\<not> isOrToken t" using c t by (auto simp: isOrToken_def js_def asciiUpper_def)
  moreover have "\<not> startsWith t (js ''-'')" "t \<noteq> js ''#''" "t \<noteq> js ''@''"
      "\<not> startsWith t (js ''tag:'')" "\<not> startsWith t (js ''#'')" "\<not> startsWith t (js ''path:'')"
    using c t by (auto simp: js_def)
  moreover have "\<not> startsWith t (js ''in:'')"
    using c cs t by (cases cs) (auto simp: js_def)
  ultimately show ?thesis
    using assms(3) by (simp add: tokenStep_def nextIsOr_def)
qed

lemma parse_flag_letters:
  assumes files: "\<not> isCommandsQuery (47 # P @ 47 # L) settings"
      and P: "P \<noteq> []" "slashesEscaped P" "34 \<notin> set P"
      and L: "set L \<subseteq> set (js ''gimsuy'')"
  shows "terms (parseQuery u (47 # P @ 47 # L) settings)
         = (if drop (length (flagGroup L)) L = [] then [] else [drop (length (flagGroup L)) L])"
proof -
  let ?s = "47 # P @ 47 # L"
  let ?rest = "drop (length (flagGroup L)) L"
  have nsp: "\<not> isSpace 47" by (simp add: isSpace_def)
  have Lsp: "\<not> isSpace c" if "c \<in> set L" for c using L that by (rule flagLetters_noSpace)
  have "\<not> isSpace (last ?s)" using nsp Lsp [of "last L"] by (cases "L = []") simp_all
  then have t: "trim ?s = ?s" using nsp by (intro trim_id) simp_all
  have "34 \<notin> set L" using L by (auto simp: js_def)
  then have q: "removeQuoted ?s = ?s" using P(3) by (intro removeQuoted_plain) auto
  have f: "findRegexAt ?s 0 = Some (0, P, flagGroup L, 2 + length P + length (flagGroup L))"
    using findRegexAt_first [of "[]" P L] P(1,2) by simp
  have restsp: "\<forall>c\<in>set ?rest. \<not> isSpace c" using Lsp by (auto dest: in_set_dropD)
  have tr: "trim ?rest = ?rest"
  proof (cases "?rest = []")
    case True
    then show ?thesis by (simp add: trim_Nil)
  next
    case False
    have "hd ?rest \<in> set ?rest" using False by (rule hd_in_set)
    moreover have "last ?rest \<in> set ?rest" using False by (rule last_in_set)
    ultimately have "\<not> isSpace (hd ?rest)" "\<not> isSpace (last ?rest)" using restsp by blast+
    then show ?thesis using False by (intro trim_id)
  qed
  have d: "drop (2 + length P + length (flagGroup L)) ?s = ?rest" by simp
  have rest: "snd (snd (extractRegex u ?s)) = ?rest"
    by (simp add: extractRegex_def f Let_def tr d split: option.splits del: findRegexAt.simps)
  have toks: "runsOf (\<lambda>c. \<not> isSpace c) [] ?rest = (if ?rest = [] then [] else [?rest])"
    using runsOf_all [OF restsp, of "[]"] by simp
  have restL: "set ?rest \<subseteq> set (js ''gimsuy'')" using L by (auto dest: in_set_dropD)
  show ?thesis
  proof (cases "?rest = []")
    case True
    then show ?thesis
      using files by (simp add: parseQuery_def parseQueryWithErrors_def t q rest toks Let_def
                           finishTokens_def)
  next
    case False
    then show ?thesis
      using files
      by (simp add: parseQuery_def parseQueryWithErrors_def t q rest toks Let_def
               tokenStep_flagLetters [OF False restL] finishTokens_def)
  qed
qed

lemma pq: "parseQueryWithErrors latin1 (js ''/pat/g'') defaultSettings
   = \<lparr> resultQuery = \<lparr> raw = js ''/pat/g'', mode = Files, terms = [js ''g''], phrases = [],
                         excludes = [], orGroups = [], filters = noFilters, regex = Some (js ''pat'', []) \<rparr>,
       resultErrors = [] \<rparr>"
  by (simp add: parseQueryWithErrors_def js_def defaultSettings_def trim_def isSpace_def isCommandsQuery_def
      extractPhrases.simps removeQuoted.simps extractRegex_def flagGroup_def latin1_def validFlags_def
      latin1Alnum_def asciiAlnum_def
      tokenStep_def isOrToken_def asciiUpper_def finishTokens_def nextIsOr_def endOrGroup_def noFilters_def)

text \<open>
  C7 fails at the input \<open>/pat/g\<close>, although \<open>pat\<close> compiles with the flag \<open>g\<close>: the
  parser keeps the regex \<open>pat\<close> with no flag, and the letter \<open>g\<close> stays behind as an
  ordinary term.
\<close>

theorem regex_flag_g_counterexample:
  "compileRegExp latin1 (js ''pat'') (js ''g'') = Some (literalMatcher (js ''pat''))
   \<and> regex (parseQuery latin1 (js ''/pat/g'') defaultSettings) = Some (js ''pat'', [])
   \<and> terms (parseQuery latin1 (js ''/pat/g'') defaultSettings) = [js ''g'']"
  by (simp add: parseQuery_def pq) (simp add: latin1_def validFlags_def js_def asciiAlnum_def)

text \<open>
  C7, amended: the only flag that the parser recognises is \<open>i\<close>.

  \<^item> Whatever the input, a regex that the parser keeps has the flags \<open>''\<close> or \<open>i\<close>.
  \<^item> Take any input in files mode, and the text that is left of it once it is trimmed,
    the quoted phrases are removed and it is trimmed again. If that text is \<open>A/P/F\<close>,
    with no slash in \<open>A\<close>, and \<open>P\<close> not empty with every slash escaped, then the parser
    keeps the regex \<open>P\<close>, with the flag \<open>i\<close> when \<open>F\<close> begins with \<open>i\<close> and with no flag
    otherwise, provided \<open>P\<close> compiles with that flag; it keeps no regex when \<open>P\<close> does not
    compile.
  \<^item> For an input that is exactly \<open>/P/L\<close> in files mode, with such a \<open>P\<close> without a
    double quote and \<open>L\<close> a string of the letters \<open>g\<close>, \<open>i\<close>, \<open>m\<close>, \<open>s\<close>, \<open>u\<close>, \<open>y\<close>, the
    letters of \<open>L\<close> after a leading \<open>i\<close> are not flags: they form the one ordinary term
    of the query, and there is no term when none is left.
\<close>

theorem parser_keeps_flag_i_only:
  "(regex (parseQuery u input settings) = Some (src, fl) \<longrightarrow> fl = [] \<or> fl = js ''i'')
   \<and> (\<not> isCommandsQuery (trim input) settings
        \<and> trim (removeQuoted (trim input)) = A @ 47 # P @ 47 # F
        \<and> 47 \<notin> set A \<and> P \<noteq> [] \<and> slashesEscaped P
      \<longrightarrow> regex (parseQuery u input settings)
            = (if compileRegExp u P (flagGroup F) = None then None else Some (P, flagGroup F)))
   \<and> (\<not> isCommandsQuery (47 # P @ 47 # L) settings
        \<and> P \<noteq> [] \<and> slashesEscaped P \<and> 34 \<notin> set P \<and> set L \<subseteq> set (js ''gimsuy'')
      \<longrightarrow> terms (parseQuery u (47 # P @ 47 # L) settings)
            = (if drop (length (flagGroup L)) L = [] then [] else [drop (length (flagGroup L)) L]))"
  using parse_flags [of u input settings src fl] parse_regex [of input settings A P F u]
        parse_flag_letters [of P L settings u]
  by blast

theorem parser_keeps_flag_i_only_witness:
  "\<not> isCommandsQuery (trim (js ''foo /pat/ig bar'')) defaultSettings
   \<and> trim (removeQuoted (trim (js ''foo /pat/ig bar''))) = js ''foo '' @ 47 # js ''pat'' @ 47 # js ''ig bar''
   \<and> 47 \<notin> set (js ''foo '') \<and> js ''pat'' \<noteq> [] \<and> slashesEscaped (js ''pat'')
   \<and> compileRegExp latin1 (js ''pat'') (js ''i'') = Some (caselessMatcher (js ''pat''))
   \<and> regex (parseQuery latin1 (js ''foo /pat/ig bar'') defaultSettings) = Some (js ''pat'', js ''i'')
   \<and> \<not> isCommandsQuery (js ''/pat/ig'') defaultSettings
   \<and> 34 \<notin> set (js ''pat'') \<and> set (js ''ig'') \<subseteq> set (js ''gimsuy'')
   \<and> terms (parseQuery latin1 (js ''/pat/ig'') defaultSettings) = [js ''g'']"
proof -
  let ?in = "js ''foo /pat/ig bar''"
  have tr: "trim ?in = ?in" by (simp add: trim_def js_def isSpace_def)
  have files: "\<not> isCommandsQuery (trim ?in) defaultSettings"
    by (simp add: tr) (simp add: isCommandsQuery_def defaultSettings_def js_def)
  have rq: "removeQuoted ?in = ?in" by (rule removeQuoted_plain) (simp add: js_def)
  have rem: "trim (removeQuoted (trim ?in)) = js ''foo '' @ 47 # js ''pat'' @ 47 # js ''ig bar''"
    by (simp add: tr rq) (simp add: js_def)
  have h: "47 \<notin> set (js ''foo '')" "js ''pat'' \<noteq> []" "slashesEscaped (js ''pat'')"
          "34 \<notin> set (js ''pat'')" "set (js ''ig'') \<subseteq> set (js ''gimsuy'')"
    by (simp_all add: js_def)
  have fg: "flagGroup (js ''ig bar'') = js ''i''" "flagGroup (js ''ig'') = js ''i''"
    by (simp_all add: flagGroup_def js_def)
  have c: "compileRegExp latin1 (js ''pat'') (js ''i'') = Some (caselessMatcher (js ''pat''))"
    by (simp add: latin1_def validFlags_def js_def asciiAlnum_def)
  have files2: "\<not> isCommandsQuery (47 # js ''pat'' @ 47 # js ''ig'') defaultSettings"
    by (simp add: isCommandsQuery_def defaultSettings_def js_def)
  have e: "js ''/pat/ig'' = 47 # js ''pat'' @ 47 # js ''ig''" by (simp add: js_def)
  note inst = parser_keeps_flag_i_only [of latin1 ?in defaultSettings "js ''pat''" "js ''i''"
               "js ''foo ''" "js ''pat''" "js ''ig bar''" "js ''ig''"]
  have r1: "regex (parseQuery latin1 ?in defaultSettings) = Some (js ''pat'', js ''i'')"
    using inst files rem h(1-3) by (simp add: fg c)
  have r2: "terms (parseQuery latin1 (47 # js ''pat'' @ 47 # js ''ig'') defaultSettings) = [js ''g'']"
    using inst files2 h(2-5) by (simp add: fg) (simp add: js_def)
  show ?thesis
    using files rem h c r1 r2 files2 by (simp add: e)
qed

subsection \<open>The regex filter and the order of the documents\<close>

lemma fix_built: "indexAll latin1 defaultOptions st [noteReport, noteFix] = (None, stateFix)"
  by (simp add: indexAll_def ev defaultOptions_sel noteReport_def noteFix_def stateFix_def entryOf_def)

lemma fixOnly_built: "indexAll latin1 defaultOptions st [noteFix] = (None, stateFixOnly)"
  by (simp add: indexAll_def ev defaultOptions_sel noteFix_def stateFixOnly_def entryOf_def)

lemmas sf_ev = double_values scoreField_def textOf_def config_sel js_def normalize_latin1 tokenize_latin1
       latin1Lower_def asciiLower_def latin1Alnum_def asciiAlnum_def st_prefix st_far indexOf_def

lemma score_noteReport:
  "scoreDoc latin1 DEFAULT_SCORER_CONFIG now0 noteReport fixQuery
   = Some \<lparr> sd_score = 17/4, sd_matchSpans = [\<lparr>span_field = Title, span_start = 0, span_end = 6\<rparr>] \<rparr>"
  by (simp add: scoreDoc_def isExcluded_def fieldValues_def noteReport_def fixQuery_def emptyQuery_def
        scorePhrases_def weightOf_def sf_ev recency_cap_latin1 now0_def double_values)

lemma score_noteFix:
  "scoreDoc latin1 DEFAULT_SCORER_CONFIG now0 noteFix fixQuery
   = Some \<lparr> sd_score = 9/4, sd_matchSpans = [\<lparr>span_field = Headings, span_start = 0, span_end = 6\<rparr>] \<rparr>"
  by (simp add: scoreDoc_def isExcluded_def fieldValues_def noteFix_def fixQuery_def emptyQuery_def
        scorePhrases_def weightOf_def sf_ev recency_cap_latin1 now0_def double_values)

lemma cands_fix: "gatherCandidates latin1 defaultOptions stateFix fixQuery = [js ''report.md'', js ''fix.md'']"
  by (simp add: gatherCandidates_def postingCandidates_def fixQuery_def emptyQuery_def stateFix_def entryOf_def
        defaultOptions_sel config_sel js_def normalize_latin1 latin1Lower_def asciiLower_def
        mapGet_def addDocIds_def setAdd_def intersectAll_def)

lemma compile_latin1:
  "compileRegExp latin1 source flags =
     (if source \<noteq> [] \<and> list_all asciiAlnum source \<and> validFlags flags
      then Some (let m = (if 105 \<in> set flags then caselessMatcher source else literalMatcher source)
                 in if 121 \<in> set flags then stickyMatcher m else m)
      else None)"
  by (simp add: latin1_def)

lemmas heap_ev = double_values push_def pop_def heapifyUp.simps heapifyDown.simps minIndexOf_def swap_def
  createSearchResultHeap_def createHeap_def extractAll.simps toArray_def

lemma loop_fix:
  "scoreCandidates latin1 defaultOptions now0 stateFix fixQuery 10 [js ''report.md'', js ''fix.md'']
      \<lparr> topResults = createSearchResultHeap 10, yieldedIds = [], processedCount = 0, yielded = [] \<rparr>
   = \<lparr> topResults = \<lparr> items = [resFix, resReport], maxSize = 10, compare = (\<lambda>a b. double (score a - score b)) \<rparr>,
       yieldedIds = [], processedCount = 2, yielded = [] \<rparr>"
  by (simp add: stateFix_def mapGet_def js_def defaultOptions_sel score_noteReport [unfolded js_def]
        score_noteFix [unfolded js_def] heap_ev resFix_def resReport_def)

lemma extract_fix:
  "extractAll \<lparr> items = [resFix, resReport], maxSize = 10, compare = (\<lambda>a b. double (score a - score b)) \<rparr>
   = [resFix, resReport]"
  by (simp add: heap_ev resFix_def resReport_def)

lemma filter_fix:
  "regexFiltered latin1 defaultOptions stateFix [resReport, resFix] (js ''fix'', []) = Some [resReport]"
  by (simp add: regexFiltered_def globalFlags_def includesStr_def indexOf_def compile_latin1 validFlags_def js_def latin1Alnum_def asciiAlnum_def
        defaultOptions_def stateFix_def mapGet_def resReport_def resFix_def noteReport_def noteFix_def
        regexTest_def literalMatcher_def findRegexMatches_def matchAllFrom.simps)

lemma run_fix:
  "runStream latin1 defaultOptions now0 stateFix fixQuery 10
   = \<lparr> partialYields = [], regexTouched = [resReport], finalYields = [resReport] \<rparr>"
proof -
  have rx: "regex fixQuery = Some (js ''fix'', [])" by (simp add: fixQuery_def emptyQuery_def)
  show ?thesis
    unfolding runStream_def cands_fix Let_def loop_fix
    by (simp add: extract_fix rx applyRegexFilter_def filter_fix)
qed

lemma query_fix:
  "query latin1 defaultOptions now0 stateFix fixQuery 10 = [resReport]"
proof -
  have ne: "\<not> isEmpty fixQuery" by (simp add: isEmpty_def fixQuery_def emptyQuery_def)
  show ?thesis
    by (simp add: query_def ne run_fix refreshed_def Let_def)
qed

lemma cands_fixOnly: "gatherCandidates latin1 defaultOptions stateFixOnly fixQuery = [js ''fix.md'']"
  by (simp add: gatherCandidates_def postingCandidates_def fixQuery_def emptyQuery_def stateFixOnly_def entryOf_def
        defaultOptions_sel config_sel js_def normalize_latin1 latin1Lower_def asciiLower_def
        mapGet_def addDocIds_def setAdd_def intersectAll_def)

lemma loop_fixOnly:
  "scoreCandidates latin1 defaultOptions now0 stateFixOnly fixQuery 10 [js ''fix.md'']
      \<lparr> topResults = createSearchResultHeap 10, yieldedIds = [], processedCount = 0, yielded = [] \<rparr>
   = \<lparr> topResults = \<lparr> items = [resFix], maxSize = 10, compare = (\<lambda>a b. double (score a - score b)) \<rparr>,
       yieldedIds = [], processedCount = 1, yielded = [] \<rparr>"
  by (simp add: stateFixOnly_def mapGet_def js_def defaultOptions_sel
        score_noteFix [unfolded js_def] heap_ev resFix_def)

lemma extract_fixOnly:
  "extractAll \<lparr> items = [resFix], maxSize = 10, compare = (\<lambda>a b. double (score a - score b)) \<rparr> = [resFix]"
  by (simp add: heap_ev resFix_def)

lemma filter_fixOnly:
  "regexFiltered latin1 defaultOptions stateFixOnly [resFix] (js ''fix'', []) = Some [resFix]"
  by (simp add: regexFiltered_def globalFlags_def includesStr_def indexOf_def compile_latin1 validFlags_def js_def latin1Alnum_def asciiAlnum_def
        defaultOptions_def stateFixOnly_def mapGet_def resFix_def noteFix_def
        regexTest_def literalMatcher_def findRegexMatches_def matchAllFrom.simps)

lemma run_fixOnly:
  "runStream latin1 defaultOptions now0 stateFixOnly fixQuery 10
   = \<lparr> partialYields = [], regexTouched = [resFix], finalYields = [resFix] \<rparr>"
proof -
  have rx: "regex fixQuery = Some (js ''fix'', [])" by (simp add: fixQuery_def emptyQuery_def)
  show ?thesis
    unfolding runStream_def cands_fixOnly Let_def loop_fixOnly
    by (simp add: extract_fixOnly rx applyRegexFilter_def filter_fixOnly)
qed

lemma query_fixOnly:
  "query latin1 defaultOptions now0 stateFixOnly fixQuery 10 = [resFix]"
proof -
  have ne: "\<not> isEmpty fixQuery" by (simp add: isEmpty_def fixQuery_def emptyQuery_def)
  show ?thesis
    by (simp add: query_def ne run_fixOnly refreshed_def Let_def)
qed

lemma title_matches:
  "compileRegExp latin1 (js ''fix'') (globalFlags []) = Some (literalMatcher (js ''fix''))
   \<and> regexTest (literalMatcher (js ''fix'')) 0 (title noteFix) = (True, 3)"
  by (simp add: globalFlags_def includesStr_def indexOf_def compile_latin1 validFlags_def js_def latin1Alnum_def asciiAlnum_def
        noteFix_def regexTest_def literalMatcher_def)

text \<open>
  C4, at the failing input. The index holds \<open>report.md\<close> (title \<open>report fix\<close>) and
  \<open>fix.md\<close> (title \<open>fix it\<close>, heading \<open>report\<close>); the query has the term \<open>report\<close>, the
  regex \<open>/fix/\<close> and the limit 10. The regex compiles, and the title of \<open>fix.md\<close>
  matches it. Yet \<open>query\<close> returns \<open>report.md\<close> alone, and with the term span only:
  the test of the first title leaves \<open>lastIndex\<close> at 10, where \<open>matchAll\<close> and the
  test of the next title start. With \<open>fix.md\<close> alone in the index, \<open>query\<close> returns it.
\<close>

theorem regex_filter_drops_matching_title:
  "compileRegExp latin1 (js ''fix'') (globalFlags []) = Some (literalMatcher (js ''fix''))
   \<and> regexTest (literalMatcher (js ''fix'')) 0 (title noteFix) = (True, 3)
   \<and> query latin1 defaultOptions now0
        (snd (indexAll latin1 defaultOptions clear [noteReport, noteFix])) fixQuery 10 = [resReport]
   \<and> query latin1 defaultOptions now0
        (snd (indexAll latin1 defaultOptions clear [noteFix])) fixQuery 10 = [resFix]"
  using title_matches by (simp add: fix_built fixOnly_built query_fix query_fixOnly)

subsection \<open>A query over a hundred and one candidates\<close>

lemma noteId_inj: "noteId i = noteId j \<Longrightarrow> i = j"
proof -
  assume "noteId i = noteId j"
  then have e: "i div 100 = j div 100" "i div 10 mod 10 = j div 10 mod 10" "i mod 10 = j mod 10"
    by (simp_all add: noteId_def)
  have "i div 10 = 10 * (i div 10 div 10) + i div 10 mod 10" by simp
  also have "i div 10 div 10 = i div 100" by (simp add: div_mult2_eq)
  finally have i: "i div 10 = 10 * (i div 100) + i div 10 mod 10" .
  have "j div 10 = 10 * (j div 10 div 10) + j div 10 mod 10" by simp
  also have "j div 10 div 10 = j div 100" by (simp add: div_mult2_eq)
  finally have j: "j div 10 = 10 * (j div 100) + j div 10 mod 10" .
  have "i div 10 = j div 10" using i j e by simp
  moreover have "i = 10 * (i div 10) + i mod 10" "j = 10 * (j div 10) + j mod 10" by simp_all
  ultimately show ?thesis using e(3) by metis
qed

lemma noteId_eq [simp]: "(noteId i = noteId j) = (i = j)"
  using noteId_inj by auto

lemma map_of_many_absent: "n \<le> k \<Longrightarrow> map_of (map (\<lambda>i. (noteId i, f i)) [0 ..< n]) (noteId k) = None"
  by (auto simp: map_of_eq_None_iff)

lemma map_of_many: "k < n \<Longrightarrow> map_of (map (\<lambda>i. (noteId i, f i)) [0 ..< n]) (noteId k) = Some (f k)"
proof (induction n)
  case 0
  then show ?case by simp
next
  case (Suc n)
  show ?case
  proof (cases "k < n")
    case True
    then show ?thesis using Suc.IH by (simp add: map_add_def)
  next
    case False
    then have "k = n" using Suc.prems by simp
    then show ?thesis by (simp add: map_add_def map_of_many_absent)
  qed
qed

lemma tok_a: "tokenizeWords latin1 (js ''a'') True = [js ''a'']" "tokenizeWords latin1 [] True = []"
  by (simp_all add: tokenize_latin1 js_def latin1Lower_def asciiLower_def latin1Alnum_def asciiAlnum_def)

lemma pos_a: "tokenPositions latin1 True [js ''a''] = [(js ''a'', [0])]" "tokenPositions latin1 True [] = []"
  by (simp_all add: tokenPositions_def normalize_latin1 js_def latin1Lower_def asciiLower_def mapGet_def mapSet_def mapHas_def)

lemma fieldTokens_low:
  "n < 100 \<Longrightarrow>
   map (\<lambda>(f, content). (f, tokenizeWords latin1 content True))
       (indexedFields (processedDoc defaultOptions (noteN n)))
   = [(Title, []), (Path, []), (Headings, []), (Tags, [js ''a'']), (Symbols, []), (Body, [])]"
  by (simp add: indexedFields_def processedDoc_def noteN_def tok_a)

lemma fieldTokens_high:
  "\<not> n < 100 \<Longrightarrow>
   map (\<lambda>(f, content). (f, tokenizeWords latin1 content True))
       (indexedFields (processedDoc defaultOptions (noteN n)))
   = [(Title, [js ''a'']), (Path, []), (Headings, []), (Tags, []), (Symbols, []), (Body, [])]"
  by (simp add: indexedFields_def processedDoc_def noteN_def tok_a)

lemma processedDoc_noteN: "processedDoc defaultOptions (noteN n) = noteN n"
  by (simp add: processedDoc_def noteN_def)

lemma addPosting_first:
  "index st = [] \<Longrightarrow> df st = [] \<Longrightarrow>
   addPosting i f (js ''a'', [0]) st = st\<lparr> index := [(js ''a'', [entryOf i f])], df := [(js ''a'', 1)] \<rparr>"
  by (simp add: addPosting_def mapGet_def mapSet_def mapHas_def entryOf_def)

lemma addPosting_next:
  "index st = [(js ''a'', pl)] \<Longrightarrow> df st = [(js ''a'', c)] \<Longrightarrow>
   addPosting i f (js ''a'', [0]) st
   = st\<lparr> index := [(js ''a'', pl @ [entryOf i f])], df := [(js ''a'', c + 1)] \<rparr>"
  by (simp add: addPosting_def mapGet_def mapSet_def mapHas_def entryOf_def)

lemma stateMany_sel:
  "docs (stateMany n) = map (\<lambda>i. (noteId i, metaN i)) [0 ..< n]"
  "totalDocs (stateMany n) = int n"
  "index (stateMany n) = (if n = 0 then []
                 else [(js ''a'', map (\<lambda>i. entryOf (noteId i) (if i < 100 then Tags else Title)) [0 ..< n])])"
  "df (stateMany n) = (if n = 0 then [] else [(js ''a'', n)])"
  by (simp_all add: stateMany_def)

lemma mapHas_many: "mapHas (docs (stateMany n)) (noteId n) = False"
  by (simp add: mapHas_def stateMany_sel map_of_many_absent)

lemma mapSet_many:
  "mapSet (docs (stateMany n)) (noteId n) m = docs (stateMany n) @ [(noteId n, m)]"
  by (simp add: mapSet_def mapHas_many)

lemma upsert_fresh:
  assumes "\<not> mapHas (docs st) (doc_id d)"
      and "\<not> int (maxDocs opts) \<le> totalDocs st"
      and "map (\<lambda>(f, content). (f, tokenizeWords u content (diacritics (scorerConfigOf opts))))
               (indexedFields (processedDoc opts d)) = fts"
  shows "upsert u opts st d =
         (None,
          (fold (\<lambda>(f, tokens) s. fold (addPosting (doc_id d) f)
                                      (tokenPositions u (diacritics (scorerConfigOf opts)) tokens) s)
                fts
                (st\<lparr> docs := docs st @ [(doc_id d,
                          \<lparr> md_doc = processedDoc opts d,
                            fieldLengths = map (\<lambda>(f, tokens). (f, length tokens)) fts \<rparr>)] \<rparr>))
          \<lparr> totalDocs := totalDocs st + 1 \<rparr>)"
proof -
  have "upsert u opts st d =
         (None,
          (fold (\<lambda>(f, tokens) s. fold (addPosting (doc_id d) f)
                                      (tokenPositions u (diacritics (scorerConfigOf opts)) tokens) s)
                fts
                (st\<lparr> docs := mapSet (docs st) (doc_id d)
                          \<lparr> md_doc = processedDoc opts d,
                            fieldLengths = map (\<lambda>(f, tokens). (f, length tokens)) fts \<rparr> \<rparr>))
          \<lparr> totalDocs := totalDocs
              (fold (\<lambda>(f, tokens) s. fold (addPosting (doc_id d) f)
                                      (tokenPositions u (diacritics (scorerConfigOf opts)) tokens) s)
                fts
                (st\<lparr> docs := mapSet (docs st) (doc_id d)
                          \<lparr> md_doc = processedDoc opts d,
                            fieldLengths = map (\<lambda>(f, tokens). (f, length tokens)) fts \<rparr> \<rparr>)) + 1 \<rparr>)"
    unfolding upsert_def Let_def assms(3) [symmetric] using assms(1,2) by simp
  then show ?thesis
    using assms(1) by (simp add: totalDocs_fold_fields mapSet_absent)
qed

lemma upsert_many:
  assumes "n < 50000"
  shows "upsert latin1 defaultOptions (stateMany n) (noteN n) = (None, stateMany (Suc n))"
proof -
  have id: "doc_id (noteN n) = noteId n" by (simp add: noteN_def)
  have room: "\<not> int (maxDocs defaultOptions) \<le> totalDocs (stateMany n)"
    using assms by (simp add: defaultOptions_def stateMany_sel)
  have absent: "\<not> mapHas (docs (stateMany n)) (doc_id (noteN n))"
    by (simp add: id mapHas_many)
  define st2 where "st2 = (stateMany n)\<lparr> docs := docs (stateMany n) @ [(noteId n, metaN n)] \<rparr>"
  have post: "addPosting (noteId n) f (js ''a'', [0]) st2
              = st2\<lparr> index := [(js ''a'', map (\<lambda>i. entryOf (noteId i) (if i < 100 then Tags else Title)) [0 ..< n]
                                         @ [entryOf (noteId n) f])],
                      df := [(js ''a'', Suc n)] \<rparr>" for f
  proof (cases "n = 0")
    case True
    then show ?thesis
      by (simp add: addPosting_first st2_def stateMany_sel)
  next
    case False
    then show ?thesis
      by (simp add: addPosting_next [where c = n] st2_def stateMany_sel)
  qed
  show ?thesis
  proof (cases "n < 100")
    case True
    have fts: "map (\<lambda>(f, content). (f, tokenizeWords latin1 content (diacritics (scorerConfigOf defaultOptions))))
                 (indexedFields (processedDoc defaultOptions (noteN n)))
               = [(Title, []), (Path, []), (Headings, []), (Tags, [js ''a'']), (Symbols, []), (Body, [])]"
      by (simp only: defaultOptions_sel(2) fieldTokens_low [OF True])
    have "upsert latin1 defaultOptions (stateMany n) (noteN n)
          = (None, (addPosting (noteId n) Tags (js ''a'', [0]) st2)\<lparr> totalDocs := int n + 1 \<rparr>)"
      unfolding upsert_fresh [OF absent room fts]
      using True
      by (simp add: id defaultOptions_sel(2) processedDoc_noteN metaN_def pos_a st2_def
            stateMany_sel(2))
    also have "\<dots> = (None, stateMany (Suc n))"
      unfolding post using True by (simp add: st2_def stateMany_def)
    finally show ?thesis .
  next
    case False
    have fts: "map (\<lambda>(f, content). (f, tokenizeWords latin1 content (diacritics (scorerConfigOf defaultOptions))))
                 (indexedFields (processedDoc defaultOptions (noteN n)))
               = [(Title, [js ''a'']), (Path, []), (Headings, []), (Tags, []), (Symbols, []), (Body, [])]"
      by (simp only: defaultOptions_sel(2) fieldTokens_high [OF False])
    have "upsert latin1 defaultOptions (stateMany n) (noteN n)
          = (None, (addPosting (noteId n) Title (js ''a'', [0]) st2)\<lparr> totalDocs := int n + 1 \<rparr>)"
      unfolding upsert_fresh [OF absent room fts]
      using False
      by (simp add: id defaultOptions_sel(2) processedDoc_noteN metaN_def pos_a st2_def
            stateMany_sel(2))
    also have "\<dots> = (None, stateMany (Suc n))"
      unfolding post using False by (simp add: st2_def stateMany_def)
    finally show ?thesis .
  qed
qed

lemma upsertAll_many:
  "n \<le> m \<Longrightarrow> m \<le> 50000 \<Longrightarrow>
   upsertAll latin1 defaultOptions (stateMany n) (map noteN [n ..< m]) = (None, stateMany m)"
proof (induction "m - n" arbitrary: n)
  case 0
  then show ?case by simp
next
  case (Suc k)
  then have lt: "n < m" by simp
  then have "[n ..< m] = n # [Suc n ..< m]" by (simp add: upt_conv_Cons)
  moreover have "upsert latin1 defaultOptions (stateMany n) (noteN n) = (None, stateMany (Suc n))"
    using lt Suc.prems(2) by (intro upsert_many) simp
  moreover have "upsertAll latin1 defaultOptions (stateMany (Suc n)) (map noteN [Suc n ..< m])
                 = (None, stateMany m)"
    using Suc.hyps(2) lt Suc.prems(2) by (intro Suc.hyps(1)) simp_all
  ultimately show ?case by simp
qed

lemma stateMany_0: "stateMany 0 = clear"
  by (simp add: stateMany_def clear_def)

lemma many_built: "indexAll latin1 defaultOptions st manyNotes = (None, stateMany 101)"
  using upsertAll_many [of 0 101] by (simp add: indexAll_def manyNotes_def stateMany_0)

lemma addDocIds_distinct:
  "distinct (map docId es) \<Longrightarrow> set (map docId es) \<inter> set acc = {} \<Longrightarrow>
   addDocIds es acc = acc @ map docId es"
proof (induction es arbitrary: acc)
  case Nil
  then show ?case by (simp add: addDocIds_def)
next
  case (Cons e es)
  have "addDocIds (e # es) acc = addDocIds es (acc @ [docId e])"
    using Cons.prems(2) by (simp add: addDocIds_def setAdd_def)
  also have "\<dots> = (acc @ [docId e]) @ map docId es"
    using Cons.prems by (intro Cons.IH) auto
  finally show ?case by simp
qed

lemma cands_many:
  "gatherCandidates latin1 defaultOptions (stateMany 101) aQuery = map noteId [0 ..< 101]"
proof -
  let ?es = "map (\<lambda>i. entryOf (noteId i) (if i < 100 then Tags else Title)) [0 ..< 101]"
  have ids: "map docId ?es = map noteId [0 ..< 101]"
    by (simp add: entryOf_def comp_def)
  have "distinct (map noteId [0 ..< 101])"
    by (simp add: distinct_map inj_on_def)
  then have "addDocIds ?es [] = map noteId [0 ..< 101]"
    using addDocIds_distinct [of ?es "[]"] by (simp only: ids) simp
  moreover have "mapGet (index (stateMany 101)) (normalizeText latin1 (js ''a'') True) = Some ?es"
    by (simp add: stateMany_sel mapGet_def normalize_latin1 js_def latin1Lower_def asciiLower_def)
  ultimately have "postingCandidates latin1 defaultOptions (stateMany 101) aQuery = map noteId [0 ..< 101]"
    by (simp add: postingCandidates_def aQuery_def emptyQuery_def defaultOptions_sel(2) intersectAll_def
          del: upt_Suc)
  then show ?thesis
    by (simp add: gatherCandidates_def Let_def del: upt_Suc)
qed

lemma sf_a:
  "scoreField latin1 DEFAULT_SCORER_CONFIG (Str (js ''a'')) [js ''a''] = (1, [(0, 1)])"
  "scoreField latin1 DEFAULT_SCORER_CONFIG (Arr [js ''a'']) [js ''a''] = (1, [(0, 1)])"
  by (simp_all add: sf_ev)

lemma score_low:
  "i < 100 \<Longrightarrow> scoreDoc latin1 DEFAULT_SCORER_CONFIG now0 (noteN i) aQuery
   = Some \<lparr> sd_score = 7/4, sd_matchSpans = [\<lparr>span_field = Tags, span_start = 0, span_end = 1\<rparr>] \<rparr>"
  by (simp add: scoreDoc_def isExcluded_def fieldValues_def noteN_def aQuery_def emptyQuery_def
        scorePhrases_def weightOf_def sf_a sf_empty config_sel recency_cap_latin1 now0_def double_values)

lemma score_high:
  "\<not> i < 100 \<Longrightarrow> scoreDoc latin1 DEFAULT_SCORER_CONFIG now0 (noteN i) aQuery
   = Some \<lparr> sd_score = 17/4, sd_matchSpans = [\<lparr>span_field = Title, span_start = 0, span_end = 1\<rparr>] \<rparr>"
  by (simp add: scoreDoc_def isExcluded_def fieldValues_def noteN_def aQuery_def emptyQuery_def
        scorePhrases_def weightOf_def sf_a sf_empty config_sel recency_cap_latin1 now0_def double_values)

lemma get_many: "k < 101 \<Longrightarrow> mapGet (docs (stateMany 101)) (noteId k) = Some (metaN k)"
  by (simp only: mapGet_def stateMany_sel map_of_many)

lemma md_doc_metaN: "md_doc (metaN k) = noteN k"
  by (simp add: metaN_def)

lemma step_any:
  assumes "k < 101"
  shows "scoreCandidates latin1 defaultOptions now0 (stateMany 101) aQuery limit (noteId k # rest) ls
         = scoreCandidates latin1 defaultOptions now0 (stateMany 101) aQuery limit rest
             (let heap1 = snd (push (topResults ls)
                                 (if k < 100 then resLow k else resHigh k));
                  ls1 = ls\<lparr> topResults := heap1, processedCount := processedCount ls + 1 \<rparr>
              in if processedCount ls1 mod 100 = 0 \<and> length (items heap1) > 0
                 then emitTop limit ls1 else ls1)"
  using assms
  by (cases "k < 100")
     (simp_all add: get_many md_doc_metaN defaultOptions_sel(3) score_low score_high resLow_def
        resHigh_def Let_def)

lemma items_heapLow: "items heapLow = [resLow 0, resLow 1]"
  by (simp add: heapLow_def)

lemma push_low_full: "push heapLow (resLow k) = (False, heapLow)"
  by (simp add: push_def heapLow_def resLow_def)

lemma loop_steady:
  "2 \<le> k \<Longrightarrow> k \<le> m \<Longrightarrow> m \<le> 99 \<Longrightarrow>
   scoreCandidates latin1 defaultOptions now0 (stateMany 101) aQuery 2
       (map noteId [k ..< m] @ rest) (loopLow k)
   = scoreCandidates latin1 defaultOptions now0 (stateMany 101) aQuery 2 rest (loopLow m)"
proof (induction "m - k" arbitrary: k)
  case 0
  then show ?case by simp
next
  case (Suc d)
  then have lt: "k < m" by simp
  then have split: "[k ..< m] = k # [Suc k ..< m]" by (simp add: upt_conv_Cons)
  have k: "k < 100" "k < 101" "Suc k mod 100 \<noteq> 0" using lt Suc.prems(3) by simp_all
  have step: "scoreCandidates latin1 defaultOptions now0 (stateMany 101) aQuery 2
                (noteId k # (map noteId [Suc k ..< m] @ rest)) (loopLow k)
              = scoreCandidates latin1 defaultOptions now0 (stateMany 101) aQuery 2
                (map noteId [Suc k ..< m] @ rest) (loopLow (Suc k))"
    unfolding step_any [OF k(2)]
    using k(1,3) by (simp add: loopLow_def push_low_full Let_def del: scoreCandidates.simps)
  have rest: "scoreCandidates latin1 defaultOptions now0 (stateMany 101) aQuery 2
                (map noteId [Suc k ..< m] @ rest) (loopLow (Suc k))
              = scoreCandidates latin1 defaultOptions now0 (stateMany 101) aQuery 2 rest (loopLow m)"
    using Suc.hyps(2) lt Suc.prems by (intro Suc.hyps(1)) simp_all
  show ?case using step rest by (simp add: split)
qed

lemma push_empty:
  "push (createSearchResultHeap n) r
   = (True, \<lparr> items = [r], maxSize = n, compare = (\<lambda>a b. double (score a - score b)) \<rparr>)"
  by (cases "n = 0") (simp_all add: heap_ev)

lemma push_second:
  "Suc 0 < n \<Longrightarrow>
   push \<lparr> items = [resLow i], maxSize = n, compare = (\<lambda>a b. double (score a - score b)) \<rparr> (resLow k)
   = (True, \<lparr> items = [resLow i, resLow k], maxSize = n, compare = (\<lambda>a b. double (score a - score b)) \<rparr>)"
  by (simp add: heap_ev resLow_def)

lemma loop_start:
  "scoreCandidates latin1 defaultOptions now0 (stateMany 101) aQuery 2 (noteId 0 # noteId 1 # rest)
     \<lparr> topResults = createSearchResultHeap 2, yieldedIds = [], processedCount = 0, yielded = [] \<rparr>
   = scoreCandidates latin1 defaultOptions now0 (stateMany 101) aQuery 2 rest (loopLow 2)"
proof -
  have k: "(0::nat) < 101" "(1::nat) < 101" by simp_all
  show ?thesis
    unfolding step_any [OF k(1)] step_any [OF k(2)]
    by (simp add: push_empty push_second loopLow_def heapLow_def Let_def numeral_2_eq_2
          del: scoreCandidates.simps)
qed

lemma loop_end:
  "scoreCandidates latin1 defaultOptions now0 (stateMany 101) aQuery 2 [noteId 99, noteId 100] (loopLow 99)
   = \<lparr> topResults = \<lparr> items = [resLow 1, resHigh 100], maxSize = 2, compare = (\<lambda>a b. double (score a - score b)) \<rparr>,
       yieldedIds = [noteId 0], processedCount = 101, yielded = [resLow 0] \<rparr>"
proof -
  have emit: "emitTop 2 (loopLow 100)
              = \<lparr> topResults = heapLow, yieldedIds = [noteId 0], processedCount = 100, yielded = [resLow 0] \<rparr>"
    by (simp add: emitTop_def loopLow_def heapLow_def toArray_def sortByScoreDesc_def resLow_def setAdd_def)
  have ph: "push heapLow (resHigh 100)
            = (True, \<lparr> items = [resLow 1, resHigh 100], maxSize = 2, compare = (\<lambda>a b. double (score a - score b)) \<rparr>)"
    by (simp add: heap_ev heapLow_def resLow_def resHigh_def)
  have k: "(99::nat) < 101" "(100::nat) < 101" by simp_all
  have s99: "scoreCandidates latin1 defaultOptions now0 (stateMany 101) aQuery 2 [noteId 99, noteId 100] (loopLow 99)
             = scoreCandidates latin1 defaultOptions now0 (stateMany 101) aQuery 2 [noteId 100]
                 \<lparr> topResults = heapLow, yieldedIds = [noteId 0], processedCount = 100, yielded = [resLow 0] \<rparr>"
    unfolding step_any [OF k(1)]
    by (simp add: loopLow_def push_low_full Let_def emit [unfolded loopLow_def] items_heapLow
          del: scoreCandidates.simps)
  show ?thesis
    unfolding s99 step_any [OF k(2)]
    by (simp add: ph Let_def)
qed

lemma extract_many:
  "extractAll \<lparr> items = [resLow 1, resHigh 100], maxSize = 2, compare = (\<lambda>a b. double (score a - score b)) \<rparr>
   = [resLow 1, resHigh 100]"
  by (simp add: heap_ev resLow_def resHigh_def)

lemma upt_101: "[0 ..< 101] = 0 # 1 # ([2 ..< 99] @ [99, 100])"
proof -
  have a: "[0 ..< 101] = [0 ..< 2] @ [2 ..< 101]"
    using upt_add_eq_append [of 0 2 99] by simp
  have b: "[2 ..< 101] = [2 ..< 99] @ [99 ..< 101]"
    using upt_add_eq_append [of 2 99 2] by simp
  have c: "[0 ..< 2] = [0, 1]" "[99 ..< 101] = [99, 100]"
    by (simp_all add: upt_conv_Cons)
  show ?thesis by (simp only: a b c) simp
qed

lemma loop_many:
  "scoreCandidates latin1 defaultOptions now0 (stateMany 101) aQuery 2 (map noteId [0 ..< 101])
     \<lparr> topResults = createSearchResultHeap 2, yieldedIds = [], processedCount = 0, yielded = [] \<rparr>
   = \<lparr> topResults = \<lparr> items = [resLow 1, resHigh 100], maxSize = 2, compare = (\<lambda>a b. double (score a - score b)) \<rparr>,
       yieldedIds = [noteId 0], processedCount = 101, yielded = [resLow 0] \<rparr>"
proof -
  have e: "map noteId [0 ..< 101] = noteId 0 # noteId 1 # (map noteId [2 ..< 99] @ [noteId 99, noteId 100])"
    by (simp only: upt_101) simp
  have st: "scoreCandidates latin1 defaultOptions now0 (stateMany 101) aQuery 2
              (map noteId [2 ..< 99] @ [noteId 99, noteId 100]) (loopLow 2)
            = scoreCandidates latin1 defaultOptions now0 (stateMany 101) aQuery 2
              [noteId 99, noteId 100] (loopLow 99)"
    by (rule loop_steady) simp_all
  show ?thesis
    unfolding e loop_start st by (rule loop_end)
qed

lemma run_many:
  "runStream latin1 defaultOptions now0 (stateMany 101) aQuery 2
   = \<lparr> partialYields = [resLow 0], regexTouched = [], finalYields = [resHigh 100, resLow 1] \<rparr>"
proof -
  have nr: "regex aQuery = None" by (simp add: aQuery_def emptyQuery_def)
  show ?thesis
    unfolding runStream_def cands_many Let_def loop_many
    by (simp add: extract_many nr del: One_nat_def) (simp add: resHigh_def resLow_def)
qed

lemma stream_many:
  "queryStream latin1 defaultOptions now0 (stateMany 101) aQuery 2 = [resLow 0, resHigh 100, resLow 1]"
proof -
  have ne: "\<not> isEmpty aQuery" by (simp add: isEmpty_def aQuery_def emptyQuery_def)
  show ?thesis by (simp add: queryStream_def ne run_many)
qed

lemma query_many:
  "query latin1 defaultOptions now0 (stateMany 101) aQuery 2 = [resLow 0, resHigh 100]"
proof -
  have ne: "\<not> isEmpty aQuery" by (simp add: isEmpty_def aQuery_def emptyQuery_def)
  show ?thesis
    by (simp add: query_def ne run_many refreshed_def Let_def)
qed

text \<open>
  C1, at the failing input. The index holds the notes \<open>n000\<close> to \<open>n100\<close>; the query has
  the term \<open>a\<close> and the limit 2. \<open>query\<close> returns \<open>n000\<close> with the score 7/4 and then
  \<open>n100\<close> with the score 17/4: the scores ascend. The first result is the progressive
  emission after the hundredth candidate, the second is the best of the final heap.
\<close>

theorem query_scores_ascend_at_101_notes:
  "query latin1 defaultOptions now0
     (snd (indexAll latin1 defaultOptions clear manyNotes)) aQuery 2 = [resLow 0, resHigh 100]
   \<and> map score (query latin1 defaultOptions now0
        (snd (indexAll latin1 defaultOptions clear manyNotes)) aQuery 2) = [7/4, 17/4]"
  by (simp add: many_built query_many) (simp add: resLow_def resHigh_def)

text \<open>
  C2, at the same input. Over its whole run \<open>queryStream\<close> yields three results, the
  notes \<open>n000\<close>, \<open>n100\<close> and \<open>n001\<close>, one more than the limit; \<open>query\<close> stops at the
  limit and returns \<open>n000\<close> and \<open>n100\<close>. The note \<open>n001\<close> is yielded by the stream and is
  not in the result of \<open>query\<close>.
\<close>

theorem stream_ids_differ_at_101_notes:
  "map res_id (queryStream latin1 defaultOptions now0
        (snd (indexAll latin1 defaultOptions clear manyNotes)) aQuery 2)
     = [js ''n000'', js ''n100'', js ''n001'']
   \<and> map res_id (query latin1 defaultOptions now0
        (snd (indexAll latin1 defaultOptions clear manyNotes)) aQuery 2)
     = [js ''n000'', js ''n100'']"
  by (simp add: many_built query_many stream_many) (simp add: resLow_def resHigh_def noteId_def js_def)

end
